(* ===== verification/Prelude.thy ===== *)
theory Prelude
  imports
    Complex_Main
    "HOL-Library.Stream"
    "HOL-Library.Multiset"
    "HOL-Library.AList"
    "HOL-Library.Sublist"
begin

text \<open>
  Shared vocabulary of the development: the source of randomness the program reads
  (\<open>Math.random\<close>), the integer index it derives from it
  (\<open>Math.floor(Math.random() * n)\<close>), the in-place swap of two array cells, and the
  collections of rewrite rules that the component theories extend.
\<close>

named_theorems model_simps
  "equations that evaluate the model's constants on concrete inputs"

named_theorems rng_simps
  "facts about the random source that the component proofs use"

section \<open>The random source\<close>

text \<open>
  \<open>Math.random()\<close> is a global generator: every call returns the next of an infinite
  sequence of doubles in \<open>[0, 1)\<close>. The model passes that sequence explicitly, as a
  stream of reals; a call reads its head and returns the rest. The contract of
  \<open>Math.random\<close> is \<open>random_ok\<close>: every value lies in \<open>[0, 1)\<close>.
\<close>

type_synonym rng = "real stream"

definition random_ok :: "rng \<Rightarrow> bool" where
  "random_ok rs \<longleftrightarrow> (\<forall>r \<in> sset rs. 0 \<le> r \<and> r < 1)"

definition math_random :: "rng \<Rightarrow> real \<times> rng" where
  "math_random rs = (shd rs, stl rs)"

text \<open>\<open>Math.floor(Math.random() * n)\<close> for a non-negative integer \<open>n\<close>.\<close>

definition rand_index :: "real \<Rightarrow> nat \<Rightarrow> nat" where
  "rand_index r n = nat \<lfloor>r * real n\<rfloor>"

section \<open>Swapping two cells of an array\<close>

text \<open>
  \<open>[a[i], a[j]] = [a[j], a[i]]\<close> evaluates the right-hand array first and then assigns
  \<open>a[i]\<close> and \<open>a[j]\<close> in that order.
\<close>

definition swap :: "'a list \<Rightarrow> nat \<Rightarrow> nat \<Rightarrow> 'a list" where
  "swap xs i j = xs[i := xs ! j, j := xs ! i]"

section \<open>Lemmas on the random source\<close>

lemma random_ok_shd [rng_simps]: "random_ok rs \<Longrightarrow> 0 \<le> shd rs \<and> shd rs < 1"
  by (simp add: random_ok_def shd_sset)

lemma random_ok_stl [rng_simps]: "random_ok rs \<Longrightarrow> random_ok (stl rs)"
  by (auto simp: random_ok_def dest: stl_sset)

lemma random_ok_shift [rng_simps]:
  "random_ok (xs @- rs) \<longleftrightarrow> (\<forall>r \<in> set xs. 0 \<le> r \<and> r < 1) \<and> random_ok rs"
  by (auto simp: random_ok_def)

lemma random_ok_SCons [rng_simps]:
  "random_ok (r ## rs) \<longleftrightarrow> 0 \<le> r \<and> r < 1 \<and> random_ok rs"
  by (auto simp: random_ok_def)

lemma random_ok_sconst [rng_simps]: "random_ok (sconst r) \<longleftrightarrow> 0 \<le> r \<and> r < 1"
  by (simp add: random_ok_def)

lemma math_random_ok [rng_simps]:
  "random_ok rs \<Longrightarrow> math_random rs = (r, rs') \<Longrightarrow> 0 \<le> r \<and> r < 1 \<and> random_ok rs'"
  by (auto simp: math_random_def random_ok_shd random_ok_stl)

lemma rand_index_less [rng_simps]:
  assumes "0 \<le> r" "r < 1" "0 < n"
  shows "rand_index r n < n"
proof -
  have "r * real n < real n" using assms by simp
  then have "\<lfloor>r * real n\<rfloor> < int n" by linarith
  moreover have "0 \<le> \<lfloor>r * real n\<rfloor>" using assms by simp
  ultimately show ?thesis by (simp add: rand_index_def nat_less_iff)
qed

lemma rand_index_exact [rng_simps]:
  assumes "k < n"
  shows "rand_index (real k / real n) n = k"
  using assms by (simp add: rand_index_def)

section \<open>Lemmas on lists\<close>

lemma mset_take_subseteq: "mset (take n xs) \<subseteq># mset xs"
  by (metis append_take_drop_id mset_append mset_subset_eq_add_left)

section \<open>Lemmas on swapping\<close>

lemma length_swap [simp]: "length (swap xs i j) = length xs"
  by (simp add: swap_def)

lemma mset_swap_cells:
  "i < length xs \<Longrightarrow> j < length xs \<Longrightarrow> mset (swap xs i j) = mset xs"
  by (cases "i = j") (auto simp: swap_def mset_update nth_list_update)

lemma nth_swap:
  "i < length xs \<Longrightarrow> j < length xs \<Longrightarrow>
   swap xs i j ! k = (if k = j then xs ! i else if k = i then xs ! j else xs ! k)"
  by (auto simp: swap_def nth_list_update)

end
