(* ===== verification/Cards.thy ===== *)
theory Cards
  imports Prelude
begin

text \<open>
  The card model of \<open>src/src/App.tsx\<close>: the configuration constants \<open>SUITS\<close>,
  \<open>RANKS\<close> and \<open>RANK_VALUES\<close> (lines 6--11), the \<open>CardType\<close> interface (13--18) and the
  deck builder \<open>getFreshDeck\<close> (135--150). Ranks and suits are strings in the source and
  stay strings here; the suit symbols are written as their UTF-8 bytes, since a HOL
  \<open>char\<close> is a byte. Only equality and substring tests are applied to them, and on these
  five symbols both agree with JavaScript's UTF-16 strings.
\<close>

section \<open>Configuration\<close>

definition heart :: string where "heart = [CHR 0xE2, CHR 0x99, CHR 0xA5]"
definition diamond :: string where "diamond = [CHR 0xE2, CHR 0x99, CHR 0xA6]"
definition club :: string where "club = [CHR 0xE2, CHR 0x99, CHR 0xA3]"
definition spade :: string where "spade = [CHR 0xE2, CHR 0x99, CHR 0xA0]"
definition star :: string where "star = [CHR 0xE2, CHR 0x98, CHR 0x85]"

lemmas symbol_defs [model_simps] = heart_def diamond_def club_def spade_def star_def

definition SUITS :: "string list" where
  "SUITS = [heart, diamond, club, spade]"

text \<open>The literal of line 7: the nine number ranks, then the four face ranks.\<close>

definition RANKS :: "string list" where
  "RANKS = [''2'', ''3'', ''4'', ''5'', ''6''] @ [''7'', ''8'', ''9'', ''10''] @ [''J'', ''Q'', ''K'', ''A'']"

text \<open>A JavaScript object used as a dictionary: a key that is absent reads as \<open>undefined\<close>.\<close>

definition RANK_VALUES :: "string \<rightharpoonup> int" where
  "RANK_VALUES = map_of
     [(''2'', 2), (''3'', 3), (''4'', 4), (''5'', 5), (''6'', 6), (''7'', 7), (''8'', 8),
      (''9'', 9), (''10'', 10), (''J'', 11), (''Q'', 12), (''K'', 13), (''A'', 14)]"

record CardType =
  rank :: string
  suit :: string
  color :: string
  isJoker :: bool

section \<open>The deck\<close>

text \<open>The object pushed for one suit and rank (lines 139--144).\<close>

definition plain_card :: "string \<Rightarrow> string \<Rightarrow> CardType" where
  "plain_card s r =
     \<lparr>rank = r, suit = s,
      color = (if s = heart \<or> s = diamond then ''red'' else ''black''),
      isJoker = False\<rparr>"

definition joker_card :: CardType where
  "joker_card = \<lparr>rank = ''Joker'', suit = star, color = ''purple'', isJoker = True\<rparr>"

text \<open>
  \<open>SUITS.forEach(suit => RANKS.forEach(rank => deck.push(...)))\<close> pushes suit-major,
  rank-minor; two jokers follow.
\<close>

definition getFreshDeck :: "CardType list" where
  "getFreshDeck = concat (map (\<lambda>s. map (plain_card s) RANKS) SUITS) @ [joker_card, joker_card]"

text \<open>
  A card of the game: a joker, or a non-joker card with a rank of \<open>RANKS\<close>, a suit of
  \<open>SUITS\<close> and the colour \<open>getFreshDeck\<close> gives it.
\<close>

definition valid_card :: "CardType \<Rightarrow> bool" where
  "valid_card c \<longleftrightarrow> c = joker_card \<or> (suit c \<in> set SUITS \<and> rank c \<in> set RANKS \<and> c = plain_card (suit c) (rank c))"

lemmas card_defs [model_simps] = SUITS_def RANKS_def RANK_VALUES_def plain_card_def joker_card_def

section \<open>Properties of the deck\<close>

lemma length_getFreshDeck [simp]: "length getFreshDeck = 54"
  by (simp add: getFreshDeck_def card_defs)

lemma plain_card_fields [simp]:
  "rank (plain_card s r) = r" "suit (plain_card s r) = s" "\<not> isJoker (plain_card s r)"
  by (simp_all add: plain_card_def)

lemma valid_getFreshDeck: "c \<in> set getFreshDeck \<Longrightarrow> valid_card c"
  by (auto simp: getFreshDeck_def valid_card_def)

text \<open>
  C17: \<open>getFreshDeck\<close> returns 54 cards: its non-jokers are 52 cards with pairwise
  distinct (rank, suit) pairs, and its jokers are exactly two copies of the same joker
  value, so the deck as a list of values has a duplicate.
\<close>

theorem fresh_deck_shape:
  "length getFreshDeck = 54 \<and>
   length (filter (\<lambda>c. \<not> isJoker c) getFreshDeck) = 52 \<and>
   distinct (map (\<lambda>c. (rank c, suit c)) (filter (\<lambda>c. \<not> isJoker c) getFreshDeck)) \<and>
   filter isJoker getFreshDeck = [joker_card, joker_card] \<and>
   list_all valid_card getFreshDeck"
proof -
  have "distinct (map (\<lambda>c. (rank c, suit c)) (filter (\<lambda>c. \<not> isJoker c) getFreshDeck))"
    by (simp add: getFreshDeck_def card_defs symbol_defs)
  moreover have "list_all valid_card getFreshDeck"
    using valid_getFreshDeck by (simp add: list_all_iff)
  ultimately show ?thesis by (simp add: getFreshDeck_def card_defs)
qed

end
