(* ===== verification/Shuffle.thy ===== *)
theory Shuffle
  imports Cards
begin

text \<open>
  The Fisher--Yates shuffle \<open>shuffleDeck\<close> (lines 152--159 of \<open>src/src/App.tsx\<close>) and
  the body of the timer callback of \<open>dealHand\<close> (lines 230--236): build a fresh deck,
  shuffle it, draw a hand size \<open>Math.floor(Math.random() * 4) + 2\<close> and keep that many
  cards from the front. Every call of \<open>Math.random\<close> reads the next value of the random
  stream, in the order the code makes the calls.
\<close>

section \<open>The shuffle\<close>

text \<open>
  One iteration per index \<open>i\<close> from \<open>deck.length - 1\<close> down to 1: draw
  \<open>j = Math.floor(Math.random() * (i + 1))\<close> and swap cells \<open>i\<close> and \<open>j\<close>. The loop
  counter is the first argument; the loop stops when it reaches 0. For an empty deck the
  source starts at \<open>i = -1\<close> and runs no iteration, as \<open>0 - 1 = 0\<close> does here.
\<close>

primrec shuffle_loop :: "nat \<Rightarrow> 'a list \<Rightarrow> rng \<Rightarrow> 'a list \<times> rng" where
  "shuffle_loop 0 deck rs = (deck, rs)"
| "shuffle_loop (Suc k) deck rs =
     (let (r, rs') = math_random rs;
          j = rand_index r (Suc k + 1)
      in shuffle_loop k (swap deck (Suc k) j) rs')"

definition shuffleDeck :: "'a list \<Rightarrow> rng \<Rightarrow> 'a list \<times> rng" where
  "shuffleDeck deck rs = shuffle_loop (length deck - 1) deck rs"

section \<open>Dealing\<close>

text \<open>
  \<open>const deck = shuffleDeck(getFreshDeck());
   const numCardsToDeal = Math.floor(Math.random() * 4) + 2;
   const newHand = deck.slice(0, numCardsToDeal);\<close>
  The callback returns the new hand; the state updates around it are in \<open>App\<close>.
\<close>

definition deal_cards :: "rng \<Rightarrow> CardType list \<times> rng" where
  "deal_cards rs =
     (let (deck, rs1) = shuffleDeck getFreshDeck rs;
          (r, rs2) = math_random rs1;
          numCardsToDeal = rand_index r 4 + 2
      in (take numCardsToDeal deck, rs2))"

text \<open>
  The draws under which every iteration of the shuffle swaps a cell with itself: for
  index \<open>i\<close> the value \<open>i / (i + 1)\<close>, whose \<open>j\<close> is \<open>i\<close>. Used to build
  concrete runs.
\<close>

definition keep_draws :: "nat \<Rightarrow> real list" where
  "keep_draws k = map (\<lambda>i. real i / real (Suc i)) (rev [1..<Suc k])"

section \<open>Lemmas on the shuffle\<close>

lemma shuffle_loop_rng:
  "random_ok rs \<Longrightarrow> random_ok (snd (shuffle_loop i deck rs))"
  by (induction i arbitrary: deck rs) (auto simp: math_random_def random_ok_stl Let_def)

lemma length_shuffle_loop [simp]: "length (fst (shuffle_loop i deck rs)) = length deck"
  by (induction i arbitrary: deck rs) (auto simp: math_random_def Let_def)

text \<open>Each iteration draws \<open>j \<le> i\<close>, so every swap stays inside the array.\<close>

lemma mset_shuffle_loop:
  "i < length deck \<Longrightarrow> random_ok rs \<Longrightarrow> mset (fst (shuffle_loop i deck rs)) = mset deck"
proof (induction i arbitrary: deck rs)
  case 0
  then show ?case by simp
next
  case (Suc k)
  let ?j = "rand_index (shd rs) (Suc k + 1)"
  have "?j < Suc k + 1"
    using Suc.prems(2) by (intro rand_index_less) (auto dest: random_ok_shd)
  then have "mset (swap deck (Suc k) ?j) = mset deck"
    using Suc.prems(1) by (intro mset_swap_cells) auto
  moreover have "mset (fst (shuffle_loop k (swap deck (Suc k) ?j) (stl rs))) = mset (swap deck (Suc k) ?j)"
    using Suc.prems by (intro Suc.IH) (auto simp: random_ok_stl)
  ultimately show ?case by (simp add: math_random_def Let_def)
qed

lemma shuffleDeck_rng: "random_ok rs \<Longrightarrow> random_ok (snd (shuffleDeck deck rs))"
  by (simp add: shuffleDeck_def shuffle_loop_rng)

lemma swap_same [simp]: "swap xs i i = xs"
  by (simp add: swap_def)

lemma shuffle_loop_keep:
  "shuffle_loop k deck (keep_draws k @- rs) = (deck, rs)"
proof (induction k arbitrary: deck)
  case 0
  then show ?case by (simp add: keep_draws_def)
next
  case (Suc k)
  have "keep_draws (Suc k) = (real (Suc k) / real (Suc (Suc k))) # keep_draws k"
    by (simp add: keep_draws_def)
  moreover have "rand_index (real (Suc k) / real (Suc (Suc k))) (Suc k + 1) = Suc k"
    using rand_index_exact [of "Suc k" "Suc (Suc k)"] by simp
  ultimately show ?case using Suc.IH by (simp add: math_random_def)
qed

lemma keep_draws_ok: "r \<in> set (keep_draws k) \<Longrightarrow> 0 \<le> r \<and> r < 1"
  by (auto simp: keep_draws_def)

section \<open>Lemmas on dealing\<close>

lemma deal_cards_unfold:
  "deal_cards rs =
     (take (rand_index (shd (snd (shuffleDeck getFreshDeck rs))) 4 + 2) (fst (shuffleDeck getFreshDeck rs)),
      stl (snd (shuffleDeck getFreshDeck rs)))"
  by (simp add: deal_cards_def math_random_def split: prod.splits)

lemma deal_cards_rng: "random_ok rs \<Longrightarrow> random_ok (snd (deal_cards rs))"
  by (simp add: deal_cards_unfold shuffleDeck_rng random_ok_stl)

lemma length_deal_cards:
  assumes "random_ok rs"
  shows "2 \<le> length (fst (deal_cards rs)) \<and> length (fst (deal_cards rs)) \<le> 5"
proof -
  let ?r = "shd (snd (shuffleDeck getFreshDeck rs))"
  have "0 \<le> ?r \<and> ?r < 1"
    using assms by (intro random_ok_shd shuffleDeck_rng)
  then have "rand_index ?r 4 < 4" by (intro rand_index_less) auto
  moreover have "length (fst (shuffleDeck getFreshDeck rs)) = 54"
    by (simp add: shuffleDeck_def)
  ultimately show ?thesis by (simp add: deal_cards_unfold)
qed

lemma mset_deal_cards:
  assumes "random_ok rs"
  shows "mset (fst (deal_cards rs)) \<subseteq># mset getFreshDeck"
proof -
  let ?deck = "fst (shuffleDeck getFreshDeck rs)"
  have "mset (fst (deal_cards rs)) \<subseteq># mset ?deck"
    by (simp add: deal_cards_unfold mset_take_subseteq)
  also have "mset ?deck = mset getFreshDeck"
    using assms by (simp add: shuffleDeck_def mset_shuffle_loop)
  finally show ?thesis .
qed

lemma valid_deal_cards:
  assumes "random_ok rs" "c \<in> set (fst (deal_cards rs))"
  shows "valid_card c"
proof -
  have "c \<in># mset getFreshDeck"
    using mset_deal_cards [OF assms(1)] assms(2) by (auto dest: mset_subset_eqD)
  then show ?thesis by (simp add: valid_getFreshDeck)
qed

text \<open>
  A concrete deal: the draws of \<open>keep_draws\<close> leave the fresh deck in order, and the
  draw \<open>1/4\<close> gives three cards, the Hearts 2, 3 and 4.
\<close>

lemma deal_identity_run:
  "deal_cards (keep_draws 53 @- (1/4) ## rest) =
     ([plain_card heart ''2'', plain_card heart ''3'', plain_card heart ''4''], rest)"
proof -
  have "shuffleDeck getFreshDeck (keep_draws 53 @- (1/4) ## rest) = (getFreshDeck, (1/4) ## rest)"
    by (simp add: shuffleDeck_def shuffle_loop_keep)
  moreover have "rand_index (1/4) 4 = 1" by (simp add: rand_index_def)
  moreover have "take 3 getFreshDeck = [plain_card heart ''2'', plain_card heart ''3'', plain_card heart ''4'']"
    by (simp add: getFreshDeck_def SUITS_def RANKS_def numeral_eq_Suc)
  ultimately show ?thesis by (simp add: deal_cards_unfold numeral_eq_Suc)
qed

text \<open>Each iteration of the loop reads one value of the random stream.\<close>

lemma shuffle_loop_draws: "snd (shuffle_loop k deck rs) = sdrop k rs"
  by (induction k arbitrary: deck rs) (simp_all add: math_random_def Let_def)

section \<open>Properties of the shuffle and the deal\<close>

text \<open>
  C24: the loop \<open>for (let i = deck.length - 1; i > 0; i--)\<close> stops after exactly
  \<open>deck.length - 1\<close> iterations, each calling \<open>Math.random\<close> once. So the deal
  callback reads exactly 54 values: 53 for the shuffle of the fresh deck and one for the
  hand size.
\<close>

theorem shuffle_iterations:
  "snd (shuffleDeck deck rs) = sdrop (length deck - 1) rs \<and> snd (deal_cards rs) = sdrop 54 rs"
proof -
  have "snd (deal_cards rs) = stl (sdrop 53 rs)"
    by (simp add: deal_cards_unfold shuffleDeck_def shuffle_loop_draws)
  also have "\<dots> = sdrop 54 rs" by (simp add: sdrop_stl [symmetric] numeral_eq_Suc del: sdrop_stl)
  finally show ?thesis by (simp add: shuffleDeck_def shuffle_loop_draws)
qed

text \<open>
  C25: the destructuring assignment of line 156 exchanges the two cells it names, and
  applying it twice restores the array, for indices inside the array.
\<close>

theorem swap_roundtrip:
  "i < length xs \<Longrightarrow> j < length xs \<Longrightarrow>
   swap (swap xs i j) i j = xs \<and> swap xs i j ! i = xs ! j \<and> swap xs i j ! j = xs ! i"
  by (auto simp: list_eq_iff_nth_eq nth_swap)

theorem swap_roundtrip_witness:
  "(0::nat) < length [1, 2, 3 :: nat] \<and> (2::nat) < length [1, 2, 3 :: nat] \<and>
   swap (swap [1, 2, 3 :: nat] 0 2) 0 2 = [1, 2, 3] \<and> swap [1, 2, 3 :: nat] 0 2 ! 0 = 3"
  using swap_roundtrip [of 0 "[1, 2, 3 :: nat]" 2] by simp

section \<open>Properties of the shuffle and the deal, continued\<close>

text \<open>
  C10: \<open>shuffleDeck\<close> permutes its argument: whatever values \<open>Math.random\<close> returns
  in \<open>[0, 1)\<close>, the result has the same cards with the same multiplicities, and the
  same length.
\<close>

theorem shuffleDeck_permutes:
  "random_ok rs \<Longrightarrow>
   mset (fst (shuffleDeck deck rs)) = mset deck \<and> length (fst (shuffleDeck deck rs)) = length deck"
  by (cases deck) (simp_all add: shuffleDeck_def mset_shuffle_loop)

theorem shuffleDeck_permutes_witness:
  "random_ok (sconst 0) \<and>
   mset (fst (shuffleDeck getFreshDeck (sconst 0))) = mset getFreshDeck \<and>
   length (fst (shuffleDeck getFreshDeck (sconst 0))) = length getFreshDeck"
  using shuffleDeck_permutes [of "sconst 0" getFreshDeck] by (simp add: rng_simps)

text \<open>
  C11: the deal callback produces a hand of 2 to 5 cards, drawn without replacement from
  one fresh deck: the hand is a sub-multiset of \<open>getFreshDeck()\<close>.
\<close>

theorem deal_cards_hand:
  "random_ok rs \<Longrightarrow>
   2 \<le> length (fst (deal_cards rs)) \<and> length (fst (deal_cards rs)) \<le> 5 \<and>
   mset (fst (deal_cards rs)) \<subseteq># mset getFreshDeck"
  using length_deal_cards mset_deal_cards by blast

theorem deal_cards_hand_witness:
  "random_ok (sconst (1 / 2)) \<and>
   2 \<le> length (fst (deal_cards (sconst (1 / 2)))) \<and> length (fst (deal_cards (sconst (1 / 2)))) \<le> 5 \<and>
   mset (fst (deal_cards (sconst (1 / 2)))) \<subseteq># mset getFreshDeck"
  using deal_cards_hand [of "sconst (1 / 2)"] by (simp add: rng_simps)

text \<open>
  C18: a hand need not consist of distinct card values: some run of \<open>Math.random\<close>
  deals exactly the two jokers, which are equal objects. The specification's "no
  duplicates" holds of deck positions, not of the card values.
\<close>

theorem deal_can_repeat_joker:
  "\<exists>rs. random_ok rs \<and> fst (deal_cards rs) = [joker_card, joker_card]"
proof -
  define rs where "rs = [0, 1 / 53] @- keep_draws 51 @- sconst (0::real)"
  define deck where "deck = swap (swap getFreshDeck 53 0) 52 1"
  have ok: "random_ok rs"
    by (auto simp: rs_def rng_simps dest: keep_draws_ok)
  have j1: "rand_index 0 54 = 0" and j2: "rand_index (1 / 53) 53 = 1" and j3: "rand_index 0 4 = 0"
    by (simp_all add: rand_index_def)
  have "shuffleDeck getFreshDeck rs = shuffle_loop (Suc (Suc 51)) getFreshDeck rs"
    by (simp add: shuffleDeck_def)
  also have "\<dots> = shuffle_loop 51 deck (keep_draws 51 @- sconst 0)"
    using j1 j2 by (simp add: rs_def deck_def math_random_def numeral_eq_Suc)
  also have "\<dots> = (deck, sconst 0)"
    by (rule shuffle_loop_keep)
  finally have sh: "shuffleDeck getFreshDeck rs = (deck, sconst 0)" .
  have "deck ! 0 = joker_card" "deck ! 1 = joker_card" "2 \<le> length deck"
    by (simp_all add: deck_def nth_swap getFreshDeck_def nth_append card_defs)
  then have "take 2 deck = [joker_card, joker_card]"
    by (cases deck; cases "tl deck") auto
  then have "fst (deal_cards rs) = [joker_card, joker_card]"
    using j3 by (simp add: deal_cards_unfold sh numeral_2_eq_2)
  with ok show ?thesis by blast
qed

end
