(* ===== verification/JS.thy ===== *)
theory JS
  imports Prelude
begin

text \<open>
  The JavaScript built-ins that \<open>App.tsx\<close> applies to its task parameters and texts, with
  the semantics of the ECMAScript specification restricted to the values the program
  produces: dynamic values (numbers, strings, arrays, \<open>undefined\<close>), \<open>String(v)\<close>,
  truthiness, \<open>includes\<close> on arrays and strings, \<open>Array.prototype.join\<close>,
  \<open>String.prototype.replace\<close> with a string pattern and with a global regular expression
  of literal text, and \<open>filter\<close>/\<open>some\<close> with a callback that may throw. A thrown
  \<open>TypeError\<close> is the left value of \<open>js_error + 'a\<close>.
\<close>

section \<open>Values and errors\<close>

text \<open>
  The values stored in \<open>TaskParams\<close>: \<open>number | number[] | string | string[]\<close>, and
  \<open>undefined\<close> for an absent property or an array read out of range. All numbers the
  program stores are integers.
\<close>

datatype jsval = JNum int | JStr string | JArr "jsval list" | JUndef

datatype js_error = TypeError string

type_synonym 'a js_result = "js_error + 'a"

definition js_bind :: "'a js_result \<Rightarrow> ('a \<Rightarrow> 'b js_result) \<Rightarrow> 'b js_result" where
  "js_bind m f = (case m of Inl e \<Rightarrow> Inl e | Inr a \<Rightarrow> f a)"

text \<open>An object with string keys, in insertion order (the order of \<open>for ... in\<close>).\<close>

type_synonym js_object = "(string \<times> jsval) list"

definition js_prop :: "js_object \<Rightarrow> string \<Rightarrow> jsval" where
  "js_prop obj k = (case map_of obj k of Some v \<Rightarrow> v | None \<Rightarrow> JUndef)"

text \<open>\<open>xs[i]\<close>: \<open>undefined\<close> out of range.\<close>

definition js_index :: "jsval list \<Rightarrow> nat \<Rightarrow> jsval" where
  "js_index xs i = (if i < length xs then xs ! i else JUndef)"

section \<open>Conversions\<close>

fun nat_digits :: "nat \<Rightarrow> string" where
  "nat_digits n =
     (if n < 10 then [''0123456789'' ! n]
      else nat_digits (n div 10) @ [''0123456789'' ! (n mod 10)])"

declare nat_digits.simps [simp del]

definition int_to_string :: "int \<Rightarrow> string" where
  "int_to_string i = (if i < 0 then ''-'' @ nat_digits (nat (- i)) else nat_digits (nat i))"

text \<open>
  \<open>Array.prototype.join\<close> with a separator: \<open>undefined\<close> elements print as the empty
  string, others by \<open>String(x)\<close>.
\<close>

fun js_to_string :: "jsval \<Rightarrow> string"
  and join_elems :: "jsval list \<Rightarrow> string \<Rightarrow> string" where
  "js_to_string (JNum n) = int_to_string n"
| "js_to_string (JStr s) = s"
| "js_to_string (JArr xs) = join_elems xs '',''"
| "js_to_string JUndef = ''undefined''"
| "join_elems [] sep = []"
| "join_elems [x] sep = (if x = JUndef then [] else js_to_string x)"
| "join_elems (x # y # ys) sep =
     (if x = JUndef then [] else js_to_string x) @ sep @ join_elems (y # ys) sep"

definition js_truthy :: "jsval \<Rightarrow> bool" where
  "js_truthy v = (case v of JNum n \<Rightarrow> n \<noteq> 0 | JStr s \<Rightarrow> s \<noteq> [] | JArr _ \<Rightarrow> True | JUndef \<Rightarrow> False)"

section \<open>Methods\<close>

text \<open>\<open>v.join(sep)\<close>: only arrays have a \<open>join\<close> method; on any other value it throws.\<close>

definition js_join :: "jsval \<Rightarrow> string \<Rightarrow> string js_result" where
  "js_join v sep = (case v of JArr xs \<Rightarrow> Inr (join_elems xs sep) | _ \<Rightarrow> Inl (TypeError ''join is not a function''))"

text \<open>
  \<open>v.includes(x)\<close>: on an array, membership (SameValueZero, which on the strings and
  numbers stored here is equality); on a string, whether \<open>String(x)\<close> occurs in it as a
  substring; on \<open>undefined\<close> or a number it throws.
\<close>

definition js_includes :: "jsval \<Rightarrow> jsval \<Rightarrow> bool js_result" where
  "js_includes v x =
     (case v of JArr xs \<Rightarrow> Inr (x \<in> set xs)
      | JStr s \<Rightarrow> Inr (sublist (js_to_string x) s)
      | _ \<Rightarrow> Inl (TypeError ''includes is not a function''))"

text \<open>
  \<open>s.replace(pat, rep)\<close> with a string pattern: the first occurrence of \<open>pat\<close> is
  replaced, and the string is unchanged if there is none. The replacement strings of the
  program contain no \<open>$\<close>, so the \<open>$\<close>-patterns of \<open>replace\<close> play no part.
\<close>

fun replace_first :: "string \<Rightarrow> string \<Rightarrow> string \<Rightarrow> string" where
  "replace_first pat rep [] = (if pat = [] then rep else [])"
| "replace_first pat rep (c # cs) =
     (if prefix pat (c # cs) then rep @ drop (length pat) (c # cs)
      else c # replace_first pat rep cs)"

text \<open>
  \<open>s.replace(new RegExp(pat, 'g'), rep)\<close> where \<open>pat\<close> is \<open>{{key}}\<close>: the braces
  of such a pattern are literal characters (they form no quantifier), so the expression
  matches exactly the text \<open>pat\<close>, and the global flag replaces every occurrence, left to
  right and without overlap. The pattern is never empty.
\<close>

function replace_all :: "string \<Rightarrow> string \<Rightarrow> string \<Rightarrow> string" where
  "replace_all pat rep [] = []"
| "replace_all pat rep (c # cs) =
     (if pat \<noteq> [] \<and> prefix pat (c # cs) then rep @ replace_all pat rep (drop (length pat) (c # cs))
      else c # replace_all pat rep cs)"
  by pat_completeness auto
termination
  by (relation "measure (\<lambda>(pat, rep, s). length s)") auto

text \<open>
  \<open>xs.filter(p)\<close> and \<open>xs.some(p)\<close> with a callback that may throw: the callback runs
  on the elements from left to right; the first throw ends the call; \<open>some\<close> stops at
  the first element that passes.
\<close>

fun js_filter :: "('a \<Rightarrow> bool js_result) \<Rightarrow> 'a list \<Rightarrow> 'a list js_result" where
  "js_filter p [] = Inr []"
| "js_filter p (x # xs) =
     js_bind (p x) (\<lambda>b. js_bind (js_filter p xs) (\<lambda>ys. Inr (if b then x # ys else ys)))"

fun js_some :: "('a \<Rightarrow> bool js_result) \<Rightarrow> 'a list \<Rightarrow> bool js_result" where
  "js_some p [] = Inr False"
| "js_some p (x # xs) = js_bind (p x) (\<lambda>b. if b then Inr True else js_some p xs)"

section \<open>Lemmas\<close>

lemma js_bind_Inr [simp]: "js_bind (Inr a) f = f a"
  by (simp add: js_bind_def)

lemma js_bind_Inl [simp]: "js_bind (Inl e) f = Inl e"
  by (simp add: js_bind_def)

text \<open>A callback that never throws makes \<open>filter\<close> and \<open>some\<close> the library's.\<close>

lemma js_bind_isl: "isl m \<Longrightarrow> isl (js_bind m f)"
  by (cases m) simp_all

lemma if_Inr_Inr [simp]: "(if b then Inr x else Inr y) = Inr (if b then x else y)"
  by simp

lemma js_filter_pure [simp]: "js_filter (\<lambda>x. Inr (P x)) xs = Inr (filter P xs)"
  by (induction xs) auto

lemma js_some_pure [simp]: "js_some (\<lambda>x. Inr (P x)) xs = Inr (list_ex P xs)"
  by (induction xs) auto

lemma js_includes_arr [simp]: "js_includes (JArr xs) x = Inr (x \<in> set xs)"
  by (simp add: js_includes_def)

lemma js_includes_str [simp]: "js_includes (JStr s) x = Inr (sublist (js_to_string x) s)"
  by (simp add: js_includes_def)

lemma js_join_arr [simp]: "js_join (JArr xs) sep = Inr (join_elems xs sep)"
  by (simp add: js_join_def)

lemma js_join_not_arr: "(\<forall>xs. v \<noteq> JArr xs) \<Longrightarrow> \<exists>e. js_join v sep = Inl e"
  by (cases v) (auto simp: js_join_def)

lemma js_prop_Cons [simp]: "js_prop ((k, v) # obj) k' = (if k' = k then v else js_prop obj k')"
  by (simp add: js_prop_def)

lemma js_prop_Nil [simp]: "js_prop [] k = JUndef"
  by (simp add: js_prop_def)

end
