(* ===== verification/Tasks.thy ===== *)
theory Tasks
  imports Cards JS
begin

text \<open>
  The task catalogue \<open>TASK_TEMPLATES\<close> of \<open>src/src/App.tsx\<close> (lines 20--127): the
  \<open>TaskParams\<close> and \<open>TaskTemplate\<close> interfaces and the \<open>check\<close> callback of each of the
  ten templates, in the catalogue's order. A callback gets the hand and the resolved
  parameter object; it returns a boolean, or throws where it calls \<open>includes\<close> on a
  parameter that is neither an array nor a string.
\<close>

type_synonym TaskParams = js_object

type_synonym check_fn = "CardType list \<Rightarrow> TaskParams \<Rightarrow> bool js_result"

record TaskTemplate =
  template :: string
  params :: "TaskParams option"
  check :: check_fn

section \<open>Comparisons with a parameter\<close>

text \<open>\<open>n === params.k\<close> for a number \<open>n\<close>: true only against the same number.\<close>

definition num_eq :: "int \<Rightarrow> jsval \<Rightarrow> bool" where
  "num_eq n v = (v = JNum n)"

text \<open>
  \<open>n >= params.k\<close> for a number \<open>n\<close>: against \<open>undefined\<close> the comparison is with
  \<open>NaN\<close> and false. The parameters compared this way are numbers or absent.
\<close>

definition num_ge :: "int \<Rightarrow> jsval \<Rightarrow> bool" where
  "num_ge n v = (case v of JNum m \<Rightarrow> m \<le> n | _ \<Rightarrow> False)"

section \<open>The check callbacks\<close>

text \<open>Template 1 (lines 39--46): \<open>RANK_VALUES[rank] % 2 === 0\<close>.\<close>

definition even_ranks :: "string list" where
  "even_ranks = filter (\<lambda>r. case RANK_VALUES r of Some v \<Rightarrow> v mod 2 = 0 | None \<Rightarrow> False) RANKS"

definition check_even_pair :: check_fn where
  "check_even_pair hand ps =
     Inr (list_ex (\<lambda>c. \<not> isJoker c \<and> rank c \<in> set even_ranks) hand \<and>
          2 \<le> length (filter (\<lambda>c. \<not> isJoker c \<and> rank c \<in> set even_ranks) hand))"

text \<open>Template 2 (lines 47--53).\<close>

definition check_hearts :: check_fn where
  "check_hearts hand ps = Inr (num_eq (int (length (filter (\<lambda>c. suit c = heart) hand))) (js_prop ps ''count''))"

text \<open>Template 3 (lines 54--59).\<close>

definition check_joker :: check_fn where
  "check_joker hand ps = Inr (list_ex isJoker hand)"

text \<open>
  Template 4 (lines 60--67): \<open>params.royalRanks.includes(card.rank)\<close> runs only for
  non-jokers (the \<open>&&\<close> short-circuits).
\<close>

definition check_royal :: check_fn where
  "check_royal hand ps =
     js_bind (js_filter (\<lambda>c. if isJoker c then Inr False
                              else js_includes (js_prop ps ''royalRanks'') (JStr (rank c))) hand)
       (\<lambda>royalCards. Inr (2 \<le> length royalCards))"

text \<open>
  Template 5 (lines 68--82): two nested loops over the non-jokers, \<open>j > i\<close>, returning
  as soon as a pair's values add up to \<open>params.sum\<close>. An absent rank value is
  \<open>undefined\<close>, the sum \<open>NaN\<close>, and the test false.
\<close>

definition sum_hits :: "CardType \<Rightarrow> CardType \<Rightarrow> jsval \<Rightarrow> bool" where
  "sum_hits a b s =
     (case (RANK_VALUES (rank a), RANK_VALUES (rank b)) of
        (Some x, Some y) \<Rightarrow> num_eq (x + y) s
      | _ \<Rightarrow> False)"

fun pair_sum_loop :: "CardType list \<Rightarrow> jsval \<Rightarrow> bool" where
  "pair_sum_loop [] s = False"
| "pair_sum_loop (a # cs) s = (list_ex (\<lambda>b. sum_hits a b s) cs \<or> pair_sum_loop cs s)"

definition check_sum :: check_fn where
  "check_sum hand ps = Inr (pair_sum_loop (filter (\<lambda>c. \<not> isJoker c) hand) (js_prop ps ''sum''))"

text \<open>
  Template 6 (lines 83--95): the object \<open>suitCounts\<close> counts the non-jokers per suit
  (\<open>(suitCounts[s] || 0) + 1\<close>), then \<open>Object.values(suitCounts).some(...)\<close>.
\<close>

fun count_suits :: "CardType list \<Rightarrow> (string \<times> int) list \<Rightarrow> (string \<times> int) list" where
  "count_suits [] m = m"
| "count_suits (c # cs) m =
     count_suits cs
       (if isJoker c then m
        else AList.update (suit c) (case map_of m (suit c) of Some n \<Rightarrow> n + 1 | None \<Rightarrow> 1) m)"

definition check_flush :: check_fn where
  "check_flush hand ps = Inr (list_ex (\<lambda>n. num_ge n (js_prop ps ''count'')) (map snd (count_suits hand [])))"

text \<open>
  Template 7 (lines 96--102). Its parameter domain drops \<open>'Joker'\<close>, \<open>'A'\<close>, \<open>'K'\<close>
  and \<open>'Q'\<close> from \<open>RANKS\<close>.
\<close>

definition pair_ranks :: "string list" where
  "pair_ranks = filter (\<lambda>r. r \<noteq> ''Joker'' \<and> r \<noteq> ''A'' \<and> r \<noteq> ''K'' \<and> r \<noteq> ''Q'') RANKS"

definition check_rank_pair :: check_fn where
  "check_rank_pair hand ps = Inr (2 \<le> length (filter (\<lambda>c. JStr (rank c) = js_prop ps ''rank'') hand))"

text \<open>Template 8 (lines 103--109).\<close>

definition check_black_jack :: check_fn where
  "check_black_jack hand ps =
     js_some (\<lambda>c. if rank c = ''J'' then js_includes (js_prop ps ''blackSuits'') (JStr (suit c))
                  else Inr False) hand"

text \<open>Template 9 (lines 110--115).\<close>

definition check_red_queen :: check_fn where
  "check_red_queen hand ps = Inr (list_ex (\<lambda>c. rank c = ''Q'' \<and> (suit c = heart \<or> suit c = diamond)) hand)"

text \<open>Template 10 (lines 116--123): \<open>RANK_VALUES[rank] % 2 !== 0\<close>, true for \<open>NaN\<close>.\<close>

definition odd_ranks :: "string list" where
  "odd_ranks = filter (\<lambda>r. case RANK_VALUES r of Some v \<Rightarrow> v mod 2 \<noteq> 0 | None \<Rightarrow> True) RANKS"

definition check_odd :: check_fn where
  "check_odd hand ps =
     Inr (num_ge (int (length (filter (\<lambda>c. \<not> isJoker c \<and> rank c \<in> set odd_ranks) hand)))
                 (js_prop ps ''count''))"

section \<open>The catalogue\<close>

definition TASK_TEMPLATES :: "TaskTemplate list" where
  "TASK_TEMPLATES = [
     \<lparr>template = ''Find a Pair of Even Ranks'', params = None, check = check_even_pair\<rparr>,
     \<lparr>template = ''Find exactly {{count}} Heart cards'',
      params = Some [(''count'', JArr [JNum 3])], check = check_hearts\<rparr>,
     \<lparr>template = ''Find a Joker'', params = None, check = check_joker\<rparr>,
     \<lparr>template = ''Find a Royal Pair ({{royalRanks}})'',
      params = Some [(''royalRanks'', JArr (map JStr [''J'', ''Q'', ''K'', ''A'']))], check = check_royal\<rparr>,
     \<lparr>template = ''Find two cards that add up to {{sum}}'',
      params = Some [(''sum'', JArr [JNum 10, JNum 12, JNum 15, JNum 16])], check = check_sum\<rparr>,
     \<lparr>template = ''Find a Flush ({{count}} cards of the same suit)'',
      params = Some [(''count'', JArr [JNum 3, JNum 4])], check = check_flush\<rparr>,
     \<lparr>template = ''Find a pair of {{rank}}s'',
      params = Some [(''rank'', JArr (map JStr pair_ranks))], check = check_rank_pair\<rparr>,
     \<lparr>template = ''Find a Black Jack (a Jack of {{blackSuits}})'',
      params = Some [(''blackSuits'', JArr (map JStr [club, spade]))], check = check_black_jack\<rparr>,
     \<lparr>template = ''Find a Red Queen'', params = None, check = check_red_queen\<rparr>,
     \<lparr>template = ''Find {{count}} Odd numbered cards'',
      params = Some [(''count'', JArr [JNum 3])], check = check_odd\<rparr>]"

lemmas check_defs [model_simps] =
  check_even_pair_def check_hearts_def check_joker_def check_royal_def check_sum_def
  check_flush_def check_rank_pair_def check_black_jack_def check_red_queen_def check_odd_def

section \<open>Reference characterisations of the loops\<close>

text \<open>
  The nested loops of template 5 test exactly the pairs of positions \<open>i < j\<close>: a card is
  never paired with itself, and every later card is tried.
\<close>

lemma pair_sum_loop_iff:
  "pair_sum_loop cs s \<longleftrightarrow> (\<exists>i j. i < j \<and> j < length cs \<and> sum_hits (cs ! i) (cs ! j) s)"
proof (induction cs)
  case Nil
  then show ?case by simp
next
  case (Cons a cs)
  show ?case
  proof
    assume "pair_sum_loop (a # cs) s"
    then consider "list_ex (\<lambda>b. sum_hits a b s) cs" | "pair_sum_loop cs s" by auto
    then show "\<exists>i j. i < j \<and> j < length (a # cs) \<and> sum_hits ((a # cs) ! i) ((a # cs) ! j) s"
    proof cases
      case 1
      then obtain j where "j < length cs" "sum_hits a (cs ! j) s"
        by (auto simp: list_ex_iff in_set_conv_nth)
      then show ?thesis by (intro exI [of _ 0] exI [of _ "Suc j"]) simp
    next
      case 2
      then obtain i j where "i < j" "j < length cs" "sum_hits (cs ! i) (cs ! j) s"
        using Cons.IH by blast
      then show ?thesis by (intro exI [of _ "Suc i"] exI [of _ "Suc j"]) simp
    qed
  next
    assume "\<exists>i j. i < j \<and> j < length (a # cs) \<and> sum_hits ((a # cs) ! i) ((a # cs) ! j) s"
    then obtain i j where ij: "i < j" "j < length (a # cs)" "sum_hits ((a # cs) ! i) ((a # cs) ! j) s"
      by blast
    then obtain j' where j': "j = Suc j'" by (cases j) auto
    show "pair_sum_loop (a # cs) s"
    proof (cases i)
      case 0
      with ij j' have "list_ex (\<lambda>b. sum_hits a b s) cs"
        by (auto simp: list_ex_iff intro!: bexI [of _ "cs ! j'"])
      then show ?thesis by simp
    next
      case (Suc i')
      with ij j' have "pair_sum_loop cs s" using Cons.IH by auto
      then show ?thesis by simp
    qed
  qed
qed

text \<open>The number of non-jokers of suit \<open>s\<close> in a hand.\<close>

lemma map_of_count_suits:
  "map_of (count_suits cs m) s =
     (let k = length (filter (\<lambda>c. \<not> isJoker c \<and> suit c = s) cs) in
      if k = 0 then map_of m s else Some (case map_of m s of Some n \<Rightarrow> n + int k | None \<Rightarrow> int k))"
  by (induction cs arbitrary: m) (auto simp: update_conv' Let_def split: option.splits)

lemma set_snd_count_suits_empty:
  "set (map snd (count_suits cs [])) =
     {int (length (filter (\<lambda>c. \<not> isJoker c \<and> suit c = s) cs)) | s.
        0 < length (filter (\<lambda>c. \<not> isJoker c \<and> suit c = s) cs)}"
proof -
  have "distinct (map fst (count_suits cs m))" if "distinct (map fst m)" for m
    using that by (induction cs arbitrary: m) (auto simp: distinct_update)
  then have d: "distinct (map fst (count_suits cs []))" by simp
  have "set (map snd (count_suits cs [])) = ran (map_of (count_suits cs []))"
    using d by (simp add: ran_distinct)
  also have "\<dots> = {v. \<exists>s. map_of (count_suits cs []) s = Some v}"
    by (simp add: ran_def)
  finally show ?thesis
    by (auto simp: map_of_count_suits Let_def split: if_splits)
qed

section \<open>Properties of the checks\<close>

text \<open>
  C19: the sum check (template 5) holds exactly when two distinct positions \<open>i < j\<close> of
  the hand's non-jokers have rank values adding up to the \<open>sum\<close> parameter; the early
  return of the nested loops neither misses a pair nor pairs a card with itself.
\<close>

theorem check_sum_pairs:
  "check_sum hand ps =
     Inr (\<exists>i j. i < j \<and> j < length (filter (\<lambda>c. \<not> isJoker c) hand) \<and>
            sum_hits (filter (\<lambda>c. \<not> isJoker c) hand ! i) (filter (\<lambda>c. \<not> isJoker c) hand ! j)
                     (js_prop ps ''sum''))"
  by (simp add: check_sum_def pair_sum_loop_iff)

text \<open>
  C20: the flush check (template 6), which tallies the suits in an object and then scans
  its values, holds exactly when some suit has at least one and at least \<open>count\<close>
  non-joker cards in the hand.
\<close>

theorem check_flush_counts:
  "check_flush hand ps =
     Inr (\<exists>s. 0 < length (filter (\<lambda>c. \<not> isJoker c \<and> suit c = s) hand) \<and>
            num_ge (int (length (filter (\<lambda>c. \<not> isJoker c \<and> suit c = s) hand))) (js_prop ps ''count''))"
  unfolding check_flush_def list_ex_iff set_snd_count_suits_empty by blast

text \<open>
  C21: the even-rank pair check (template 1) is "at least two non-jokers of even rank";
  its leading \<open>some\<close> test is implied by the count and changes nothing.
\<close>

theorem check_even_pair_filter:
  "check_even_pair hand ps = Inr (2 \<le> length (filter (\<lambda>c. \<not> isJoker c \<and> rank c \<in> set even_ranks) hand))"
proof -
  have "2 \<le> length (filter P xs) \<Longrightarrow> list_ex P xs" for P and xs :: "CardType list"
    by (induction xs) (auto split: if_splits)
  then show ?thesis by (auto simp: check_even_pair_def)
qed

text \<open>
  The parameter domain of the rank-pair template (template 7) is the ranks 2 to 10
  and the Jack: the filter removes Q, K and A but keeps J, although its comment says it
  excludes the face cards.
\<close>

lemma pair_ranks_keep_jack:
  "pair_ranks = filter (\<lambda>r. r \<notin> {''Q'', ''K'', ''A''}) RANKS \<and> ''J'' \<in> set pair_ranks \<and> length pair_ranks = 10"
  by (simp add: pair_ranks_def model_simps)

text \<open>
  C22: given a single rank string as its \<open>royalRanks\<close> parameter (the value the
  resolution of line 183 stores), the royal-pair check (template 4) uses
  \<open>String.prototype.includes\<close>, a substring test: it counts the non-jokers whose rank
  occurs inside that string.
\<close>

theorem check_royal_scalar:
  "check_royal hand [(''royalRanks'', JStr r)] =
     Inr (2 \<le> length (filter (\<lambda>c. \<not> isJoker c \<and> sublist (rank c) r) hand))"
  by (simp add: check_royal_def if_bool_eq_disj image_iff cong: if_cong)

text \<open>
  C23: given the whole list of ranks as its parameter (the reading of the specification),
  the royal-pair check counts the non-jokers whose rank is a member of the list.
\<close>

theorem check_royal_list:
  "check_royal hand [(''royalRanks'', JArr (map JStr rs))] =
     Inr (2 \<le> length (filter (\<lambda>c. \<not> isJoker c \<and> rank c \<in> set rs) hand))"
  by (simp add: check_royal_def if_bool_eq_disj image_iff cong: if_cong)

text \<open>
  The examples of the specification for rules 3 (joker), 5 (sum), 6 (flush) and
  9 (red queen) evaluate as stated.
\<close>

theorem spec_rule_examples:
  "check_joker [plain_card heart ''2'', joker_card] [] = Inr True \<and>
   check_joker [plain_card heart ''2'', plain_card diamond ''3''] [] = Inr False \<and>
   check_sum [plain_card club ''6'', plain_card diamond ''4''] [(''sum'', JNum 10)] = Inr True \<and>
   check_sum [plain_card club ''6'', plain_card diamond ''6''] [(''sum'', JNum 10)] = Inr False \<and>
   check_sum [plain_card club ''6'', plain_card diamond ''6''] [(''sum'', JNum 12)] = Inr True \<and>
   check_flush [plain_card heart ''2'', plain_card heart ''5'', plain_card heart ''9'', plain_card club ''3'']
     [(''count'', JNum 3)] = Inr True \<and>
   check_flush [plain_card heart ''2'', plain_card heart ''5'', plain_card club ''3'', plain_card diamond ''4'']
     [(''count'', JNum 3)] = Inr False \<and>
   check_red_queen [plain_card diamond ''Q'', plain_card club ''5''] [] = Inr True \<and>
   check_red_queen [plain_card club ''Q'', plain_card diamond ''5''] [] = Inr False"
  by (simp add: model_simps sum_hits_def num_eq_def num_ge_def)

end
