(* ===== verification/Generate.thy ===== *)
theory Generate
  imports Tasks
begin

text \<open>
  Task generation in \<open>src/src/App.tsx\<close>: \<open>getRandomParamValue\<close> (lines 161--168) and
  the body of the timer callback of \<open>generateTask\<close> (lines 176--220), which draws a
  template, resolves each parameter by a random draw, substitutes it into the template
  text, applies the seven display special cases and builds the new current task. The
  callback may throw (a special case calls \<open>join\<close> on a string); then it returns the
  error and no task.
\<close>

section \<open>The current task\<close>

text \<open>
  The object held in the \<open>currentTask\<close> state (line 131): the text, the check function
  and the resolved parameters. Its fields \<open>text\<close> and \<open>params\<close> are called
  \<open>task_text\<close> and \<open>taskParams\<close> here: \<open>text\<close> is a keyword of Isabelle and
  \<open>params\<close> already names the field of \<open>TaskTemplate\<close>.
\<close>

record CurrentTask =
  task_text :: string
  checkFn :: check_fn
  taskParams :: TaskParams

section \<open>Resolving parameters\<close>

text \<open>
  An array yields the element at \<open>Math.floor(Math.random() * param.length)\<close>, which
  reads \<open>undefined\<close> out of range; any other value is returned as it is, without a
  call of \<open>Math.random\<close>.
\<close>

definition getRandomParamValue :: "jsval \<Rightarrow> rng \<Rightarrow> jsval \<times> rng" where
  "getRandomParamValue param rs =
     (case param of
        JArr xs \<Rightarrow> (let (r, rs') = math_random rs in (js_index xs (rand_index r (length xs)), rs'))
      | _ \<Rightarrow> (param, rs))"

text \<open>
  The \<open>for (const paramKey in templateItem.params)\<close> loop (lines 182--188): resolve the
  value, store it in \<open>taskParams\<close> and replace every \<open>{{paramKey}}\<close> in the text by
  \<open>String(randomValue)\<close>.
\<close>

definition placeholder :: "string \<Rightarrow> string" where
  "placeholder k = ''{{'' @ k @ ''}}''"

fun resolve_params :: "TaskParams \<Rightarrow> string \<Rightarrow> TaskParams \<Rightarrow> rng \<Rightarrow> string \<times> TaskParams \<times> rng" where
  "resolve_params [] taskText tps rs = (taskText, tps, rs)"
| "resolve_params ((paramKey, p) # ps) taskText tps rs =
     (let (randomValue, rs') = getRandomParamValue p rs
      in resolve_params ps (replace_all (placeholder paramKey) (js_to_string randomValue) taskText)
           (AList.update paramKey randomValue tps) rs')"

section \<open>The display special cases\<close>

text \<open>
  \<open>if (taskText.includes(needle) && taskParams[key])
     taskText = taskText.replace('{{key}}', taskParams[key].join(', '))\<close>:
  the argument \<open>join\<close> is evaluated first, and throws unless the value is an array.
\<close>

definition join_case :: "string \<Rightarrow> string \<Rightarrow> string \<Rightarrow> TaskParams \<Rightarrow> string js_result" where
  "join_case needle key taskText tps =
     (if sublist needle taskText \<and> js_truthy (js_prop tps key)
      then js_bind (js_join (js_prop tps key) '', '') (\<lambda>j. Inr (replace_first (placeholder key) j taskText))
      else Inr taskText)"

text \<open>The same with the value itself as replacement (converted by \<open>String\<close>).\<close>

definition scalar_case :: "string \<Rightarrow> string \<Rightarrow> string \<Rightarrow> TaskParams \<Rightarrow> string" where
  "scalar_case needle key taskText tps =
     (if sublist needle taskText \<and> js_truthy (js_prop tps key)
      then replace_first (placeholder key) (js_to_string (js_prop tps key)) taskText
      else taskText)"

text \<open>The seven cases of lines 192--212, in the source's order.\<close>

definition display_cases :: "string \<Rightarrow> TaskParams \<Rightarrow> string js_result" where
  "display_cases taskText tps =
     js_bind (join_case ''Royal Pair'' ''royalRanks'' taskText tps) (\<lambda>t1.
       let t2 = scalar_case ''Flush'' ''count'' t1 tps;
           t3 = scalar_case ''add up to'' ''sum'' t2 tps;
           t4 = scalar_case ''Odd numbered cards'' ''count'' t3 tps;
           t5 = scalar_case ''pair of'' ''rank'' t4 tps
       in js_bind (join_case ''Black Jack'' ''blackSuits'' t5 tps) (\<lambda>t6.
            Inr (scalar_case ''Heart cards'' ''count'' t6 tps)))"

section \<open>The timer callback of generateTask\<close>

text \<open>
  \<open>TASK_TEMPLATES[Math.floor(Math.random() * TASK_TEMPLATES.length)]\<close>; reading
  \<open>.template\<close> of an index out of range would throw.
\<close>

definition generateTask_timeout :: "rng \<Rightarrow> CurrentTask js_result \<times> rng" where
  "generateTask_timeout rs =
     (let (r, rs1) = math_random rs;
          idx = rand_index r (length TASK_TEMPLATES)
      in if idx < length TASK_TEMPLATES then
           (let templateItem = TASK_TEMPLATES ! idx;
                (taskText, tps, rs2) =
                  (case params templateItem of
                     None \<Rightarrow> (template templateItem, [], rs1)
                   | Some ps \<Rightarrow> resolve_params ps (template templateItem) [] rs1)
            in (js_bind (display_cases taskText tps)
                  (\<lambda>t. Inr \<lparr>task_text = t, checkFn = check templateItem, taskParams = tps\<rparr>), rs2))
         else (Inl (TypeError ''Cannot read properties of undefined''), rs1))"

section \<open>The rendering contract\<close>

text \<open>
  What a rendered task is made of (the specification's description of \<open>selectTask\<close>):
  the template text, or, for a template with one parameter, the template with every
  \<open>{{key}}\<close> replaced by the printed form of a value drawn from the parameter's
  array, that value being the resolved parameter.
\<close>

definition rendered_from :: "TaskTemplate \<Rightarrow> string \<Rightarrow> TaskParams \<Rightarrow> bool" where
  "rendered_from T tt tps \<longleftrightarrow>
     (params T = None \<and> tt = template T \<and> tps = []) \<or>
     (\<exists>key xs x. params T = Some [(key, JArr xs)] \<and> x \<in> set xs \<and>
        tt = replace_all (placeholder key) (js_to_string x) (template T) \<and> tps = [(key, x)])"

section \<open>Lemmas on generation\<close>

lemmas text_eval [model_simps] = sublist_code(3) placeholder_def js_truthy_def

lemma length_TASK_TEMPLATES [simp]: "length TASK_TEMPLATES = 10"
  by (simp add: TASK_TEMPLATES_def)

lemma generateTask_timeout_unfold:
  "generateTask_timeout rs =
     (let T = TASK_TEMPLATES ! rand_index (shd rs) 10 in
      if rand_index (shd rs) 10 < 10 then
        (case params T of
           None \<Rightarrow> (js_bind (display_cases (template T) [])
                    (\<lambda>t. Inr \<lparr>task_text = t, checkFn = check T, taskParams = []\<rparr>), stl rs)
         | Some ps \<Rightarrow> (case resolve_params ps (template T) [] (stl rs) of
              (tt, tps, rs2) \<Rightarrow> (js_bind (display_cases tt tps)
                  (\<lambda>t. Inr \<lparr>task_text = t, checkFn = check T, taskParams = tps\<rparr>), rs2)))
      else (Inl (TypeError ''Cannot read properties of undefined''), stl rs))"
  by (simp add: generateTask_timeout_def math_random_def Let_def split: option.split prod.split)

text \<open>A non-empty array yields one of its elements and consumes one random value.\<close>

lemma getRandomParamValue_arr:
  assumes "random_ok rs" "xs \<noteq> []"
  shows "\<exists>x \<in> set xs. getRandomParamValue (JArr xs) rs = (x, stl rs)"
proof -
  have "rand_index (shd rs) (length xs) < length xs"
    using assms by (intro rand_index_less) (auto dest: random_ok_shd)
  then show ?thesis
    by (auto simp: getRandomParamValue_def math_random_def js_index_def)
qed

text \<open>
  The outcome of the callback for a template without parameters, and for one with a
  single array-valued parameter: a property of the outcome follows from its holding for
  every element the draw may pick.
\<close>

lemma generate_no_param:
  assumes "rand_index (shd rs) 10 = k" "k < 10" "params (TASK_TEMPLATES ! k) = None"
  shows "generateTask_timeout rs =
           (js_bind (display_cases (template (TASK_TEMPLATES ! k)) [])
              (\<lambda>t. Inr \<lparr>task_text = t, checkFn = check (TASK_TEMPLATES ! k), taskParams = []\<rparr>), stl rs)"
  using assms by (simp add: generateTask_timeout_unfold Let_def)

lemma generate_one_param_eq:
  assumes "rand_index (shd rs) 10 = k" "k < 10" "params (TASK_TEMPLATES ! k) = Some [(key, JArr xs)]"
    and "getRandomParamValue (JArr xs) (stl rs) = (x, rs')"
  shows "generateTask_timeout rs =
           (js_bind (display_cases
              (replace_all (placeholder key) (js_to_string x) (template (TASK_TEMPLATES ! k))) [(key, x)])
            (\<lambda>t. Inr \<lparr>task_text = t, checkFn = check (TASK_TEMPLATES ! k), taskParams = [(key, x)]\<rparr>), rs')"
  using assms by (simp add: generateTask_timeout_unfold Let_def)

text \<open>Every template has no parameter, or one parameter whose value is a non-empty array.\<close>

lemma catalogue_params_shape:
  "T \<in> set TASK_TEMPLATES \<Longrightarrow> params T = Some ps \<Longrightarrow> \<exists>key xs. ps = [(key, JArr xs)] \<and> xs \<noteq> []"
  by (auto simp: TASK_TEMPLATES_def pair_ranks_def RANKS_def)

text \<open>
  Case analysis on the callback: a property of its outcome holds when it holds for every
  template without parameters, and for every template with a parameter and every element
  of that parameter's array. The template's index is passed along.
\<close>

lemma generate_cases:
  assumes "random_ok rs"
    and none: "\<And>k. k \<in> {0, 1, 2, 3, 4, 5, 6, 7, 8, 9} \<Longrightarrow> params (TASK_TEMPLATES ! k) = None \<Longrightarrow>
       P k (js_bind (display_cases (template (TASK_TEMPLATES ! k)) [])
              (\<lambda>t. Inr \<lparr>task_text = t, checkFn = check (TASK_TEMPLATES ! k), taskParams = []\<rparr>), stl rs)"
    and one: "\<And>k key xs. k \<in> {0, 1, 2, 3, 4, 5, 6, 7, 8, 9} \<Longrightarrow>
       Some [(key, JArr xs)] = params (TASK_TEMPLATES ! k) \<Longrightarrow> \<forall>x \<in> set xs.
       P k (js_bind (display_cases
              (replace_all (placeholder key) (js_to_string x) (template (TASK_TEMPLATES ! k))) [(key, x)])
            (\<lambda>t. Inr \<lparr>task_text = t, checkFn = check (TASK_TEMPLATES ! k), taskParams = [(key, x)]\<rparr>),
          stl (stl rs))"
  shows "P (rand_index (shd rs) 10) (generateTask_timeout rs)"
proof -
  obtain k where kdef: "rand_index (shd rs) 10 = k" by blast
  have "rand_index (shd rs) 10 < 10"
    using random_ok_shd [OF assms(1)] by (intro rand_index_less) simp_all
  with kdef have "k < 10" by simp
  then have k: "k \<in> {0, 1, 2, 3, 4, 5, 6, 7, 8, 9}" by auto
  show ?thesis
  proof (cases "params (TASK_TEMPLATES ! k)")
    case None
    show ?thesis
      unfolding kdef generate_no_param [OF kdef \<open>k < 10\<close> None] by (rule none [OF k None])
  next
    case (Some ps)
    have "TASK_TEMPLATES ! k \<in> set TASK_TEMPLATES"
      using \<open>k < 10\<close> by (intro nth_mem) simp
    from catalogue_params_shape [OF this Some] obtain key xs
      where "ps = [(key, JArr xs)]" and "xs \<noteq> []" by blast
    with Some have ps: "params (TASK_TEMPLATES ! k) = Some [(key, JArr xs)]" "xs \<noteq> []" by simp_all
    obtain x where "x \<in> set xs" and x: "getRandomParamValue (JArr xs) (stl rs) = (x, stl (stl rs))"
      using getRandomParamValue_arr [of "stl rs" xs] assms(1) ps(2) by (auto simp: random_ok_stl)
    show ?thesis
      unfolding kdef generate_one_param_eq [OF kdef \<open>k < 10\<close> ps(1) x]
      using one [OF k ps(1) [symmetric]] \<open>x \<in> set xs\<close> by blast
  qed
qed

text \<open>
  The display special cases on the text that the parameter loop leaves: they change
  nothing for the eight templates other than Royal Pair (index 3) and Black Jack (index 7),
  and throw for those two, whatever value was drawn.
\<close>

lemma display_cases_plain:
  "k \<in> {0, 1, 2, 3, 4, 5, 6, 7, 8, 9} \<Longrightarrow> params (TASK_TEMPLATES ! k) = None \<Longrightarrow>
   k \<in> {0, 2, 8} \<and> display_cases (template (TASK_TEMPLATES ! k)) [] = Inr (template (TASK_TEMPLATES ! k))"
  by (elim insertE emptyE; simp add: TASK_TEMPLATES_def display_cases_def join_case_def scalar_case_def model_simps)

lemma display_cases_noop:
  "k \<in> {1, 4, 5, 6, 9} \<Longrightarrow> Some [(key, JArr xs)] = params (TASK_TEMPLATES ! k) \<Longrightarrow>
   \<forall>x \<in> set xs. display_cases (replace_all (placeholder key) (js_to_string x) (template (TASK_TEMPLATES ! k))) [(key, x)] =
     Inr (replace_all (placeholder key) (js_to_string x) (template (TASK_TEMPLATES ! k)))"
  by (elim insertE emptyE; simp add: TASK_TEMPLATES_def display_cases_def join_case_def scalar_case_def
                   pair_ranks_def model_simps int_to_string_def nat_digits.simps)

lemma display_cases_throws:
  "k \<in> {3, 7} \<Longrightarrow> Some [(key, JArr xs)] = params (TASK_TEMPLATES ! k) \<Longrightarrow>
   \<forall>x \<in> set xs. isl (display_cases (replace_all (placeholder key) (js_to_string x) (template (TASK_TEMPLATES ! k))) [(key, x)])"
  by (elim insertE emptyE; simp add: TASK_TEMPLATES_def display_cases_def join_case_def scalar_case_def
                   model_simps js_join_def)

lemma params_Some_index:
  "k \<in> {0, 1, 2, 3, 4, 5, 6, 7, 8, 9} \<Longrightarrow> Some ps = params (TASK_TEMPLATES ! k) \<Longrightarrow> k \<in> {1, 3, 4, 5, 6, 7, 9}"
  by (elim insertE emptyE; simp add: TASK_TEMPLATES_def)

text \<open>What the callback returns on each branch.\<close>

lemma generate_error_cases:
  assumes "random_ok rs" "rand_index (shd rs) 10 \<in> {3, 7}"
  shows "isl (fst (generateTask_timeout rs))"
  using assms(1)
proof (rule generate_cases [where P = "\<lambda>k r. k \<in> {3, 7} \<longrightarrow> isl (fst r)", THEN mp, OF _ _ _ assms(2)])
  fix k
  assume k: "k \<in> {0, 1, 2, 3, 4, 5, 6, 7, 8, 9}" and n: "params (TASK_TEMPLATES ! k) = None"
  from display_cases_plain [OF k n] have "k \<notin> {3, 7}" by auto
  then show "k \<in> {3, 7} \<longrightarrow> isl (fst (js_bind (display_cases (template (TASK_TEMPLATES ! k)) [])
              (\<lambda>t. Inr \<lparr>task_text = t, checkFn = check (TASK_TEMPLATES ! k), taskParams = []\<rparr>), stl rs))"
    by blast
next
  fix k key xs
  assume p: "Some [(key, JArr xs)] = params (TASK_TEMPLATES ! k)"
  show "\<forall>x \<in> set xs. k \<in> {3, 7} \<longrightarrow> isl (fst (js_bind (display_cases
              (replace_all (placeholder key) (js_to_string x) (template (TASK_TEMPLATES ! k))) [(key, x)])
            (\<lambda>t. Inr \<lparr>task_text = t, checkFn = check (TASK_TEMPLATES ! k), taskParams = [(key, x)]\<rparr>),
          stl (stl rs)))"
  proof (intro ballI impI)
    fix x
    assume "x \<in> set xs" "k \<in> {3, 7}"
    with display_cases_throws [OF _ p] have
      "isl (display_cases (replace_all (placeholder key) (js_to_string x) (template (TASK_TEMPLATES ! k))) [(key, x)])"
      by blast
    then show "isl (fst (js_bind (display_cases
              (replace_all (placeholder key) (js_to_string x) (template (TASK_TEMPLATES ! k))) [(key, x)])
            (\<lambda>t. Inr \<lparr>task_text = t, checkFn = check (TASK_TEMPLATES ! k), taskParams = [(key, x)]\<rparr>),
          stl (stl rs)))"
      unfolding fst_conv by (rule js_bind_isl)
  qed
qed


lemma generate_success_cases:
  assumes "random_ok rs" "rand_index (shd rs) 10 \<notin> {3, 7}"
  shows "\<exists>tt tps. fst (generateTask_timeout rs) =
            Inr \<lparr>task_text = tt, checkFn = check (TASK_TEMPLATES ! rand_index (shd rs) 10), taskParams = tps\<rparr> \<and>
          rendered_from (TASK_TEMPLATES ! rand_index (shd rs) 10) tt tps"
  using assms(1)
proof (rule generate_cases [where P = "\<lambda>k r. k \<notin> {3, 7} \<longrightarrow> (\<exists>tt tps. fst r =
            Inr \<lparr>task_text = tt, checkFn = check (TASK_TEMPLATES ! k), taskParams = tps\<rparr> \<and>
          rendered_from (TASK_TEMPLATES ! k) tt tps)", THEN mp, OF _ _ _ assms(2)])
  fix k
  assume k: "k \<in> {0, 1, 2, 3, 4, 5, 6, 7, 8, 9}" and n: "params (TASK_TEMPLATES ! k) = None"
  with display_cases_plain [OF k n] show "k \<notin> {3, 7} \<longrightarrow> (\<exists>tt tps. fst (js_bind (display_cases (template (TASK_TEMPLATES ! k)) [])
              (\<lambda>t. Inr \<lparr>task_text = t, checkFn = check (TASK_TEMPLATES ! k), taskParams = []\<rparr>), stl rs) =
            Inr \<lparr>task_text = tt, checkFn = check (TASK_TEMPLATES ! k), taskParams = tps\<rparr> \<and>
          rendered_from (TASK_TEMPLATES ! k) tt tps)"
    by (simp add: rendered_from_def)
next
  fix k key xs
  assume k: "k \<in> {0, 1, 2, 3, 4, 5, 6, 7, 8, 9}" and p: "Some [(key, JArr xs)] = params (TASK_TEMPLATES ! k)"
  have "k \<notin> {3, 7} \<Longrightarrow> k \<in> {1, 4, 5, 6, 9}"
    using params_Some_index [OF k p] by blast
  then show "\<forall>x \<in> set xs. k \<notin> {3, 7} \<longrightarrow> (\<exists>tt tps. fst (js_bind (display_cases
              (replace_all (placeholder key) (js_to_string x) (template (TASK_TEMPLATES ! k))) [(key, x)])
            (\<lambda>t. Inr \<lparr>task_text = t, checkFn = check (TASK_TEMPLATES ! k), taskParams = [(key, x)]\<rparr>),
          stl (stl rs)) =
            Inr \<lparr>task_text = tt, checkFn = check (TASK_TEMPLATES ! k), taskParams = tps\<rparr> \<and>
          rendered_from (TASK_TEMPLATES ! k) tt tps)"
    using display_cases_noop [OF _ p] p [symmetric] by (fastforce simp: rendered_from_def)
qed

text \<open>A task the callback returns comes from a template other than 3 and 7, and is rendered.\<close>

lemma generate_Inr:
  assumes "random_ok rs" "fst (generateTask_timeout rs) = Inr t"
  shows "rand_index (shd rs) 10 \<notin> {3, 7} \<and> checkFn t = check (TASK_TEMPLATES ! rand_index (shd rs) 10) \<and>
         rendered_from (TASK_TEMPLATES ! rand_index (shd rs) 10) (task_text t) (taskParams t)"
proof -
  have n: "rand_index (shd rs) 10 \<notin> {3, 7}"
    using generate_error_cases [OF assms(1)] assms(2) by auto
  then obtain tt tps where "fst (generateTask_timeout rs) =
      Inr \<lparr>task_text = tt, checkFn = check (TASK_TEMPLATES ! rand_index (shd rs) 10), taskParams = tps\<rparr>"
    and "rendered_from (TASK_TEMPLATES ! rand_index (shd rs) 10) tt tps"
    using generate_success_cases [OF assms(1)] by blast
  with n assms(2) show ?thesis by auto
qed

text \<open>The same, with the index named as one of the eight templates that do not throw.\<close>

lemma generate_Inr_catalogue:
  assumes "random_ok rs" "fst (generateTask_timeout rs) = Inr t"
  shows "rand_index (shd rs) 10 \<in> {0, 1, 2, 4, 5, 6, 8, 9} \<and>
         checkFn t = check (TASK_TEMPLATES ! rand_index (shd rs) 10) \<and>
         rendered_from (TASK_TEMPLATES ! rand_index (shd rs) 10) (task_text t) (taskParams t)"
proof -
  have "rand_index (shd rs) 10 < 10"
    using random_ok_shd [OF assms(1)] by (intro rand_index_less) simp_all
  with generate_Inr [OF assms] show ?thesis by auto
qed

text \<open>No rendered text of a template other than 3 and 7 keeps a \<open>{{\<close>.\<close>

lemma rendered_no_placeholder:
  "k \<in> {0, 1, 2, 4, 5, 6, 8, 9} \<Longrightarrow> rendered_from (TASK_TEMPLATES ! k) tt tps \<Longrightarrow> \<not> sublist ''{{'' tt"
proof -
  have none: "params (TASK_TEMPLATES ! k) = None \<Longrightarrow> \<not> sublist ''{{'' (template (TASK_TEMPLATES ! k))"
    if "k \<in> {0, 1, 2, 4, 5, 6, 8, 9}" for k
    using that by (elim insertE emptyE; simp add: TASK_TEMPLATES_def model_simps)
  have one: "Some [(key, JArr xs)] = params (TASK_TEMPLATES ! k) \<Longrightarrow>
      \<forall>x \<in> set xs. \<not> sublist ''{{'' (replace_all (placeholder key) (js_to_string x) (template (TASK_TEMPLATES ! k)))"
    if "k \<in> {0, 1, 2, 4, 5, 6, 8, 9}" for k key xs
    using that by (elim insertE emptyE; simp add: TASK_TEMPLATES_def pair_ranks_def model_simps
                                                 int_to_string_def nat_digits.simps)
  assume "k \<in> {0, 1, 2, 4, 5, 6, 8, 9}" "rendered_from (TASK_TEMPLATES ! k) tt tps"
  then show ?thesis
    unfolding rendered_from_def using none one by (metis (no_types, lifting))
qed

lemma generate_rng:
  assumes "random_ok rs"
  shows "random_ok (snd (generateTask_timeout rs))"
  using assms
proof (rule generate_cases [where P = "\<lambda>k r. random_ok (snd r)"])
  show "random_ok (snd (js_bind (display_cases (template (TASK_TEMPLATES ! k)) [])
          (\<lambda>t. Inr \<lparr>task_text = t, checkFn = check (TASK_TEMPLATES ! k), taskParams = []\<rparr>), stl rs))" for k
    using assms by (simp add: random_ok_stl)
  show "\<forall>x \<in> set xs. random_ok (snd (js_bind (display_cases
              (replace_all (placeholder key) (js_to_string x) (template (TASK_TEMPLATES ! k))) [(key, x)])
            (\<lambda>t. Inr \<lparr>task_text = t, checkFn = check (TASK_TEMPLATES ! k), taskParams = [(key, x)]\<rparr>),
          stl (stl rs)))" for k key xs
    using assms by (simp add: random_ok_stl)
qed

text \<open>Two concrete runs: template 1 (Hearts, count 3), and template 3 (Royal Pair).\<close>

lemma generate_hearts_run_tail:
  "generateTask_timeout ((1/10) ## 0 ## rest) =
     (Inr \<lparr>task_text = ''Find exactly 3 Heart cards'', checkFn = check_hearts, taskParams = [(''count'', JNum 3)]\<rparr>,
      rest)"
proof -
  have "rand_index (shd ((1/10) ## 0 ## rest)) 10 = 1" by (simp add: rand_index_def)
  moreover have "TASK_TEMPLATES ! 1 = \<lparr>template = ''Find exactly {{count}} Heart cards'',
      params = Some [(''count'', JArr [JNum 3])], check = check_hearts\<rparr>"
    by (simp add: TASK_TEMPLATES_def)
  moreover have "getRandomParamValue (JArr [JNum 3]) (stl ((1/10) ## 0 ## rest)) = (JNum 3, rest)"
    by (simp add: getRandomParamValue_def math_random_def js_index_def rand_index_def)
  ultimately have "generateTask_timeout ((1/10) ## 0 ## rest) =
      (js_bind (display_cases (replace_all (placeholder ''count'') (js_to_string (JNum 3))
          ''Find exactly {{count}} Heart cards'') [(''count'', JNum 3)])
        (\<lambda>t. Inr \<lparr>task_text = t, checkFn = check_hearts, taskParams = [(''count'', JNum 3)]\<rparr>), rest)"
    by (simp add: generate_one_param_eq)
  then show ?thesis
    by (simp add: display_cases_def join_case_def scalar_case_def model_simps int_to_string_def nat_digits.simps)
qed

lemma generate_hearts_run:
  "fst (generateTask_timeout ((1/10) ## 0 ## sconst 0)) =
     Inr \<lparr>task_text = ''Find exactly 3 Heart cards'', checkFn = check_hearts, taskParams = [(''count'', JNum 3)]\<rparr>"
  by (simp add: generate_hearts_run_tail)

lemma generate_royal_run: "isl (fst (generateTask_timeout ((3/10) ## sconst 0)))"
  by (rule generate_error_cases) (simp_all add: rng_simps rand_index_def)

section \<open>Properties of task generation\<close>

text \<open>
  C3: the timer callback of \<open>generateTask\<close> throws exactly when it draws the Royal Pair
  template (index 3) or the Black Jack template (index 7): their parameter is resolved to
  one string by \<open>getRandomParamValue\<close>, and the display special case then calls
  \<open>join\<close> on that string. Every other draw yields a task.
\<close>

theorem generate_throws_iff:
  "random_ok rs \<Longrightarrow> isl (fst (generateTask_timeout rs)) \<longleftrightarrow> rand_index (shd rs) 10 \<in> {3, 7}"
proof
  assume ok: "random_ok rs"
  show "isl (fst (generateTask_timeout rs))" if "rand_index (shd rs) 10 \<in> {3, 7}"
    using ok that by (rule generate_error_cases)
  show "rand_index (shd rs) 10 \<in> {3, 7}" if "isl (fst (generateTask_timeout rs))"
  proof (rule ccontr)
    assume "rand_index (shd rs) 10 \<notin> {3, 7}"
    with generate_success_cases [OF ok] that show False by auto
  qed
qed

theorem generate_throws_iff_witness:
  "random_ok ((3/10) ## sconst 0) \<and>
   (isl (fst (generateTask_timeout ((3/10) ## sconst 0))) \<longleftrightarrow> rand_index (shd ((3/10) ## sconst 0)) 10 \<in> {3, 7})"
proof -
  have ok: "random_ok ((3/10) ## sconst (0::real))" by (simp add: rng_simps)
  show ?thesis using ok generate_throws_iff [OF ok] by simp
qed

text \<open>
  C4: a task the callback does return is the drawn template rendered: its check is the
  template's \<open>check\<close>, its text is the template's text with \<open>{{key}}\<close> replaced by the
  printed value drawn from the parameter's array (that value being the task's only
  parameter), and no placeholder \<open>{{\<close> is left in the text.
\<close>

theorem generate_task_rendered:
  assumes "random_ok rs" "fst (generateTask_timeout rs) = Inr t"
  shows "checkFn t = check (TASK_TEMPLATES ! rand_index (shd rs) 10) \<and>
         rendered_from (TASK_TEMPLATES ! rand_index (shd rs) 10) (task_text t) (taskParams t) \<and>
         \<not> sublist ''{{'' (task_text t)"
proof -
  have k: "rand_index (shd rs) 10 < 10"
    using random_ok_shd [OF assms(1)] by (intro rand_index_less) simp_all
  have g: "rand_index (shd rs) 10 \<notin> {3, 7} \<and> checkFn t = check (TASK_TEMPLATES ! rand_index (shd rs) 10) \<and>
      rendered_from (TASK_TEMPLATES ! rand_index (shd rs) 10) (task_text t) (taskParams t)"
    by (rule generate_Inr [OF assms])
  with k have "rand_index (shd rs) 10 \<in> {0, 1, 2, 4, 5, 6, 8, 9}" by auto
  with g show ?thesis using rendered_no_placeholder by blast
qed

theorem generate_task_rendered_witness:
  "random_ok ((1/10) ## 0 ## sconst 0) \<and>
   fst (generateTask_timeout ((1/10) ## 0 ## sconst 0)) =
     Inr \<lparr>task_text = ''Find exactly 3 Heart cards'', checkFn = check_hearts, taskParams = [(''count'', JNum 3)]\<rparr> \<and>
   check_hearts = check (TASK_TEMPLATES ! rand_index (shd ((1/10) ## 0 ## sconst 0)) 10) \<and>
   rendered_from (TASK_TEMPLATES ! rand_index (shd ((1/10) ## 0 ## sconst 0)) 10)
     ''Find exactly 3 Heart cards'' [(''count'', JNum 3)] \<and>
   \<not> sublist ''{{'' ''Find exactly 3 Heart cards''"
proof -
  have ok: "random_ok ((1/10) ## 0 ## sconst (0::real))" by (simp add: rng_simps)
  show ?thesis
    using ok generate_hearts_run generate_task_rendered [OF ok generate_hearts_run] by simp
qed

end
