(* ===== verification/App.thy ===== *)
theory App
  imports Shuffle Generate
begin

text \<open>
  The \<open>App\<close> component of \<open>src/src/App.tsx\<close> (lines 129--245) as a state machine. Its
  state is the three \<open>useState\<close> hooks (\<open>hand\<close>, \<open>currentTask\<close>, \<open>isShuffling\<close>),
  the timers that \<open>setTimeout\<close> has scheduled and not yet run, and the state of
  \<open>Math.random\<close>. A step is a click on an enabled button or the run of one pending
  timer; the buttons carry \<open>disabled={isShuffling}\<close> (lines 255 and 280), so a click
  happens only when \<open>isShuffling\<close> is false. A timer whose callback throws leaves the
  state as the throw found it: the uncaught exception ends the callback, and React keeps
  the state set so far.
\<close>

section \<open>State\<close>

datatype pending = GenerateTaskTimer | DealHandTimer

record AppState =
  hand :: "CardType list"
  currentTask :: CurrentTask
  isShuffling :: bool
  timers :: "pending list"
  random :: rng

text \<open>The initial task of line 131: its check function returns \<open>false\<close>.\<close>

definition initialTask :: CurrentTask where
  "initialTask = \<lparr>task_text = ''Click 'New Mission' to start!'', checkFn = (\<lambda>_ _. Inr False), taskParams = []\<rparr>"

definition init_state :: "rng \<Rightarrow> AppState" where
  "init_state rs = \<lparr>hand = [], currentTask = initialTask, isShuffling = False, timers = [], random = rs\<rparr>"

section \<open>Handlers\<close>

text \<open>\<open>generateTask\<close> (lines 171--175): set \<open>isShuffling\<close>, clear the hand, schedule the timer.\<close>

definition generateTask :: "AppState \<Rightarrow> AppState" where
  "generateTask s = s\<lparr>isShuffling := True, hand := [], timers := timers s @ [GenerateTaskTimer]\<rparr>"

text \<open>Its timer (lines 176--221): on success store the task and clear \<open>isShuffling\<close>.\<close>

definition generateTask_fire :: "AppState \<Rightarrow> AppState" where
  "generateTask_fire s =
     (case generateTask_timeout (random s) of
        (Inl e, rs') \<Rightarrow> s\<lparr>random := rs'\<rparr>
      | (Inr t, rs') \<Rightarrow> s\<lparr>currentTask := t, isShuffling := False, random := rs'\<rparr>)"

text \<open>\<open>dealHand\<close> (lines 226--230) and its timer (lines 231--235).\<close>

definition dealHand :: "AppState \<Rightarrow> AppState" where
  "dealHand s = s\<lparr>isShuffling := True, hand := [], timers := timers s @ [DealHandTimer]\<rparr>"

definition dealHand_fire :: "AppState \<Rightarrow> AppState" where
  "dealHand_fire s =
     (case deal_cards (random s) of (newHand, rs') \<Rightarrow> s\<lparr>hand := newHand, isShuffling := False, random := rs'\<rparr>)"

text \<open>
  \<open>checkHandForTask\<close> (lines 240--243). \<open>!currentTask.checkFn\<close> is always false (a
  function is truthy), so only the empty hand short-circuits.
\<close>

definition checkHandForTask :: "AppState \<Rightarrow> bool js_result" where
  "checkHandForTask s =
     (if hand s = [] then Inr False else checkFn (currentTask s) (hand s) (taskParams (currentTask s)))"

section \<open>The event loop\<close>

inductive app_step :: "AppState \<Rightarrow> AppState \<Rightarrow> bool" where
  click_new_mission: "\<not> isShuffling s \<Longrightarrow> app_step s (generateTask s)"
| click_deal: "\<not> isShuffling s \<Longrightarrow> app_step s (dealHand s)"
| fire_generate: "GenerateTaskTimer \<in> set (timers s) \<Longrightarrow>
    app_step s (generateTask_fire (s\<lparr>timers := remove1 GenerateTaskTimer (timers s)\<rparr>))"
| fire_deal: "DealHandTimer \<in> set (timers s) \<Longrightarrow>
    app_step s (dealHand_fire (s\<lparr>timers := remove1 DealHandTimer (timers s)\<rparr>))"

inductive reachable :: "AppState \<Rightarrow> bool" where
  start: "random_ok rs \<Longrightarrow> reachable (init_state rs)"
| step: "reachable s \<Longrightarrow> app_step s t \<Longrightarrow> reachable t"

section \<open>The invariant\<close>

text \<open>
  The current task is the initial one, or a rendered template other than Royal Pair and
  Black Jack.
\<close>

definition task_ok :: "CurrentTask \<Rightarrow> bool" where
  "task_ok t \<longleftrightarrow> t = initialTask \<or>
     (\<exists>k \<in> {0, 1, 2, 4, 5, 6, 8, 9}. checkFn t = check (TASK_TEMPLATES ! k) \<and>
        rendered_from (TASK_TEMPLATES ! k) (task_text t) (taskParams t))"

definition app_inv :: "AppState \<Rightarrow> bool" where
  "app_inv s \<longleftrightarrow>
     random_ok (random s) \<and>
     length (timers s) \<le> 1 \<and>
     (timers s \<noteq> [] \<longrightarrow> isShuffling s) \<and>
     (isShuffling s \<longrightarrow> hand s = []) \<and>
     (hand s \<noteq> [] \<longrightarrow> 2 \<le> length (hand s) \<and> length (hand s) \<le> 5 \<and> mset (hand s) \<subseteq># mset getFreshDeck) \<and>
     task_ok (currentTask s)"

section \<open>Lemmas on the state machine\<close>

inductive_cases app_stepE: "app_step s t"

lemma app_inv_init: "random_ok rs \<Longrightarrow> app_inv (init_state rs)"
  by (simp add: app_inv_def init_state_def task_ok_def)

lemma timers_single:
  "app_inv s \<Longrightarrow> p \<in> set (timers s) \<Longrightarrow> timers s = [p]"
  by (cases "timers s") (auto simp: app_inv_def)

lemma generateTask_fire_inv:
  assumes "app_inv s" "GenerateTaskTimer \<in> set (timers s)"
  shows "app_inv (generateTask_fire (s\<lparr>timers := remove1 GenerateTaskTimer (timers s)\<rparr>))"
proof -
  have ts: "timers s = [GenerateTaskTimer]" and sh: "isShuffling s" and h: "hand s = []"
    and ok: "random_ok (random s)"
    using timers_single [OF assms] assms by (auto simp: app_inv_def)
  have rng: "random_ok (snd (generateTask_timeout (random s)))"
    using ok by (rule generate_rng)
  show ?thesis
  proof (cases "fst (generateTask_timeout (random s))")
    case (Inl e)
    then show ?thesis
      using assms(1) ts sh h rng
      by (auto simp: generateTask_fire_def app_inv_def split: prod.splits)
  next
    case (Inr t)
    have g: "rand_index (shd (random s)) 10 \<in> {0, 1, 2, 4, 5, 6, 8, 9} \<and>
        checkFn t = check (TASK_TEMPLATES ! rand_index (shd (random s)) 10) \<and>
        rendered_from (TASK_TEMPLATES ! rand_index (shd (random s)) 10) (task_text t) (taskParams t)"
      by (rule generate_Inr_catalogue [OF ok Inr])
    then have "task_ok t" unfolding task_ok_def by blast
    then show ?thesis
      using assms(1) ts h rng Inr
      by (auto simp: generateTask_fire_def app_inv_def split: prod.splits)
  qed
qed

lemma dealHand_fire_inv:
  assumes "app_inv s" "DealHandTimer \<in> set (timers s)"
  shows "app_inv (dealHand_fire (s\<lparr>timers := remove1 DealHandTimer (timers s)\<rparr>))"
proof -
  have ts: "timers s = [DealHandTimer]" and ok: "random_ok (random s)"
    using timers_single [OF assms] assms by (auto simp: app_inv_def)
  then show ?thesis
    using assms(1) length_deal_cards [OF ok] mset_deal_cards [OF ok] deal_cards_rng [OF ok]
    by (auto simp: dealHand_fire_def app_inv_def split: prod.splits)
qed

lemma app_step_inv: "app_step s t \<Longrightarrow> app_inv s \<Longrightarrow> app_inv t"
proof (induction rule: app_step.induct)
  case (click_new_mission s)
  then show ?case by (cases "timers s") (auto simp: app_inv_def generateTask_def)
next
  case (click_deal s)
  then show ?case by (cases "timers s") (auto simp: app_inv_def dealHand_def)
next
  case (fire_generate s)
  then show ?case by (simp add: generateTask_fire_inv)
next
  case (fire_deal s)
  then show ?case by (simp add: dealHand_fire_inv)
qed

lemma reachable_app_inv: "reachable s \<Longrightarrow> app_inv s"
  by (induction rule: reachable.induct) (auto intro: app_inv_init app_step_inv)

text \<open>A state that is shuffling and has no pending timer has no step at all.\<close>

lemma stuck_state: "isShuffling s \<Longrightarrow> timers s = [] \<Longrightarrow> \<not> app_step s t"
  by (auto elim: app_stepE)

text \<open>After a click, the only step is the run of the timer the click scheduled.\<close>

lemma after_click_mission:
  assumes "app_inv s" "\<not> isShuffling s" "app_step (generateTask s) u"
  shows "u = generateTask_fire ((generateTask s)\<lparr>timers := []\<rparr>)"
proof -
  have "timers s = []" using assms(1,2) by (auto simp: app_inv_def)
  with assms(3) show ?thesis by (auto simp: generateTask_def elim: app_stepE)
qed

lemma after_click_deal:
  assumes "app_inv s" "\<not> isShuffling s" "app_step (dealHand s) u"
  shows "u = dealHand_fire ((dealHand s)\<lparr>timers := []\<rparr>)"
proof -
  have "timers s = []" using assms(1,2) by (auto simp: app_inv_def)
  with assms(3) show ?thesis by (auto simp: dealHand_def elim: app_stepE)
qed

lemma generateTask_fire_shuffling:
  "isShuffling s \<Longrightarrow> random_ok (random s) \<Longrightarrow>
   isShuffling (generateTask_fire s) \<longleftrightarrow> rand_index (shd (random s)) 10 \<in> {3, 7}"
proof -
  assume sh: "isShuffling s" and ok: "random_ok (random s)"
  show ?thesis
  proof (cases "rand_index (shd (random s)) 10 \<in> {3, 7}")
    case True
    then have "isl (fst (generateTask_timeout (random s)))" using ok by (intro generate_error_cases)
    with sh True show ?thesis
      by (auto simp: generateTask_fire_def split: prod.splits sum.splits)
  next
    case False
    then show ?thesis using generate_success_cases [OF ok False]
      by (auto simp: generateTask_fire_def split: prod.splits)
  qed
qed

text \<open>No check of a task in the invariant throws.\<close>

lemma task_ok_total: "task_ok t \<Longrightarrow> \<exists>b. checkFn t h (taskParams t) = Inr b"
proof -
  have "\<exists>b. check (TASK_TEMPLATES ! k) h ps = Inr b" if "k \<in> {0, 1, 2, 4, 5, 6, 8, 9}" for k ps
    using that by (elim insertE emptyE; simp add: TASK_TEMPLATES_def check_defs)
  then show "task_ok t \<Longrightarrow> ?thesis" by (auto simp: task_ok_def initialTask_def)
qed

lemma generateTask_fire_timers [simp]: "timers (generateTask_fire s) = timers s"
  by (simp add: generateTask_fire_def split: prod.splits sum.splits)

lemma dealHand_fire_fields [simp]:
  "timers (dealHand_fire s) = timers s" "\<not> isShuffling (dealHand_fire s)"
  "currentTask (dealHand_fire s) = currentTask s" "hand (dealHand_fire s) = fst (deal_cards (random s))"
  by (simp_all add: dealHand_fire_def split: prod.splits)

lemma click_fire_step:
  "\<not> isShuffling s \<Longrightarrow> timers s = [] \<Longrightarrow>
   app_step (generateTask s) (generateTask_fire ((generateTask s)\<lparr>timers := []\<rparr>))"
  using app_step.fire_generate [of "generateTask s"] by (simp add: generateTask_def)

lemma click_deal_step:
  "\<not> isShuffling s \<Longrightarrow> timers s = [] \<Longrightarrow>
   app_step (dealHand s) (dealHand_fire ((dealHand s)\<lparr>timers := []\<rparr>))"
  using app_step.fire_deal [of "dealHand s"] by (simp add: dealHand_def)

lemma reachable_init_click:
  "random_ok rs \<Longrightarrow> reachable (generateTask (init_state rs))"
  using reachable.step [OF reachable.start app_step.click_new_mission] by (simp add: init_state_def)

lemma idle_timers: "app_inv s \<Longrightarrow> \<not> isShuffling s \<Longrightarrow> timers s = []"
  by (auto simp: app_inv_def)

text \<open>
  The run behind the lock: from the initial state, "New Mission" and its timer with the
  first draw \<open>3/10\<close>, which selects the Royal Pair template.
\<close>

lemma royal_lock_state:
  "reachable (generateTask_fire ((generateTask (init_state ((3/10) ## sconst 0)))\<lparr>timers := []\<rparr>)) \<and>
   isShuffling (generateTask_fire ((generateTask (init_state ((3/10) ## sconst 0)))\<lparr>timers := []\<rparr>)) \<and>
   timers (generateTask_fire ((generateTask (init_state ((3/10) ## sconst 0)))\<lparr>timers := []\<rparr>)) = []"
proof -
  define rs :: rng where "rs = (3/10) ## sconst 0"
  define s1 where "s1 = generateTask (init_state rs)"
  define s2 where "s2 = generateTask_fire (s1\<lparr>timers := []\<rparr>)"
  have ok: "random_ok rs" by (simp add: rs_def rng_simps)
  have "reachable s1" unfolding s1_def using ok by (rule reachable_init_click)
  moreover have "app_step s1 s2"
    unfolding s1_def s2_def by (rule click_fire_step) (simp_all add: init_state_def)
  ultimately have r: "reachable s2" by (rule reachable.step)
  have "rand_index (shd rs) 10 = 3" by (simp add: rs_def rand_index_def)
  then have sh: "isShuffling s2"
    using generateTask_fire_shuffling [of "s1\<lparr>timers := []\<rparr>"] ok
    by (simp add: s2_def s1_def generateTask_def init_state_def)
  have "timers s2 = []" by (simp add: s2_def)
  with r sh show ?thesis by (simp add: s2_def s1_def rs_def)
qed

section \<open>Properties of the application\<close>

text \<open>
  C1: the application can lock up for good. From the initial state, a click on "New
  Mission" whose first \<open>Math.random\<close> draw selects the Royal Pair template reaches a
  state in which \<open>isShuffling\<close> is true, so both buttons are disabled, and no timer is
  pending: no event changes the state again.
\<close>

theorem mission_lock_reachable: "\<exists>s. reachable s \<and> isShuffling s \<and> (\<forall>t. \<not> app_step s t)"
  using royal_lock_state stuck_state by blast

text \<open>
  C2: from any reachable idle state, a click on "New Mission" is followed by exactly one
  event, the run of its timer; afterwards \<open>isShuffling\<close> is still true exactly when the
  first draw selected template 3 or 7 (Royal Pair, Black Jack), and then the application
  has no further step.
\<close>

theorem new_mission_outcome:
  assumes "reachable s" "\<not> isShuffling s" "app_step (generateTask s) u"
  shows "u = generateTask_fire ((generateTask s)\<lparr>timers := []\<rparr>) \<and>
         (isShuffling u \<longleftrightarrow> rand_index (shd (random s)) 10 \<in> {3, 7}) \<and>
         (isShuffling u \<longrightarrow> (\<forall>v. \<not> app_step u v))"
proof -
  have inv: "app_inv s" using assms(1) by (rule reachable_app_inv)
  have u: "u = generateTask_fire ((generateTask s)\<lparr>timers := []\<rparr>)"
    using inv assms(2,3) by (rule after_click_mission)
  have ok: "random_ok (random s)" using inv by (simp add: app_inv_def)
  have "isShuffling u \<longleftrightarrow> rand_index (shd (random s)) 10 \<in> {3, 7}"
    unfolding u using generateTask_fire_shuffling [of "(generateTask s)\<lparr>timers := []\<rparr>"] ok
    by (simp add: generateTask_def)
  moreover have "timers u = []" by (simp add: u)
  ultimately show ?thesis using u stuck_state by blast
qed

theorem new_mission_outcome_witness:
  "reachable (init_state ((3/10) ## sconst 0)) \<and> \<not> isShuffling (init_state ((3/10) ## sconst 0)) \<and>
   app_step (generateTask (init_state ((3/10) ## sconst 0)))
     (generateTask_fire ((generateTask (init_state ((3/10) ## sconst 0)))\<lparr>timers := []\<rparr>)) \<and>
   isShuffling (generateTask_fire ((generateTask (init_state ((3/10) ## sconst 0)))\<lparr>timers := []\<rparr>))"
proof -
  have r: "reachable (init_state ((3/10) ## sconst 0))" by (rule reachable.start) (simp add: rng_simps)
  have i: "\<not> isShuffling (init_state ((3/10) ## sconst 0))" by (simp add: init_state_def)
  have st: "app_step (generateTask (init_state ((3/10) ## sconst 0)))
     (generateTask_fire ((generateTask (init_state ((3/10) ## sconst 0)))\<lparr>timers := []\<rparr>))"
    by (rule click_fire_step) (simp_all add: init_state_def)
  show ?thesis
    using new_mission_outcome [OF r i st] r i st by (simp add: init_state_def rand_index_def)
qed

text \<open>
  C5: every reachable state satisfies the state invariant: at most one timer is pending,
  and only while \<open>isShuffling\<close>; while shuffling the hand is empty; a non-empty hand
  has 2 to 5 cards of one fresh deck, all of them cards of the game; the current task is
  the initial one or a template other than Royal Pair and Black Jack, rendered with a
  value of its parameter, whose check is the template's check.
\<close>

theorem reachable_state_inv:
  assumes "reachable s"
  shows "length (timers s) \<le> 1 \<and> (timers s \<noteq> [] \<longrightarrow> isShuffling s) \<and> (isShuffling s \<longrightarrow> hand s = []) \<and>
         (hand s \<noteq> [] \<longrightarrow> 2 \<le> length (hand s) \<and> length (hand s) \<le> 5 \<and>
            mset (hand s) \<subseteq># mset getFreshDeck \<and> (\<forall>c\<in>set (hand s). valid_card c)) \<and>
         (currentTask s = initialTask \<or>
          (\<exists>k\<in>{0, 1, 2, 4, 5, 6, 8, 9}. checkFn (currentTask s) = check (TASK_TEMPLATES ! k) \<and>
             rendered_from (TASK_TEMPLATES ! k) (task_text (currentTask s)) (taskParams (currentTask s))))"
proof -
  have inv: "app_inv s" using assms by (rule reachable_app_inv)
  have "\<forall>c\<in>set (hand s). valid_card c"
  proof
    fix c assume "c \<in> set (hand s)"
    then have "c \<in># mset getFreshDeck" using inv by (auto simp: app_inv_def dest: mset_subset_eqD)
    then show "valid_card c" by (simp add: valid_getFreshDeck)
  qed
  with inv show ?thesis by (simp add: app_inv_def task_ok_def)
qed

theorem reachable_state_inv_witness:
  "reachable (init_state (sconst 0)) \<and> hand (init_state (sconst 0)) = [] \<and>
   currentTask (init_state (sconst 0)) = initialTask"
proof -
  have r: "reachable (init_state (sconst 0))" by (rule reachable.start) (simp add: rng_simps)
  show ?thesis using reachable_state_inv [OF r] r by (simp add: init_state_def)
qed

text \<open>
  C12: in every reachable state, \<open>checkHandForTask\<close>, which every render evaluates as
  \<open>isTaskCompleted\<close> (line 245), returns a boolean and never throws; with an empty hand it
  returns \<open>false\<close>.
\<close>

theorem check_hand_total:
  assumes "reachable s"
  shows "(\<exists>b. checkHandForTask s = Inr b) \<and> (hand s = [] \<longrightarrow> checkHandForTask s = Inr False)"
proof -
  have "task_ok (currentTask s)" using reachable_app_inv [OF assms] by (simp add: app_inv_def)
  then show ?thesis using task_ok_total by (auto simp: checkHandForTask_def)
qed

theorem check_hand_total_witness:
  "reachable (init_state (sconst 0)) \<and> checkHandForTask (init_state (sconst 0)) = Inr False"
proof -
  have r: "reachable (init_state (sconst 0))" by (rule reachable.start) (simp add: rng_simps)
  show ?thesis using check_hand_total [OF r] r by (simp add: init_state_def)
qed

text \<open>
  C13: dealing always completes. From a reachable idle state, a click on "Deal Hand"
  can be followed by the run of its timer, and every state that follows the click is
  idle again, holds a hand of 2 to 5 cards, and keeps the current task.
\<close>

theorem deal_completes:
  assumes "reachable s" "\<not> isShuffling s"
  shows "(\<exists>u. app_step (dealHand s) u) \<and>
         (\<forall>u. app_step (dealHand s) u \<longrightarrow>
            \<not> isShuffling u \<and> 2 \<le> length (hand u) \<and> length (hand u) \<le> 5 \<and> currentTask u = currentTask s)"
proof -
  have inv: "app_inv s" using assms(1) by (rule reachable_app_inv)
  have t: "timers s = []" using inv assms(2) by (rule idle_timers)
  have ok: "random_ok (random s)" using inv by (simp add: app_inv_def)
  have "\<exists>u. app_step (dealHand s) u" using click_deal_step [OF assms(2) t] by blast
  moreover have "\<not> isShuffling u \<and> 2 \<le> length (hand u) \<and> length (hand u) \<le> 5 \<and> currentTask u = currentTask s"
    if "app_step (dealHand s) u" for u
  proof -
    have "u = dealHand_fire ((dealHand s)\<lparr>timers := []\<rparr>)" using inv assms(2) that by (rule after_click_deal)
    then show ?thesis using length_deal_cards [OF ok] by (simp add: dealHand_def)
  qed
  ultimately show ?thesis by blast
qed

theorem deal_completes_witness:
  "reachable (init_state (sconst (1/2))) \<and> \<not> isShuffling (init_state (sconst (1/2))) \<and>
   (\<exists>u. app_step (dealHand (init_state (sconst (1/2)))) u \<and> \<not> isShuffling u \<and> 2 \<le> length (hand u))"
proof -
  have r: "reachable (init_state (sconst (1/2)))" by (rule reachable.start) (simp add: rng_simps)
  have i: "\<not> isShuffling (init_state (sconst (1/2)))" by (simp add: init_state_def)
  show ?thesis using deal_completes [OF r i] r i by blast
qed

end
