(* ===== verification/Rules.thy ===== *)
theory Rules
  imports Generate
begin

text \<open>
  The rule engine of the specification (spec.md, section 4.2), as an abstract
  specification of what the check callbacks of \<open>TASK_TEMPLATES\<close> compute. Its design
  notes (section 9) ask for a tagged union \<open>RuleKind\<close> with one variant per catalogue row,
  each with its typed parameter. Here each variant's predicate is written from the
  specification's table over the multiset of the hand's cards. The abstraction
  \<open>rule_of\<close> maps a template index and a resolved parameter object to the rule it denotes.
  The lemmas show that each check callback computes the predicate of its rule, so the
  callbacks refine the specification.
\<close>

section \<open>The abstract rules\<close>

datatype RuleKind =
    EvenPair
  | ExactSuitCount int
  | JokerPresent
  | RoyalPair "string list"
  | PairSum int
  | Flush int
  | RankPair string
  | BlackJack "string list"
  | RedQueen
  | OddCount int

text \<open>The non-joker cards of a hand, and whether a card's rank value satisfies \<open>P\<close>.\<close>

definition nonjokers :: "CardType list \<Rightarrow> CardType multiset" where
  "nonjokers h = filter_mset (\<lambda>c. \<not> isJoker c) (mset h)"

definition has_value :: "(int \<Rightarrow> bool) \<Rightarrow> CardType \<Rightarrow> bool" where
  "has_value P c = (case RANK_VALUES (rank c) of Some v \<Rightarrow> P v | None \<Rightarrow> False)"

definition pair_value :: "CardType \<Rightarrow> CardType \<Rightarrow> int option" where
  "pair_value a b = (case (RANK_VALUES (rank a), RANK_VALUES (rank b)) of
                       (Some x, Some y) \<Rightarrow> Some (x + y) | _ \<Rightarrow> None)"

text \<open>The predicate column of the catalogue table, one equation per row.\<close>

fun rule_holds :: "RuleKind \<Rightarrow> CardType list \<Rightarrow> bool" where
  "rule_holds EvenPair h = (2 \<le> size (filter_mset (has_value even) (nonjokers h)))"
| "rule_holds (ExactSuitCount n) h = (int (size (filter_mset (\<lambda>c. suit c = heart) (mset h))) = n)"
| "rule_holds JokerPresent h = (\<exists>c\<in>#mset h. isJoker c)"
| "rule_holds (RoyalPair R) h = (2 \<le> size (filter_mset (\<lambda>c. rank c \<in> set R) (nonjokers h)))"
| "rule_holds (PairSum n) h =
     (\<exists>a\<in>#nonjokers h. \<exists>b\<in>#nonjokers h - {#a#}. pair_value a b = Some n)"
| "rule_holds (Flush n) h =
     (\<exists>c\<in>#nonjokers h. n \<le> int (size (filter_mset (\<lambda>d. suit d = suit c) (nonjokers h))))"
| "rule_holds (RankPair r) h = (2 \<le> size (filter_mset (\<lambda>c. rank c = r) (mset h)))"
| "rule_holds (BlackJack S) h = (\<exists>c\<in>#mset h. rank c = ''J'' \<and> suit c \<in> set S)"
| "rule_holds RedQueen h = (\<exists>c\<in>#mset h. rank c = ''Q'' \<and> suit c \<in> {heart, diamond})"
| "rule_holds (OddCount n) h = (n \<le> int (size (filter_mset (has_value odd) (nonjokers h))))"

text \<open>The parameter-domain column of the table.\<close>

fun spec_domain :: "RuleKind \<Rightarrow> bool" where
  "spec_domain (ExactSuitCount n) = (n = 3)"
| "spec_domain (RoyalPair R) = (R = [''J'', ''Q'', ''K'', ''A''])"
| "spec_domain (PairSum n) = (n \<in> {10, 12, 15, 16})"
| "spec_domain (Flush n) = (n \<in> {3, 4})"
| "spec_domain (RankPair r) = (r \<in> set RANKS \<and> r \<notin> {''J'', ''Q'', ''K'', ''A''})"
| "spec_domain (BlackJack S) = (S = [club, spade])"
| "spec_domain (OddCount n) = (n = 3)"
| "spec_domain _ = True"

section \<open>The abstraction\<close>

text \<open>A JavaScript array of strings as a list of strings.\<close>

fun str_list :: "jsval list \<Rightarrow> string list option" where
  "str_list [] = Some []"
| "str_list (JStr s # vs) = map_option (Cons s) (str_list vs)"
| "str_list (_ # vs) = None"

text \<open>
  The rule a template index and a resolved parameter object denote; \<open>None\<close> where the
  parameter has a shape no rule takes (a single string for Royal Pair or Black Jack).
\<close>

definition rule_of :: "nat \<Rightarrow> TaskParams \<Rightarrow> RuleKind option" where
  "rule_of k tps =
     (if k = 0 then Some EvenPair
      else if k = 1 then (case js_prop tps ''count'' of JNum n \<Rightarrow> Some (ExactSuitCount n) | _ \<Rightarrow> None)
      else if k = 2 then Some JokerPresent
      else if k = 3 then (case js_prop tps ''royalRanks'' of
                            JArr vs \<Rightarrow> map_option RoyalPair (str_list vs) | _ \<Rightarrow> None)
      else if k = 4 then (case js_prop tps ''sum'' of JNum n \<Rightarrow> Some (PairSum n) | _ \<Rightarrow> None)
      else if k = 5 then (case js_prop tps ''count'' of JNum n \<Rightarrow> Some (Flush n) | _ \<Rightarrow> None)
      else if k = 6 then (case js_prop tps ''rank'' of JStr r \<Rightarrow> Some (RankPair r) | _ \<Rightarrow> None)
      else if k = 7 then (case js_prop tps ''blackSuits'' of
                            JArr vs \<Rightarrow> map_option BlackJack (str_list vs) | _ \<Rightarrow> None)
      else if k = 8 then Some RedQueen
      else if k = 9 then (case js_prop tps ''count'' of JNum n \<Rightarrow> Some (OddCount n) | _ \<Rightarrow> None)
      else None)"

section \<open>Lemmas: each callback computes its rule\<close>

lemma str_list_map_JStr [simp]: "str_list (map JStr R) = Some R"
  by (induction R) simp_all

lemma size_filter_nonjokers:
  "size (filter_mset P (nonjokers h)) = length (filter (\<lambda>c. \<not> isJoker c \<and> P c) h)"
  by (simp add: nonjokers_def filter_filter_mset conj_commute flip: mset_filter)

lemma set_mset_nonjokers [simp]: "set_mset (nonjokers h) = {c \<in> set h. \<not> isJoker c}"
  by (auto simp: nonjokers_def)

lemma size_filter_mset_hand: "size (filter_mset P (mset h)) = length (filter P h)"
  by (simp flip: mset_filter)

lemma rank_in_even_ranks: "rank c \<in> set even_ranks \<longleftrightarrow> has_value even c"
  by (auto simp: even_ranks_def has_value_def RANKS_def RANK_VALUES_def even_iff_mod_2_eq_zero
           split: option.splits if_splits)

lemma rank_in_odd_ranks: "rank c \<in> set odd_ranks \<longleftrightarrow> has_value odd c"
  by (auto simp: odd_ranks_def has_value_def RANKS_def RANK_VALUES_def odd_iff_mod_2_eq_one
           split: option.splits if_splits)

lemma sum_hits_sym: "sum_hits a b s = sum_hits b a s"
  by (simp add: sum_hits_def num_eq_def add.commute split: option.splits)

text \<open>The nested loops of the sum check, over the multiset of the cards.\<close>

lemma pair_sum_loop_mset:
  "pair_sum_loop cs s \<longleftrightarrow> (\<exists>a\<in>#mset cs. \<exists>b\<in>#mset cs - {#a#}. sum_hits a b s)"
proof (induction cs)
  case Nil
  then show ?case by simp
next
  case (Cons x xs)
  have "(\<exists>a\<in>#mset (x # xs). \<exists>b\<in>#mset (x # xs) - {#a#}. sum_hits a b s) \<longleftrightarrow>
        (\<exists>b\<in>set xs. sum_hits x b s) \<or> (\<exists>a\<in>#mset xs. \<exists>b\<in>#mset xs - {#a#}. sum_hits a b s)"
    by (auto simp: insert_DiffM2 [symmetric] sum_hits_sym dest: multi_member_split)
  then show ?case using Cons.IH by (simp add: list_ex_iff)
qed

lemma sum_hits_pair_value: "sum_hits a b (JNum n) \<longleftrightarrow> pair_value a b = Some n"
  by (auto simp: sum_hits_def pair_value_def num_eq_def split: option.splits)

lemma refine_even_pair: "check_even_pair h ps = Inr (rule_holds EvenPair h)"
proof -
  have "2 \<le> length (filter P xs) \<Longrightarrow> list_ex P xs" for P and xs :: "CardType list"
    by (induction xs) (auto split: if_splits)
  then show ?thesis
    by (auto simp: check_even_pair_def size_filter_nonjokers rank_in_even_ranks)
qed

lemma refine_hearts: "check_hearts h [(''count'', JNum n)] = Inr (rule_holds (ExactSuitCount n) h)"
  by (auto simp: check_hearts_def num_eq_def size_filter_mset_hand)

lemma refine_joker: "check_joker h ps = Inr (rule_holds JokerPresent h)"
  by (simp add: check_joker_def list_ex_iff)

lemma refine_royal:
  "check_royal h [(''royalRanks'', JArr (map JStr R))] = Inr (rule_holds (RoyalPair R) h)"
  by (simp add: check_royal_def size_filter_nonjokers if_bool_eq_disj image_iff cong: if_cong)

lemma refine_sum: "check_sum h [(''sum'', JNum n)] = Inr (rule_holds (PairSum n) h)"
  by (simp add: check_sum_def pair_sum_loop_mset sum_hits_pair_value nonjokers_def)

text \<open>A suit present among the non-jokers is the suit of one of them.\<close>

lemma exists_suit_conv:
  "(\<exists>s. 0 < length (filter (\<lambda>c. \<not> isJoker c \<and> suit c = s) h) \<and> P s) \<longleftrightarrow>
   (\<exists>c\<in>set h. \<not> isJoker c \<and> P (suit c))"
proof
  assume "\<exists>s. 0 < length (filter (\<lambda>c. \<not> isJoker c \<and> suit c = s) h) \<and> P s"
  then obtain s where A: "0 < length (filter (\<lambda>c. \<not> isJoker c \<and> suit c = s) h)" and B: "P s"
    by blast
  from A have "\<exists>c\<in>set h. \<not> isJoker c \<and> suit c = s"
    unfolding length_greater_0_conv filter_empty_conv by blast
  with B show "\<exists>c\<in>set h. \<not> isJoker c \<and> P (suit c)" by blast
next
  assume "\<exists>c\<in>set h. \<not> isJoker c \<and> P (suit c)"
  then obtain c where "c \<in> set h" "\<not> isJoker c" "P (suit c)" by blast
  then show "\<exists>s. 0 < length (filter (\<lambda>c. \<not> isJoker c \<and> suit c = s) h) \<and> P s"
    by (intro exI [of _ "suit c"] conjI length_pos_if_in_set) simp_all
qed

lemma refine_flush: "check_flush h [(''count'', JNum n)] = Inr (rule_holds (Flush n) h)"
proof -
  have "check_flush h [(''count'', JNum n)] =
        Inr (\<exists>s. 0 < length (filter (\<lambda>c. \<not> isJoker c \<and> suit c = s) h) \<and>
               n \<le> int (length (filter (\<lambda>c. \<not> isJoker c \<and> suit c = s) h)))"
    unfolding check_flush_def list_ex_iff set_snd_count_suits_empty by (simp add: num_ge_def) blast
  also have "\<dots> = Inr (rule_holds (Flush n) h)"
    unfolding exists_suit_conv by (simp add: size_filter_nonjokers Bex_def)
  finally show ?thesis .
qed

lemma refine_rank_pair: "check_rank_pair h [(''rank'', JStr r)] = Inr (rule_holds (RankPair r) h)"
  by (simp add: check_rank_pair_def size_filter_mset_hand)

lemma refine_black_jack:
  "check_black_jack h [(''blackSuits'', JArr (map JStr S))] = Inr (rule_holds (BlackJack S) h)"
  unfolding check_black_jack_def by (induction h) (auto simp: image_iff)

lemma refine_red_queen: "check_red_queen h ps = Inr (rule_holds RedQueen h)"
  by (auto simp: check_red_queen_def list_ex_iff)

lemma refine_odd: "check_odd h [(''count'', JNum n)] = Inr (rule_holds (OddCount n) h)"
  by (simp add: check_odd_def num_ge_def size_filter_nonjokers rank_in_odd_ranks)

lemmas refine_checks =
  refine_even_pair refine_hearts refine_joker refine_royal refine_sum refine_flush
  refine_rank_pair refine_black_jack refine_red_queen refine_odd

text \<open>
  Every template that does not throw, with any value its parameter resolves to, denotes a
  rule whose parameter lies in the specification's domain (or is the rank J, which the
  code's domain has and the specification's lacks), and its check computes that rule.
\<close>

lemma template_refines:
  assumes "k \<in> {0, 1, 2, 4, 5, 6, 8, 9}" "rendered_from (TASK_TEMPLATES ! k) tt tps"
  shows "\<exists>R. rule_of k tps = Some R \<and> (spec_domain R \<or> R = RankPair ''J'') \<and>
             (\<forall>h. check (TASK_TEMPLATES ! k) h tps = Inr (rule_holds R h))"
  using assms
  by (elim insertE emptyE; auto simp: rendered_from_def TASK_TEMPLATES_def rule_of_def refine_checks
        pair_ranks_def RANKS_def)

section \<open>Properties of the refinement\<close>

text \<open>
  C7: \<open>selectTask\<close> refines the specification's catalogue: every task the generator
  returns denotes, through its template index and resolved parameters, a rule of the
  catalogue with its parameter in the specification's domain or equal to the rank J; and
  the task's check function computes that rule's predicate on every hand.
\<close>

theorem generated_task_refines:
  assumes "random_ok rs" "fst (generateTask_timeout rs) = Inr t"
  shows "\<exists>R. rule_of (rand_index (shd rs) 10) (taskParams t) = Some R \<and>
             (spec_domain R \<or> R = RankPair ''J'') \<and>
             (\<forall>h. checkFn t h (taskParams t) = Inr (rule_holds R h))"
proof -
  have g: "rand_index (shd rs) 10 \<in> {0, 1, 2, 4, 5, 6, 8, 9} \<and>
      checkFn t = check (TASK_TEMPLATES ! rand_index (shd rs) 10) \<and>
      rendered_from (TASK_TEMPLATES ! rand_index (shd rs) 10) (task_text t) (taskParams t)"
    using assms by (rule generate_Inr_catalogue)
  then obtain R where "rule_of (rand_index (shd rs) 10) (taskParams t) = Some R"
      "spec_domain R \<or> R = RankPair ''J''"
      "\<forall>h. check (TASK_TEMPLATES ! rand_index (shd rs) 10) h (taskParams t) = Inr (rule_holds R h)"
    using template_refines by blast
  with g show ?thesis by auto
qed

theorem generated_task_refines_witness:
  "random_ok ((1/10) ## 0 ## sconst 0) \<and>
   fst (generateTask_timeout ((1/10) ## 0 ## sconst 0)) =
     Inr \<lparr>task_text = ''Find exactly 3 Heart cards'', checkFn = check_hearts, taskParams = [(''count'', JNum 3)]\<rparr> \<and>
   (\<forall>h. check_hearts h [(''count'', JNum 3)] = Inr (rule_holds (ExactSuitCount 3) h))"
proof -
  have ok: "random_ok ((1/10) ## 0 ## sconst 0)" by (simp add: rng_simps)
  have "rand_index (shd ((1/10) ## 0 ## sconst 0)) 10 = 1" by (simp add: rand_index_def)
  then show ?thesis
    using generated_task_refines [OF ok generate_hearts_run] ok generate_hearts_run
    by (simp add: rule_of_def)
qed

end
