(* ===== verification/View.thy ===== *)
theory View
  imports App Rules
begin

text \<open>
  What the component renders (lines 245--290 of \<open>src/src/App.tsx\<close>) and the \<open>Card\<close>
  sub-component (lines 293--307), as a function from the state to the displayed values.
  Rendering first evaluates \<open>isTaskCompleted = checkHandForTask()\<close> (line 245), which may
  throw. The view holds the task text, the two buttons with their \<open>disabled\<close> flags, the
  deal button's label and colours, the placeholder line, the card views and the completion
  message. The styles object (lines 310--443) holds constants only, and the view keeps
  none of it except the two colour choices that depend on the state. A card's
  animation delay \<open>index * 0.1\<close> seconds is kept as the index, in tenths of a second.
\<close>

section \<open>The view\<close>

record CardView =
  cardTop :: string
  cardSuit :: string
  cardBottom :: string
  cardColor :: string
  delay_tenths :: nat

definition Card :: "CardType \<Rightarrow> nat \<Rightarrow> CardView" where
  "Card c index =
     \<lparr>cardTop = rank c, cardSuit = suit c, cardBottom = rank c, cardColor = color c,
      delay_tenths = index\<rparr>"

record AppView =
  shownTaskText :: string
  missionDisabled :: bool
  placeholderShown :: bool
  cards :: "CardView list"
  dealBackground :: string
  dealTextColor :: string
  dealDisabled :: bool
  dealLabel :: string
  completionShown :: bool

text \<open>
  \<open>hand.map((card, index) => <Card key={index} card={card} index={index} />)\<close> renders
  the cards in hand order with their positions.
\<close>

definition render :: "AppState \<Rightarrow> AppView js_result" where
  "render s =
     js_bind (checkHandForTask s) (\<lambda>isTaskCompleted.
       Inr \<lparr>shownTaskText = task_text (currentTask s),
            missionDisabled = isShuffling s,
            placeholderShown = (hand s = [] \<and> \<not> isShuffling s),
            cards = map2 Card (hand s) [0..<length (hand s)],
            dealBackground = (if isTaskCompleted then ''#34d399'' else ''#fbbf24''),
            dealTextColor = (if isTaskCompleted then ''#1c3b2f'' else ''#451a03''),
            dealDisabled = isShuffling s,
            dealLabel = (if isShuffling s then ''Shuffling...'' else ''Deal Cards''),
            completionShown = (isTaskCompleted \<and> 0 < length (hand s))\<rparr>)"

section \<open>Lemmas on the view\<close>

lemma render_Inr:
  "checkHandForTask s = Inr b \<Longrightarrow> \<exists>v. render s = Inr v \<and> completionShown v = (b \<and> hand s \<noteq> []) \<and>
     dealLabel v = (if isShuffling s then ''Shuffling...'' else ''Deal Cards'') \<and>
     missionDisabled v = isShuffling s \<and> dealDisabled v = isShuffling s \<and>
     placeholderShown v = (hand s = [] \<and> \<not> isShuffling s) \<and>
     cards v = map2 Card (hand s) [0..<length (hand s)]"
  by (simp add: render_def)

lemma reachable_check_Inr: "reachable s \<Longrightarrow> \<exists>b. checkHandForTask s = Inr b"
  using reachable_app_inv [of s] task_ok_total [of "currentTask s" "hand s"]
  by (auto simp: app_inv_def checkHandForTask_def)

text \<open>A stuck reachable state is shuffling with an empty hand.\<close>

lemma stuck_shuffling:
  assumes "reachable s" "\<forall>t. \<not> app_step s t"
  shows "isShuffling s \<and> hand s = []"
proof -
  have "isShuffling s" using assms(2) app_step.click_new_mission by blast
  then show ?thesis using reachable_app_inv [OF assms(1)] by (simp add: app_inv_def)
qed

lemma map2_Card_from:
  "map (\<lambda>v. (cardTop v, cardSuit v, cardBottom v, cardColor v)) (map2 Card h [n..<n + length h]) =
     map (\<lambda>c. (rank c, suit c, rank c, color c)) h \<and>
   map delay_tenths (map2 Card h [n..<n + length h]) = [n..<n + length h]"
proof (induction h arbitrary: n)
  case Nil
  then show ?case by simp
next
  case (Cons c h)
  have "[n..<n + length (c # h)] = n # [Suc n..<Suc n + length h]"
    using upt_conv_Cons [of n "n + Suc (length h)"] by simp
  then show ?case using Cons.IH [of "Suc n"] by (simp add: Card_def)
qed

lemma map2_Card_fields:
  "map (\<lambda>v. (cardTop v, cardSuit v, cardBottom v, cardColor v)) (map2 Card h [0..<length h]) =
     map (\<lambda>c. (rank c, suit c, rank c, color c)) h \<and>
   map delay_tenths (map2 Card h [0..<length h]) = [0..<length h]"
  using map2_Card_from [of h 0] by simp

text \<open>
  A whole game: "New Mission" draws the Hearts template with count 3, "Deal Cards" then
  deals the Hearts 2, 3 and 4 under the identity shuffle, and the mission is complete.
\<close>

lemma hearts_game:
  defines "rs \<equiv> (1/10) ## 0 ## (keep_draws 53 @- (1/4) ## sconst (0::real))"
  defines "s1 \<equiv> generateTask_fire ((generateTask (init_state rs))\<lparr>timers := []\<rparr>)"
  defines "s2 \<equiv> dealHand_fire ((dealHand s1)\<lparr>timers := []\<rparr>)"
  shows "reachable s2 \<and>
         hand s2 = [plain_card heart ''2'', plain_card heart ''3'', plain_card heart ''4''] \<and>
         currentTask s2 = \<lparr>task_text = ''Find exactly 3 Heart cards'', checkFn = check_hearts,
                           taskParams = [(''count'', JNum 3)]\<rparr> \<and> \<not> isShuffling s2"
proof -
  have ok: "random_ok rs" by (auto simp: rs_def rng_simps dest: keep_draws_ok)
  have r1: "reachable s1"
    unfolding s1_def
    by (rule reachable.step [OF reachable_init_click [OF ok] click_fire_step]) (simp_all add: init_state_def)
  have t1: "timers s1 = [] \<and> \<not> isShuffling s1 \<and> random s1 = keep_draws 53 @- (1/4) ## sconst 0 \<and>
      currentTask s1 = \<lparr>task_text = ''Find exactly 3 Heart cards'', checkFn = check_hearts,
                        taskParams = [(''count'', JNum 3)]\<rparr>"
    by (simp add: s1_def rs_def generateTask_fire_def generateTask_def init_state_def generate_hearts_run_tail)
  have r2: "reachable (dealHand s1)"
    using t1 by (intro reachable.step [OF r1] app_step.click_deal) simp
  have "reachable s2"
    unfolding s2_def using t1 by (intro reachable.step [OF r2] click_deal_step) simp_all
  then show ?thesis using t1 by (simp add: s2_def dealHand_def deal_identity_run)
qed

lemma hearts_game_render:
  assumes "hand s = [plain_card heart ''2'', plain_card heart ''3'', plain_card heart ''4'']"
    "currentTask s = \<lparr>task_text = ''Find exactly 3 Heart cards'', checkFn = check_hearts,
                       taskParams = [(''count'', JNum 3)]\<rparr>"
  shows "\<exists>v. render s = Inr v \<and> completionShown v"
proof -
  have "checkHandForTask s = Inr True"
    using assms by (simp add: checkHandForTask_def check_hearts_def num_eq_def plain_card_def symbol_defs)
  then show ?thesis using render_Inr assms(1) by fastforce
qed

section \<open>Properties of the view\<close>

text \<open>
  C9: "Mission Accomplished!" (line 284) is shown only when it should be: the hand is
  non-empty, no shuffle is in progress, a task was generated, and the hand satisfies the
  predicate of the specification's rule that the task's template and parameters denote.
\<close>

theorem completion_shown_sound:
  assumes "reachable s" "render s = Inr v" "completionShown v"
  shows "hand s \<noteq> [] \<and> \<not> isShuffling s \<and> currentTask s \<noteq> initialTask \<and>
         (\<exists>k R. checkFn (currentTask s) = check (TASK_TEMPLATES ! k) \<and>
                rule_of k (taskParams (currentTask s)) = Some R \<and> (spec_domain R \<or> R = RankPair ''J'') \<and>
                rule_holds R (hand s))"
proof -
  obtain b where b: "checkHandForTask s = Inr b" using reachable_check_Inr [OF assms(1)] by blast
  with assms(2,3) have bh: "b" "hand s \<noteq> []" using render_Inr [OF b] by auto
  have inv: "app_inv s" using assms(1) by (rule reachable_app_inv)
  with bh have sh: "\<not> isShuffling s" by (auto simp: app_inv_def)
  have ni: "currentTask s \<noteq> initialTask"
  proof
    assume "currentTask s = initialTask"
    then have "checkHandForTask s = Inr False" by (simp add: checkHandForTask_def initialTask_def)
    with b bh show False by simp
  qed
  from inv have "task_ok (currentTask s)" by (simp add: app_inv_def)
  then consider "currentTask s = initialTask"
    | k where "k \<in> {0, 1, 2, 4, 5, 6, 8, 9}" "checkFn (currentTask s) = check (TASK_TEMPLATES ! k)"
        "rendered_from (TASK_TEMPLATES ! k) (task_text (currentTask s)) (taskParams (currentTask s))"
    unfolding task_ok_def by blast
  then show ?thesis
  proof cases
    case 1
    then show ?thesis using ni by simp
  next
    case (2 k)
    then obtain R where R: "rule_of k (taskParams (currentTask s)) = Some R" "spec_domain R \<or> R = RankPair ''J''"
        "\<forall>h. check (TASK_TEMPLATES ! k) h (taskParams (currentTask s)) = Inr (rule_holds R h)"
      using template_refines by blast
    then show ?thesis using b bh sh ni 2 by (auto simp: checkHandForTask_def)
  qed
qed

theorem completion_shown_sound_witness:
  "\<exists>s v. reachable s \<and> render s = Inr v \<and> completionShown v \<and>
     (\<exists>k R. check_hearts = check (TASK_TEMPLATES ! k) \<and> rule_of k [(''count'', JNum 3)] = Some R \<and>
            rule_holds R (hand s))"
proof -
  obtain s where g: "reachable s" "hand s = [plain_card heart ''2'', plain_card heart ''3'', plain_card heart ''4'']"
      "currentTask s = \<lparr>task_text = ''Find exactly 3 Heart cards'', checkFn = check_hearts,
                         taskParams = [(''count'', JNum 3)]\<rparr>"
    using hearts_game by blast
  obtain v where v: "render s = Inr v" "completionShown v" using hearts_game_render [OF g(2,3)] by blast
  have "\<exists>k R. check_hearts = check (TASK_TEMPLATES ! k) \<and> rule_of k [(''count'', JNum 3)] = Some R \<and>
           rule_holds R (hand s)"
    using completion_shown_sound [OF g(1) v] g(3) by auto
  with g(1) v show ?thesis by blast
qed

text \<open>
  C15: a mission can be accomplished: some reachable state shows "Mission Accomplished!".
\<close>

theorem mission_can_be_accomplished: "\<exists>s v. reachable s \<and> render s = Inr v \<and> completionShown v"
proof -
  obtain s where g: "reachable s" "hand s = [plain_card heart ''2'', plain_card heart ''3'', plain_card heart ''4'']"
      "currentTask s = \<lparr>task_text = ''Find exactly 3 Heart cards'', checkFn = check_hearts,
                         taskParams = [(''count'', JNum 3)]\<rparr>"
    using hearts_game by blast
  then show ?thesis using hearts_game_render by blast
qed

text \<open>
  C14: what the locked application shows for ever: both buttons disabled, the deal button
  labelled "Shuffling...", no cards, no placeholder line and no completion message.
\<close>

theorem lock_view:
  assumes "reachable s" "\<forall>t. \<not> app_step s t"
  shows "\<exists>v. render s = Inr v \<and> dealLabel v = ''Shuffling...'' \<and> missionDisabled v \<and> dealDisabled v \<and>
             cards v = [] \<and> \<not> placeholderShown v \<and> \<not> completionShown v"
proof -
  have "isShuffling s \<and> hand s = []" using assms by (rule stuck_shuffling)
  moreover obtain b where "checkHandForTask s = Inr b" using reachable_check_Inr [OF assms(1)] by blast
  ultimately show ?thesis using render_Inr by fastforce
qed

theorem lock_view_witness:
  "reachable (generateTask_fire ((generateTask (init_state ((3/10) ## sconst 0)))\<lparr>timers := []\<rparr>)) \<and>
   (\<exists>v. render (generateTask_fire ((generateTask (init_state ((3/10) ## sconst 0)))\<lparr>timers := []\<rparr>)) = Inr v \<and>
        dealLabel v = ''Shuffling...'')"
proof -
  have r: "reachable (generateTask_fire ((generateTask (init_state ((3/10) ## sconst 0)))\<lparr>timers := []\<rparr>))"
    and "\<forall>t. \<not> app_step (generateTask_fire ((generateTask (init_state ((3/10) ## sconst 0)))\<lparr>timers := []\<rparr>)) t"
    using royal_lock_state stuck_state by blast+
  then show ?thesis using lock_view by blast
qed

end
