(* ===== verification/Styles.thy ===== *)
theory Styles
  imports View "HOL-Library.AList"
begin

text \<open>
  The styles of the component: the \<open>styles\<close> object of \<open>src/src/App.tsx\<close> (lines
  310--443) and the two style objects the JSX builds with a spread, for a card (lines
  296--300) and for the deal button (lines 273--279). A JavaScript object is an
  association list in insertion order. A property in an object literal is \<open>AList.update\<close>:
  an existing key keeps its position and takes the new value, a new key is appended.
  \<open>{...base, k: v, \<dots>}\<close> is \<open>obj_spread\<close>. Reading a missing key gives \<open>None\<close>
  (\<open>undefined\<close>), and spreading \<open>undefined\<close> gives the empty object.
\<close>

section \<open>Objects and spread\<close>

type_synonym 'v js_object = "(string \<times> 'v) list"

definition obj_spread :: "'v js_object \<Rightarrow> 'v js_object \<Rightarrow> 'v js_object" where
  "obj_spread base props = fold (\<lambda>(k, v). AList.update k v) props base"

definition obj_get :: "'v js_object \<Rightarrow> string \<Rightarrow> 'v option" where
  "obj_get obj k = map_of obj k"

fun spread_src :: "'v js_object option \<Rightarrow> 'v js_object" where
  "spread_src None = []"
| "spread_src (Some obj) = obj"

section \<open>The styles object\<close>

text \<open>
  \<open>const styles: { [key: string]: CSSProperties }\<close>, lines 311--443. Every value of the
  source is a string literal; the comments are dropped.
\<close>

definition styles :: "(string \<times> string js_object) list" where
  "styles =
    [(''table'',
     [(''minHeight'', ''100vh''),
      (''backgroundColor'', ''#0f5132''),
      (''backgroundImage'', ''radial-gradient(#146c43, #0f5132)''),
      (''fontFamily'', ''Segoe UI, Roboto, Helvetica, sans-serif''),
      (''display'', ''flex''),
      (''flexDirection'', ''column''),
      (''alignItems'', ''center''),
      (''padding'', ''20px''),
      (''color'', ''white'')]),
     (''header'',
     [(''textAlign'', ''center''),
      (''marginBottom'', ''30px''),
      (''width'', ''100%''),
      (''maxWidth'', ''600px'')]),
     (''title'',
     [(''margin'', ''0 0 20px 0''),
      (''textShadow'', ''0 2px 4px rgba(0,0,0,0.5)'')]),
     (''taskBox'',
     [(''backgroundColor'', ''rgba(0,0,0,0.3)''),
      (''padding'', ''20px''),
      (''borderRadius'', ''15px''),
      (''border'', ''2px solid rgba(255,255,255,0.1)''),
      (''display'', ''flex''),
      (''flexDirection'', ''column''),
      (''gap'', ''10px''),
      (''alignItems'', ''center'')]),
     (''taskLabel'',
     [(''fontSize'', ''0.9rem''),
      (''color'', ''#86efac''),
      (''textTransform'', ''uppercase''),
      (''letterSpacing'', ''1px''),
      (''fontWeight'', ''bold'')]),
     (''taskText'',
     [(''fontSize'', ''1.2rem''),
      (''fontWeight'', ''bold''),
      (''textAlign'', ''center''),
      (''minHeight'', ''40px''),
      (''display'', ''flex''),
      (''alignItems'', ''center''),
      (''justifyContent'', ''center'')]),
     (''smallButton'',
     [(''marginTop'', ''10px''),
      (''padding'', ''5px 15px''),
      (''fontSize'', ''0.9rem''),
      (''background'', ''transparent''),
      (''border'', ''1px solid white''),
      (''color'', ''white''),
      (''borderRadius'', ''20px''),
      (''cursor'', ''pointer''),
      (''transition'', ''background 0.2s, color 0.2s'')]),
     (''smallButtonHover'',
     [(''backgroundColor'', ''white''),
      (''color'', ''#0f5132'')]),
     (''handContainer'',
     [(''display'', ''flex''),
      (''flexWrap'', ''wrap''),
      (''justifyContent'', ''center''),
      (''gap'', ''15px''),
      (''minHeight'', ''220px''),
      (''marginBottom'', ''30px''),
      (''perspective'', ''1000px'')]),
     (''placeholderText'',
     [(''color'', ''rgba(255,255,255,0.4)''),
      (''fontStyle'', ''italic''),
      (''marginTop'', ''80px'')]),
     (''card'',
     [(''width'', ''100px''),
      (''height'', ''150px''),
      (''backgroundColor'', ''white''),
      (''borderRadius'', ''10px''),
      (''boxShadow'', ''0 5px 15px rgba(0,0,0,0.5)''),
      (''display'', ''flex''),
      (''flexDirection'', ''column''),
      (''justifyContent'', ''space-between''),
      (''padding'', ''8px''),
      (''fontSize'', ''1.2rem''),
      (''fontWeight'', ''bold''),
      (''position'', ''relative''),
      (''userSelect'', ''none'')]),
     (''cardTop'',
     [(''alignSelf'', ''flex-start''),
      (''lineHeight'', ''1'')]),
     (''cardSuit'',
     [(''alignSelf'', ''center''),
      (''fontSize'', ''3rem''),
      (''position'', ''absolute''),
      (''top'', ''50%''),
      (''left'', ''50%''),
      (''transform'', ''translate(-50%, -50%)'')]),
     (''cardBottom'',
     [(''alignSelf'', ''flex-end''),
      (''transform'', ''rotate(180deg)''),
      (''lineHeight'', ''1'')]),
     (''controls'',
     [(''marginTop'', ''auto''),
      (''marginBottom'', ''20px''),
      (''display'', ''flex''),
      (''flexDirection'', ''column''),
      (''alignItems'', ''center''),
      (''gap'', ''15px'')]),
     (''dealButton'',
     [(''padding'', ''15px 40px''),
      (''fontSize'', ''1.3rem''),
      (''border'', ''none''),
      (''borderRadius'', ''50px''),
      (''cursor'', ''pointer''),
      (''fontWeight'', ''bold''),
      (''transition'', ''transform 0.1s, box-shadow 0.1s, background 0.3s, color 0.3s''),
      (''minWidth'', ''200px'')]),
     (''completionMessage'',
     [(''color'', ''#34d399''),
      (''fontSize'', ''1.1rem''),
      (''fontWeight'', ''bold''),
      (''marginTop'', ''10px''),
      (''textShadow'', ''0 1px 3px rgba(0,0,0,0.5)'')])]"

text \<open>\<open>styles.name\<close>: a property read on an index-signature type, \<open>undefined\<close> when absent.\<close>

definition style_of :: "string \<Rightarrow> string js_object option" where
  "style_of name = map_of styles name"

text \<open>
  The style names the JSX reads, in source order: \<open>App\<close> (lines 246--288) and \<open>Card\<close>
  (lines 297, 303--305).
\<close>

definition jsx_style_refs :: "string list" where
  "jsx_style_refs =
     [''table'', ''header'', ''title'', ''taskBox'', ''taskLabel'', ''taskText'', ''smallButton'',
      ''handContainer'', ''placeholderText'', ''controls'', ''dealButton'', ''completionMessage'',
      ''card'', ''cardTop'', ''cardSuit'', ''cardBottom'']"

section \<open>The merged styles\<close>

text \<open>
  A style value: a string, or the animation of a card, the template literal
  \<open>`slideIn 0.3s ease-out ${index * 0.1}s backwards`\<close> (line 299). The animation is
  kept with the card's index, since the floating-point product and its printing are
  not modelled.
\<close>

datatype cssval = CssStr string | SlideIn nat

definition css_lit :: "string js_object \<Rightarrow> cssval js_object" where
  "css_lit obj = map (\<lambda>(k, v). (k, CssStr v)) obj"

text \<open>The style of a card, lines 296--300: \<open>{...styles.card, color: card.color, animation: \<dots>}\<close>.\<close>

definition card_style :: "CardView \<Rightarrow> cssval js_object" where
  "card_style cv =
     obj_spread (css_lit (spread_src (style_of ''card'')))
       [(''color'', CssStr (cardColor cv)), (''animation'', SlideIn (delay_tenths cv))]"

text \<open>The style of the deal button, lines 273--279, for the value of \<open>isTaskCompleted\<close>.\<close>

definition deal_button_style :: "bool \<Rightarrow> cssval js_object" where
  "deal_button_style isTaskCompleted =
     obj_spread (css_lit (spread_src (style_of ''dealButton'')))
       [(''backgroundColor'', CssStr (if isTaskCompleted then ''#34d399'' else ''#fbbf24'')),
        (''color'', CssStr (if isTaskCompleted then ''#1c3b2f'' else ''#451a03'')),
        (''boxShadow'', CssStr (if isTaskCompleted then ''0 6px 0 #10b981, 0 10px 10px rgba(0,0,0,0.3)''
                                else ''0 6px 0 #b45309, 0 10px 10px rgba(0,0,0,0.3)''))]"

section \<open>Lemmas on objects\<close>

text \<open>A later property wins over an earlier one and over the spread object.\<close>

lemma map_of_obj_spread: "map_of (obj_spread base props) = map_of base ++ map_of (rev props)"
proof (induction props arbitrary: base)
  case Nil
  then show ?case by (simp add: obj_spread_def)
next
  case (Cons p props)
  obtain k v where p: "p = (k, v)" by (cases p)
  have "obj_spread base (p # props) = obj_spread (AList.update k v base) props"
    by (simp add: obj_spread_def p)
  then show ?case by (intro ext) (simp add: Cons.IH update_conv' p map_add_def split: option.split)
qed

lemma obj_get_spread:
  "obj_get (obj_spread base props) k = (case map_of (rev props) k of None \<Rightarrow> obj_get base k | Some v \<Rightarrow> Some v)"
  unfolding obj_get_def by (simp add: map_of_obj_spread map_add_def)

lemma update_fresh: "k \<notin> set (map fst al) \<Longrightarrow> AList.update k v al = al @ [(k, v)]"
  by (induction al) auto

text \<open>Spreading an object with fresh keys appends them, in order.\<close>

lemma obj_spread_fresh:
  "distinct (map fst props) \<Longrightarrow> set (map fst props) \<inter> set (map fst base) = {} \<Longrightarrow>
   obj_spread base props = base @ props"
proof (induction props arbitrary: base)
  case Nil
  then show ?case by (simp add: obj_spread_def)
next
  case (Cons p props)
  obtain k v where p: "p = (k, v)" by (cases p)
  have "AList.update k v base = base @ [(k, v)]"
    using Cons.prems(2) p by (intro update_fresh) auto
  moreover have "obj_spread base (p # props) = obj_spread (AList.update k v base) props"
    by (simp add: obj_spread_def p)
  ultimately show ?case using Cons.prems p by (simp add: Cons.IH)
qed

lemma distinct_obj_spread:
  "distinct (map fst base) \<Longrightarrow> distinct (map fst (obj_spread base props))"
proof (induction props arbitrary: base)
  case Nil
  then show ?case by (simp add: obj_spread_def)
next
  case (Cons p props)
  then show ?case by (cases p) (simp add: obj_spread_def distinct_update)
qed

lemma map_fst_css_lit [simp]: "map fst (css_lit obj) = map fst obj"
  by (induction obj) (auto simp: css_lit_def)

section \<open>Lemmas on the rendered styles\<close>

lemma style_card:
  "style_of ''card'' = Some [(''width'', ''100px''), (''height'', ''150px''), (''backgroundColor'', ''white''),
     (''borderRadius'', ''10px''), (''boxShadow'', ''0 5px 15px rgba(0,0,0,0.5)''), (''display'', ''flex''),
     (''flexDirection'', ''column''), (''justifyContent'', ''space-between''), (''padding'', ''8px''),
     (''fontSize'', ''1.2rem''), (''fontWeight'', ''bold''), (''position'', ''relative''),
     (''userSelect'', ''none'')]"
  by (simp add: style_of_def styles_def)

lemma card_style_append:
  "card_style cv = css_lit (the (style_of ''card'')) @
     [(''color'', CssStr (cardColor cv)), (''animation'', SlideIn (delay_tenths cv))]"
  unfolding card_style_def style_card spread_src.simps option.sel by (rule obj_spread_fresh) simp_all

lemma valid_card_color:
  assumes "valid_card c"
  shows "color c \<in> {''red'', ''black'', ''purple''}"
proof -
  consider "c = joker_card" | "c = plain_card (suit c) (rank c)"
    using assms unfolding valid_card_def by blast
  then show ?thesis
  proof cases
    case 1
    then show ?thesis by (simp add: joker_card_def)
  next
    case 2
    have "color (plain_card (suit c) (rank c)) \<in> {''red'', ''black''}" by (simp add: plain_card_def)
    then show ?thesis using 2 by auto
  qed
qed

lemma reachable_hand_valid: "reachable s \<Longrightarrow> c \<in> set (hand s) \<Longrightarrow> valid_card c"
  using reachable_app_inv [of s]
  by (auto simp: app_inv_def valid_getFreshDeck dest: mset_subset_eqD)

lemma cards_color:
  "cv \<in> set (map2 Card h [0..<length h]) \<Longrightarrow> \<exists>c\<in>set h. cardColor cv = color c"
  by (auto simp: Card_def dest: set_zip_leftD)


section \<open>Properties of the styles\<close>

text \<open>
  Every style the JSX reads, \<open>styles.table\<close> \<dots> \<open>styles.cardBottom\<close>, is defined, so
  no element is rendered with \<open>style={undefined}\<close>. Each style object and \<open>styles\<close>
  itself have distinct keys, so no property of a literal is silently overwritten by a
  later duplicate. The one style defined and never read is \<open>smallButtonHover\<close>.
\<close>

lemma styles_defined:
  "distinct (map fst styles) \<and>
   (\<forall>name\<in>set jsx_style_refs. \<exists>obj. style_of name = Some obj \<and> distinct (map fst obj)) \<and>
   filter (\<lambda>name. name \<notin> set jsx_style_refs) (map fst styles) = [''smallButtonHover'']"
  by (simp add: styles_def jsx_style_refs_def style_of_def)

text \<open>
  C32: in every reachable state that renders, each card's style is \<open>styles.card\<close> with
  \<open>color\<close> and \<open>animation\<close> appended. The card keeps the white background of
  \<open>styles.card\<close>, and its text colour, the card's colour, is red, black or purple, never
  white. The deal button's merged style carries the colours the view reports for the
  value of \<open>isTaskCompleted\<close>, and it has no duplicate key.
\<close>

theorem rendered_styles:
  assumes "reachable s" "render s = Inr v"
  shows "(\<forall>cv\<in>set (cards v).
            card_style cv = css_lit (the (style_of ''card'')) @
              [(''color'', CssStr (cardColor cv)), (''animation'', SlideIn (delay_tenths cv))] \<and>
            cardColor cv \<in> {''red'', ''black'', ''purple''} \<and>
            obj_get (card_style cv) ''backgroundColor'' = Some (CssStr ''white'')) \<and>
         (\<exists>b. checkHandForTask s = Inr b \<and>
            obj_get (deal_button_style b) ''backgroundColor'' = Some (CssStr (dealBackground v)) \<and>
            obj_get (deal_button_style b) ''color'' = Some (CssStr (dealTextColor v)) \<and>
            distinct (map fst (deal_button_style b)))"
proof -
  obtain b where b: "checkHandForTask s = Inr b" using reachable_check_Inr [OF assms(1)] by blast
  then obtain w where w: "render s = Inr w" "cards w = map2 Card (hand s) [0..<length (hand s)]"
    using render_Inr by blast
  have vw: "v = w" using w(1) assms(2) by simp
  have cards: "\<forall>cv\<in>set (cards v). cardColor cv \<in> {''red'', ''black'', ''purple''}"
  proof
    fix cv assume "cv \<in> set (cards v)"
    then have "cv \<in> set (map2 Card (hand s) [0..<length (hand s)])" using w(2) vw by simp
    then obtain c where "c \<in> set (hand s)" "cardColor cv = color c"
      using cards_color by blast
    then show "cardColor cv \<in> {''red'', ''black'', ''purple''}"
      using reachable_hand_valid [OF assms(1)] valid_card_color by metis
  qed
  have bg: "obj_get (card_style cv) ''backgroundColor'' = Some (CssStr ''white'')" for cv
    unfolding card_style_append style_card by (simp add: obj_get_def css_lit_def)
  have deal: "dealBackground v = (if b then ''#34d399'' else ''#fbbf24'') \<and>
              dealTextColor v = (if b then ''#1c3b2f'' else ''#451a03'')"
    using assms(2) b by (auto simp: render_def)
  have "distinct (map fst (deal_button_style b))"
    unfolding deal_button_style_def
    by (rule distinct_obj_spread) (simp add: style_of_def styles_def)
  moreover have "obj_get (deal_button_style b) ''backgroundColor'' = Some (CssStr (dealBackground v)) \<and>
                 obj_get (deal_button_style b) ''color'' = Some (CssStr (dealTextColor v))"
    using deal by (simp add: deal_button_style_def obj_get_spread)
  ultimately show ?thesis using b cards bg card_style_append by blast
qed

theorem rendered_styles_witness:
  "reachable (init_state (sconst 0)) \<and>
   render (init_state (sconst 0)) = Inr (projr (render (init_state (sconst 0)))) \<and>
   (\<exists>b. checkHandForTask (init_state (sconst 0)) = Inr b \<and>
      obj_get (deal_button_style b) ''backgroundColor'' =
        Some (CssStr (dealBackground (projr (render (init_state (sconst 0)))))))"
proof -
  have r: "reachable (init_state (sconst 0))" by (rule reachable.start) (simp add: rng_simps)
  then obtain v where v: "render (init_state (sconst 0)) = Inr v" using render_Inr reachable_check_Inr by blast
  show ?thesis using rendered_styles [OF r v] r v by auto
qed

end
