(* ===== verification/Typing.thy ===== *)
theory Typing
  imports App
begin

text \<open>
  The \<open>TaskParams\<close> interface of \<open>src/src/App.tsx\<close> (lines 20--27) as a typing predicate
  on parameter objects. \<open>count\<close> and \<open>sum\<close> are a number or an array of numbers,
  \<open>royalRanks\<close> and \<open>blackSuits\<close> an array of strings, \<open>rank\<close> a string or an array of
  strings, and any other key (\<open>[key: string]: any\<close>) anything. Each property is optional.
  The resolution loop stores its values in \<open>taskParams: any\<close> (line 178), which TypeScript
  does not check against the interface. The lemmas show where resolution leaves the
  interface: exactly for the two templates whose callback then throws.
\<close>

section \<open>The interface\<close>

fun is_number :: "jsval \<Rightarrow> bool" where
  "is_number (JNum _) = True"
| "is_number _ = False"

fun is_string :: "jsval \<Rightarrow> bool" where
  "is_string (JStr _) = True"
| "is_string _ = False"

definition param_typed :: "string \<Rightarrow> jsval \<Rightarrow> bool" where
  "param_typed k v =
     (if k = ''count'' \<or> k = ''sum'' then
        (case v of JNum _ \<Rightarrow> True | JArr xs \<Rightarrow> list_all is_number xs | _ \<Rightarrow> False)
      else if k = ''royalRanks'' \<or> k = ''blackSuits'' then
        (case v of JArr xs \<Rightarrow> list_all is_string xs | _ \<Rightarrow> False)
      else if k = ''rank'' then
        (case v of JStr _ \<Rightarrow> True | JArr xs \<Rightarrow> list_all is_string xs | _ \<Rightarrow> False)
      else True)"

definition TaskParams_typed :: "TaskParams \<Rightarrow> bool" where
  "TaskParams_typed tps = list_all (\<lambda>(k, v). param_typed k v) tps"

section \<open>Lemmas on typing\<close>

lemma resolve_one_param:
  "random_ok rs \<Longrightarrow> xs \<noteq> [] \<Longrightarrow>
   \<exists>x\<in>set xs. fst (snd (resolve_params [(key, JArr xs)] tt [] rs)) = [(key, x)]"
  using getRandomParamValue_arr [of rs xs] by (auto simp: Let_def)

text \<open>
  Per template: the catalogue's parameter satisfies the interface, and a value drawn from
  it does so exactly for the templates other than Royal Pair and Black Jack.
\<close>

lemma catalogue_param_typing:
  "k \<in> {0, 1, 2, 3, 4, 5, 6, 7, 8, 9} \<Longrightarrow> Some [(key, JArr xs)] = params (TASK_TEMPLATES ! k) \<Longrightarrow>
   param_typed key (JArr xs) \<and> (\<forall>x\<in>set xs. param_typed key x \<longleftrightarrow> k \<notin> {3, 7})"
  by (elim insertE emptyE; simp add: TASK_TEMPLATES_def pair_ranks_def RANKS_def param_typed_def)

lemma catalogue_param_index:
  "k < 10 \<Longrightarrow> params (TASK_TEMPLATES ! k) = Some ps \<Longrightarrow>
   \<exists>key xs. ps = [(key, JArr xs)] \<and> xs \<noteq> [] \<and> param_typed key (JArr xs) \<and>
      (\<forall>x\<in>set xs. param_typed key x \<longleftrightarrow> k \<notin> {3, 7})"
proof -
  assume k: "k < 10" and p: "params (TASK_TEMPLATES ! k) = Some ps"
  then obtain key xs where ps: "ps = [(key, JArr xs)]" "xs \<noteq> []"
    using catalogue_params_shape [of "TASK_TEMPLATES ! k" ps] by auto
  have "k \<in> {0, 1, 2, 3, 4, 5, 6, 7, 8, 9}" using k by auto
  with p ps show ?thesis using catalogue_param_typing [of k key xs] by auto
qed

section \<open>Properties of the typing\<close>

text \<open>
  C8: the parameter loop of lines 182--188 leaves the \<open>TaskParams\<close> interface exactly for
  Royal Pair and Black Jack. For a template with parameters, whatever \<open>Math.random\<close>
  returns, the object it resolves satisfies the interface iff the template is not 3 or 7.
  For those two, a single string is stored where the interface declares \<open>string[]\<close>:
  this is the value on which line 193 or 208 calls \<open>join\<close>.
\<close>

theorem resolve_typing:
  assumes "random_ok rs" "k < 10" "params (TASK_TEMPLATES ! k) = Some ps"
  shows "TaskParams_typed ps \<and>
         (TaskParams_typed (fst (snd (resolve_params ps (template (TASK_TEMPLATES ! k)) [] rs))) \<longleftrightarrow>
          k \<notin> {3, 7})"
proof -
  obtain key xs where ps: "ps = [(key, JArr xs)]" "xs \<noteq> []" "param_typed key (JArr xs)"
      and x: "\<forall>x\<in>set xs. param_typed key x \<longleftrightarrow> k \<notin> {3, 7}"
    using catalogue_param_index [OF assms(2,3)] by blast
  obtain x where "x \<in> set xs"
      "fst (snd (resolve_params [(key, JArr xs)] (template (TASK_TEMPLATES ! k)) [] rs)) = [(key, x)]"
    using resolve_one_param [OF assms(1) ps(2)] by blast
  with ps x show ?thesis by (simp add: TaskParams_typed_def)
qed

theorem resolve_typing_witness:
  "random_ok (sconst 0) \<and> (3::nat) < 10 \<and>
   params (TASK_TEMPLATES ! 3) = Some [(''royalRanks'', JArr (map JStr [''J'', ''Q'', ''K'', ''A'']))] \<and>
   \<not> TaskParams_typed (fst (snd (resolve_params [(''royalRanks'', JArr (map JStr [''J'', ''Q'', ''K'', ''A'']))]
        (template (TASK_TEMPLATES ! 3)) [] (sconst 0))))"
proof -
  have ok: "random_ok (sconst 0)" by (simp add: rng_simps)
  have p: "params (TASK_TEMPLATES ! 3) = Some [(''royalRanks'', JArr (map JStr [''J'', ''Q'', ''K'', ''A'']))]"
    by (simp add: TASK_TEMPLATES_def)
  show ?thesis using resolve_typing [OF ok _ p] ok p by simp
qed

text \<open>
  C16: in every reachable state, the parameters of the current task satisfy the
  \<open>TaskParams\<close> interface: the ill-typed objects of Royal Pair and Black Jack are never
  stored, because their callback throws first.
\<close>

theorem reachable_task_typed:
  assumes "reachable s"
  shows "TaskParams_typed (taskParams (currentTask s))"
proof -
  have "task_ok (currentTask s)" using reachable_app_inv [OF assms] by (simp add: app_inv_def)
  then consider "currentTask s = initialTask"
    | k where "k \<in> {0, 1, 2, 4, 5, 6, 8, 9}"
        "rendered_from (TASK_TEMPLATES ! k) (task_text (currentTask s)) (taskParams (currentTask s))"
    unfolding task_ok_def by blast
  then show ?thesis
  proof cases
    case 1
    then show ?thesis by (simp add: initialTask_def TaskParams_typed_def)
  next
    case (2 k)
    then have "k \<in> {0, 1, 2, 3, 4, 5, 6, 7, 8, 9}" by auto
    with 2 show ?thesis
      using catalogue_param_typing [of k] by (auto simp: rendered_from_def TaskParams_typed_def)
  qed
qed

theorem reachable_task_typed_witness:
  "reachable (init_state (sconst 0)) \<and> TaskParams_typed (taskParams (currentTask (init_state (sconst 0))))"
proof -
  have r: "reachable (init_state (sconst 0))" by (rule reachable.start) (simp add: rng_simps)
  show ?thesis using reachable_task_typed [OF r] r by simp
qed

end
