(* ===== verification/FisherYates.thy ===== *)
theory FisherYates
  imports Shuffle
begin

text \<open>
  Why the Fisher--Yates loop of \<open>shuffleDeck\<close> (lines 153--159 of \<open>src/src/App.tsx\<close>) is
  unbiased. \<open>shuffle_idx\<close> is the same loop with each draw replaced by the index \<open>j\<close> it
  selects, and \<open>draw_indices\<close> reads those indices off the random stream (line 155).
  The specification asks for every permutation to be equally likely given a uniform random
  source (spec.md, section 4.1). This theory proves the two facts that give it without
  measure theory. First, each index \<open>j \<le> i\<close> of iteration \<open>i\<close> is selected by an interval
  of draws of the same width \<open>1 / (i + 1)\<close>. Second, on a deck of distinct cards the map
  from index sequences to results is a bijection onto the permutations of the deck, and
  there are \<open>n!\<close> index sequences.
\<close>

section \<open>The loop over selected indices\<close>

fun shuffle_idx :: "nat \<Rightarrow> 'a list \<Rightarrow> nat list \<Rightarrow> 'a list" where
  "shuffle_idx 0 deck js = deck"
| "shuffle_idx (Suc k) deck [] = deck"
| "shuffle_idx (Suc k) deck (j # js) = shuffle_idx k (swap deck (Suc k) j) js"

fun draw_indices :: "nat \<Rightarrow> rng \<Rightarrow> nat list" where
  "draw_indices 0 rs = []"
| "draw_indices (Suc k) rs = rand_index (shd rs) (Suc k + 1) # draw_indices k (stl rs)"

text \<open>The index sequences the loop can draw: at iteration \<open>i\<close>, an index \<open>j \<le> i\<close>.\<close>

fun valid_idx :: "nat \<Rightarrow> nat list \<Rightarrow> bool" where
  "valid_idx 0 js = (js = [])"
| "valid_idx (Suc k) [] = False"
| "valid_idx (Suc k) (j # js) = (j \<le> Suc k \<and> valid_idx k js)"

text \<open>
  Values of \<open>Math.random\<close> that make the loop draw a given index list: at iteration
  \<open>i\<close>, the value \<open>j / (i + 1)\<close> selects \<open>j\<close>.
\<close>

fun draws_for :: "nat \<Rightarrow> nat list \<Rightarrow> real list" where
  "draws_for 0 js = []"
| "draws_for (Suc k) [] = []"
| "draws_for (Suc k) (j # js) = real j / real (Suc k + 1) # draws_for k js"

section \<open>Lemmas on the loop\<close>

lemma shuffle_loop_idx:
  "shuffle_loop k deck rs = (shuffle_idx k deck (draw_indices k rs), sdrop k rs)"
  by (induction k arbitrary: deck rs) (simp_all add: math_random_def)

lemma draw_indices_valid: "random_ok rs \<Longrightarrow> valid_idx k (draw_indices k rs)"
proof (induction k arbitrary: rs)
  case 0
  then show ?case by simp
next
  case (Suc k)
  have "rand_index (shd rs) (Suc k + 1) < Suc k + 1"
    using random_ok_shd [OF Suc.prems] by (intro rand_index_less) simp_all
  then show ?case using Suc.IH [of "stl rs"] Suc.prems by (simp add: random_ok_stl)
qed

lemma valid_idx_Cons_iff:
  "valid_idx (Suc k) js \<longleftrightarrow> (\<exists>j js'. js = j # js' \<and> j \<le> Suc k \<and> valid_idx k js')"
  by (cases js) simp_all

lemma length_shuffle_idx [simp]: "length (shuffle_idx k deck js) = length deck"
  by (induction k deck js rule: shuffle_idx.induct) simp_all

lemma swap_append:
  "i < length zs \<Longrightarrow> j < length zs \<Longrightarrow> swap (zs @ [z]) i j = swap zs i j @ [z]"
  by (simp add: swap_def list_update_append nth_append)

text \<open>Iterations below index \<open>k\<close> never touch the cells above it.\<close>

lemma shuffle_idx_append:
  "valid_idx k js \<Longrightarrow> k < length zs \<Longrightarrow> shuffle_idx k (zs @ [z]) js = shuffle_idx k zs js @ [z]"
proof (induction k arbitrary: zs js)
  case 0
  then show ?case by simp
next
  case (Suc k)
  then obtain j js' where js: "js = j # js'" "j \<le> Suc k" "valid_idx k js'"
    by (auto simp: valid_idx_Cons_iff)
  with Suc.prems show ?case by (simp add: swap_append Suc.IH)
qed

lemma mset_shuffle_idx:
  "valid_idx k js \<Longrightarrow> k < length xs \<Longrightarrow> mset (shuffle_idx k xs js) = mset xs"
proof (induction k arbitrary: xs js)
  case 0
  then show ?case by simp
next
  case (Suc k)
  then obtain j js' where js: "js = j # js'" "j \<le> Suc k" "valid_idx k js'"
    by (auto simp: valid_idx_Cons_iff)
  with Suc.prems show ?case by (simp add: Suc.IH mset_swap_cells)
qed

text \<open>
  One iteration at the top index \<open>Suc k\<close> fixes the last cell to the card at \<open>j\<close>; the
  rest of the loop shuffles the cells below it.
\<close>

lemma shuffle_idx_step:
  assumes "length xs = Suc (Suc k)" "j \<le> Suc k" "valid_idx k js"
  shows "shuffle_idx (Suc k) xs (j # js) = shuffle_idx k (butlast (swap xs (Suc k) j)) js @ [xs ! j]"
proof -
  have len: "length (swap xs (Suc k) j) = Suc (Suc k)" using assms(1) by simp
  then have "swap xs (Suc k) j = butlast (swap xs (Suc k) j) @ [swap xs (Suc k) j ! Suc k]"
    by (metis append_butlast_last_id last_conv_nth length_0_conv nat.distinct(1) diff_Suc_1)
  moreover have "swap xs (Suc k) j ! Suc k = xs ! j" using assms(1,2) by (simp add: nth_swap)
  ultimately have "swap xs (Suc k) j = butlast (swap xs (Suc k) j) @ [xs ! j]" by simp
  moreover have "k < length (butlast (swap xs (Suc k) j))" using len by simp
  ultimately show ?thesis using assms(3) shuffle_idx_append by (metis shuffle_idx.simps(3))
qed

lemma distinct_butlast_swap:
  assumes "distinct xs" "i < length xs" "j < length xs"
  shows "distinct (butlast (swap xs i j))"
proof -
  have "set (swap xs i j) = set xs" using mset_swap_cells [OF assms(2,3)] by (metis set_mset_mset)
  then have "distinct (swap xs i j)" using assms(1) by (metis card_distinct distinct_card length_swap)
  then show ?thesis by (rule distinct_butlast)
qed

lemma shuffle_idx_inj:
  "distinct xs \<Longrightarrow> length xs = Suc k \<Longrightarrow> inj_on (shuffle_idx k xs) {js. valid_idx k js}"
proof (induction k arbitrary: xs)
  case 0
  then show ?case by (simp add: inj_on_def)
next
  case (Suc k)
  show ?case
  proof (rule inj_onI)
    fix js1 js2 assume v1: "js1 \<in> {js. valid_idx (Suc k) js}" and v2: "js2 \<in> {js. valid_idx (Suc k) js}"
      and eq: "shuffle_idx (Suc k) xs js1 = shuffle_idx (Suc k) xs js2"
    obtain j1 r1 where js1: "js1 = j1 # r1" "j1 \<le> Suc k" "valid_idx k r1"
      using v1 by (auto simp: valid_idx_Cons_iff)
    obtain j2 r2 where js2: "js2 = j2 # r2" "j2 \<le> Suc k" "valid_idx k r2"
      using v2 by (auto simp: valid_idx_Cons_iff)
    have e1: "shuffle_idx (Suc k) xs js1 = shuffle_idx k (butlast (swap xs (Suc k) j1)) r1 @ [xs ! j1]"
      unfolding js1(1) by (rule shuffle_idx_step [OF Suc.prems(2) js1(2,3)])
    have e2: "shuffle_idx (Suc k) xs js2 = shuffle_idx k (butlast (swap xs (Suc k) j2)) r2 @ [xs ! j2]"
      unfolding js2(1) by (rule shuffle_idx_step [OF Suc.prems(2) js2(2,3)])
    from eq have
      "shuffle_idx k (butlast (swap xs (Suc k) j1)) r1 @ [xs ! j1] =
       shuffle_idx k (butlast (swap xs (Suc k) j2)) r2 @ [xs ! j2]"
      unfolding e1 e2 .
    then have last: "xs ! j1 = xs ! j2"
      and pre: "shuffle_idx k (butlast (swap xs (Suc k) j1)) r1 = shuffle_idx k (butlast (swap xs (Suc k) j2)) r2"
      by simp_all
    have "j1 = j2" using last Suc.prems js1(2) js2(2) by (simp add: nth_eq_iff_index_eq)
    moreover have "distinct (butlast (swap xs (Suc k) j1))" "length (butlast (swap xs (Suc k) j1)) = Suc k"
      using Suc.prems js1(2) by (simp_all add: distinct_butlast_swap)
    ultimately have "r1 = r2"
      using Suc.IH [THEN inj_onD] pre js1(3) js2(3) by blast
    with \<open>j1 = j2\<close> js1 js2 show "js1 = js2" by simp
  qed
qed

lemma shuffle_idx_onto:
  "distinct xs \<Longrightarrow> length xs = Suc k \<Longrightarrow> mset ys = mset xs \<Longrightarrow>
   \<exists>js. valid_idx k js \<and> shuffle_idx k xs js = ys"
proof (induction k arbitrary: xs ys)
  case 0
  then obtain x where "xs = [x]" by (cases xs) auto
  with 0 have "ys = xs" by (cases ys) (auto simp: add_mset_eq_single)
  then show ?case by simp
next
  case (Suc k)
  have ly: "length ys = Suc (Suc k)" using Suc.prems by (metis size_mset)
  then have ne: "ys \<noteq> []" by auto
  define y where "y = last ys"
  have ys: "ys = butlast ys @ [y]" using ne by (simp add: y_def)
  have "y \<in> set ys" using ne by (simp add: y_def)
  then have "y \<in> set xs" using Suc.prems(3) by (metis set_mset_mset)
  then obtain j where j: "j < length xs" "xs ! j = y" by (auto simp: in_set_conv_nth)
  let ?P = "butlast (swap xs (Suc k) j)"
  have jk: "j \<le> Suc k" using j Suc.prems(2) by simp
  have sw: "swap xs (Suc k) j = ?P @ [y]"
  proof -
    have ne': "swap xs (Suc k) j \<noteq> []" using Suc.prems(2) by (metis length_swap length_0_conv nat.distinct(1))
    have "last (swap xs (Suc k) j) = swap xs (Suc k) j ! Suc k"
      using ne' Suc.prems(2) by (simp add: last_conv_nth)
    also have "\<dots> = y" using j Suc.prems(2) by (simp add: nth_swap)
    finally show ?thesis using ne' by (metis append_butlast_last_id)
  qed
  have "mset xs = mset (swap xs (Suc k) j)"
    using mset_swap_cells [of "Suc k" xs j] Suc.prems(2) j(1) by simp
  also have "\<dots> = mset (?P @ [y])" by (rule arg_cong [OF sw])
  also have "\<dots> = add_mset y (mset ?P)" by simp
  finally have "mset xs = add_mset y (mset ?P)" .
  moreover have "mset ys = add_mset y (mset (butlast ys))"
    using arg_cong [OF ys, of mset] by simp
  ultimately have "mset (butlast ys) = mset ?P" using Suc.prems(3) by simp
  moreover have "distinct ?P" "length ?P = Suc k"
    using Suc.prems j(1) by (simp_all add: distinct_butlast_swap)
  ultimately obtain r where r: "valid_idx k r" "shuffle_idx k ?P r = butlast ys"
    using Suc.IH by blast
  have "shuffle_idx (Suc k) xs (j # r) = ys"
    using shuffle_idx_step [OF Suc.prems(2) jk r(1)] r(2) j(2) ys by simp
  with jk r(1) show ?case by (intro exI [of _ "j # r"]) simp
qed

lemma valid_idx_count: "finite {js. valid_idx k js} \<and> card {js. valid_idx k js} = fact (Suc k)"
proof (induction k)
  case 0
  have "{js. valid_idx 0 js} = {[]}" by auto
  then show ?case by simp
next
  case (Suc k)
  have set: "{js. valid_idx (Suc k) js} = (\<lambda>(j, js). j # js) ` ({..Suc k} \<times> {js. valid_idx k js})"
    by (auto simp: valid_idx_Cons_iff image_iff)
  have inj: "inj_on (\<lambda>(j, js). j # js) ({..Suc k} \<times> {js. valid_idx k js})"
    by (auto simp: inj_on_def)
  have "card {js. valid_idx (Suc k) js} = Suc (Suc k) * fact (Suc k)"
    unfolding set card_image [OF inj] card_cartesian_product using Suc.IH by simp
  then show ?case using Suc.IH set by (simp add: fact_Suc [of "Suc k"])
qed

text \<open>The draws that select index \<open>j\<close> out of \<open>n\<close>: an interval of width \<open>1 / n\<close>.\<close>

lemma rand_index_interval:
  assumes "j < n"
  shows "{r. 0 \<le> r \<and> r < 1 \<and> rand_index r n = j} = {real j / real n..<real (Suc j) / real n}"
proof -
  have n: "0 < real n" using assms by simp
  have jn: "real j + 1 \<le> real n" using assms by simp
  have lo: "real j / real n \<le> r \<longleftrightarrow> real j \<le> r * real n" for r
    using n by (simp add: divide_le_eq)
  have hi: "r < real (Suc j) / real n \<longleftrightarrow> r * real n < real j + 1" for r
    using n by (simp add: less_divide_eq add.commute)
  have fl: "0 \<le> r \<Longrightarrow> rand_index r n = j \<longleftrightarrow> real j \<le> r * real n \<and> r * real n < real j + 1" for r
    by (simp add: rand_index_def nat_eq_iff floor_eq_iff)
  have iff: "0 \<le> r \<and> r < 1 \<and> rand_index r n = j \<longleftrightarrow> real j / real n \<le> r \<and> r < real (Suc j) / real n" for r
  proof
    assume a: "0 \<le> r \<and> r < 1 \<and> rand_index r n = j"
    then have "real j \<le> r * real n \<and> r * real n < real j + 1" using fl [of r] by simp
    then show "real j / real n \<le> r \<and> r < real (Suc j) / real n" by (simp only: lo hi)
  next
    assume a: "real j / real n \<le> r \<and> r < real (Suc j) / real n"
    then have b: "real j \<le> r * real n" "r * real n < real j + 1" by (simp_all only: lo hi)
    have r0: "0 \<le> r" using a n by (meson divide_nonneg_nonneg of_nat_0_le_iff order_trans)
    have "r * real n < real n" using b(2) jn by linarith
    then have "r < 1" using n by (simp add: mult_less_cancel_right2)
    moreover have "rand_index r n = j" using fl [OF r0] b by simp
    ultimately show "0 \<le> r \<and> r < 1 \<and> rand_index r n = j" using r0 by simp
  qed
  show ?thesis by (simp only: set_eq_iff mem_Collect_eq atLeastLessThan_iff iff) simp
qed

lemma map_swap: "i < length xs \<Longrightarrow> j < length xs \<Longrightarrow> map f (swap xs i j) = swap (map f xs) i j"
  by (simp add: swap_def map_update)

text \<open>Shuffling the cards is shuffling their positions and reading the cards back.\<close>

lemma shuffle_idx_map:
  "valid_idx k js \<Longrightarrow> k < length xs \<Longrightarrow> shuffle_idx k (map f xs) js = map f (shuffle_idx k xs js)"
proof (induction k arbitrary: xs js)
  case 0
  then show ?case by simp
next
  case (Suc k)
  then obtain j js' where js: "js = j # js'" "j \<le> Suc k" "valid_idx k js'"
    by (auto simp: valid_idx_Cons_iff)
  have "swap (map f xs) (Suc k) j = map f (swap xs (Suc k) j)"
    using Suc.prems js(2) by (simp add: map_swap)
  with js Suc.prems show ?case by (simp add: Suc.IH)
qed

text \<open>Every valid index list is drawn by some stream of values in \<open>[0, 1)\<close>.\<close>

lemma draws_for_realise:
  "valid_idx k js \<Longrightarrow> draw_indices k (draws_for k js @- rs) = js \<and> sdrop k (draws_for k js @- rs) = rs"
proof (induction k arbitrary: js)
  case 0
  then show ?case by simp
next
  case (Suc k)
  then obtain j js' where js: "js = j # js'" "j \<le> Suc k" "valid_idx k js'"
    by (auto simp: valid_idx_Cons_iff)
  then have "rand_index (real j / real (Suc k + 1)) (Suc k + 1) = j" by (intro rand_index_exact) simp
  with js Suc.IH [OF js(3)] show ?case by simp
qed

lemma draws_for_range: "valid_idx k js \<Longrightarrow> r \<in> set (draws_for k js) \<Longrightarrow> 0 \<le> r \<and> r < 1"
proof (induction k js rule: draws_for.induct)
  case (3 k j js)
  then show ?case by (auto simp: divide_less_eq)
qed simp_all

lemma draws_for_ok: "valid_idx k js \<Longrightarrow> random_ok rs \<Longrightarrow> random_ok (draws_for k js @- rs)"
  using draws_for_range by (simp add: random_ok_shift)

text \<open>A list with the multiset of \<open>map f xs\<close> is \<open>f\<close> applied to a rearrangement of \<open>xs\<close>.\<close>

lemma mset_map_obtain: "mset ys = mset (map f xs) \<Longrightarrow> \<exists>zs. mset zs = mset xs \<and> ys = map f zs"
proof (induction ys arbitrary: xs)
  case Nil
  then show ?case by simp
next
  case (Cons y ys)
  have "y \<in> set (map f xs)" using Cons.prems by (metis list.set_intros(1) set_mset_mset)
  then obtain x where x: "x \<in> set xs" "f x = y" by auto
  have "mset xs = add_mset x (mset (remove1 x xs))" using x(1) by (simp add: insert_DiffM)
  then have "mset (map f xs) = add_mset y (mset (map f (remove1 x xs)))"
    using x(2) by (metis mset_map image_mset_add_mset)
  then have "mset ys = mset (map f (remove1 x xs))" using Cons.prems by simp
  then obtain zs where zs: "mset zs = mset (remove1 x xs)" "ys = map f zs" using Cons.IH by blast
  have "mset (x # zs) = mset xs" using zs(1) x(1) by simp
  with zs(2) x(2) show ?case by (intro exI [of _ "x # zs"]) simp
qed

lemma mset_shuffleDeck: "random_ok rs \<Longrightarrow> mset (fst (shuffleDeck deck rs)) = mset deck"
proof (cases deck)
  case Nil
  then show ?thesis by (simp add: shuffleDeck_def)
next
  case (Cons c cs)
  then show "random_ok rs \<Longrightarrow> ?thesis"
    using mset_shuffle_loop [of "length deck - 1" deck rs] by (simp add: shuffleDeck_def)
qed

section \<open>Properties of the shuffle's distribution\<close>

text \<open>
  C27: on a deck of distinct cards, the loop driven by index sequences is a bijection from
  the \<open>n!\<close> index sequences it can draw (\<open>j \<le> i\<close> at iteration \<open>i\<close>) onto the permutations
  of the deck. Every permutation is produced by exactly one index sequence, which is the
  combinatorial content of the specification's "every permutation is equally likely".
\<close>

theorem fisher_yates_bijection:
  assumes "distinct xs" "xs \<noteq> []"
  shows "bij_betw (shuffle_idx (length xs - 1) xs) {js. valid_idx (length xs - 1) js} {ys. mset ys = mset xs} \<and>
         card {js. valid_idx (length xs - 1) js} = fact (length xs)"
proof -
  obtain k where k: "length xs = Suc k" using assms(2) by (cases xs) auto
  have "shuffle_idx k xs ` {js. valid_idx k js} = {ys. mset ys = mset xs}"
  proof
    show "shuffle_idx k xs ` {js. valid_idx k js} \<subseteq> {ys. mset ys = mset xs}"
      using k by (auto intro: mset_shuffle_idx)
    show "{ys. mset ys = mset xs} \<subseteq> shuffle_idx k xs ` {js. valid_idx k js}"
      using shuffle_idx_onto [OF assms(1) k] by blast
  qed
  moreover have "inj_on (shuffle_idx k xs) {js. valid_idx k js}"
    using assms(1) k by (rule shuffle_idx_inj)
  ultimately show ?thesis using k valid_idx_count [of k] by (simp add: bij_betw_def)
qed

theorem fisher_yates_bijection_witness:
  "distinct [1, 2, 3 :: nat] \<and> [1, 2, 3 :: nat] \<noteq> [] \<and> card {js. valid_idx 2 js} = 6 \<and>
   bij_betw (shuffle_idx 2 [1, 2, 3 :: nat]) {js. valid_idx 2 js} {ys. mset ys = mset [1, 2, 3 :: nat]}"
  using fisher_yates_bijection [of "[1, 2, 3 :: nat]"] by (simp add: numeral_eq_Suc)

text \<open>
  C28: for a deck of distinct cards, the outcomes of \<open>shuffleDeck\<close> over all sequences of
  \<open>Math.random\<close> values in \<open>[0, 1)\<close> are exactly the permutations of the deck: no
  permutation is out of reach, and nothing else comes out. A draw that omits the current
  index (\<open>Math.random() * i\<close>) never leaves the last card in place.
\<close>

theorem shuffleDeck_all_permutations:
  assumes "distinct deck"
  shows "{fst (shuffleDeck deck rs) |rs. random_ok rs} = {ys. mset ys = mset deck}"
proof
  show "{fst (shuffleDeck deck rs) |rs. random_ok rs} \<subseteq> {ys. mset ys = mset deck}"
    using mset_shuffleDeck by blast
next
  have loop: "shuffle_loop k xs rs = (shuffle_idx k xs (draw_indices k rs), sdrop k rs)" for k xs rs
    by (induction k arbitrary: xs rs) (simp_all add: math_random_def)
  show "{ys. mset ys = mset deck} \<subseteq> {fst (shuffleDeck deck rs) |rs. random_ok rs}"
  proof
    fix ys assume "ys \<in> {ys. mset ys = mset deck}"
    then have ys: "mset ys = mset deck" by simp
    show "ys \<in> {fst (shuffleDeck deck rs) |rs. random_ok rs}"
    proof (cases deck)
      case Nil
      then have "ys = []" using ys by simp
      moreover have "random_ok (sconst (0::real))" by (simp add: rng_simps)
      ultimately show ?thesis using Nil by (auto simp: shuffleDeck_def)
    next
      case (Cons c cs)
      then have len: "length deck = Suc (length deck - 1)" by simp
      obtain js where js: "valid_idx (length deck - 1) js" "shuffle_idx (length deck - 1) deck js = ys"
        using shuffle_idx_onto [OF assms len ys] by blast
      let ?rs = "draws_for (length deck - 1) js @- sconst 0"
      have "random_ok (sconst (0::real))" by (simp add: rng_simps)
      then have "random_ok ?rs" using js(1) by (intro draws_for_ok)
      moreover have "fst (shuffleDeck deck ?rs) = ys"
        using draws_for_realise [OF js(1)] js(2) by (simp add: shuffleDeck_def loop)
      ultimately show ?thesis by blast
    qed
  qed
qed

theorem shuffleDeck_all_permutations_witness:
  "distinct [1, 2, 3 :: nat] \<and> (\<exists>rs. random_ok rs \<and> fst (shuffleDeck [1, 2, 3 :: nat] rs) = [3, 2, 1])"
proof -
  have d: "distinct [1, 2, 3 :: nat]" by simp
  have "[3, 2, 1] \<in> {fst (shuffleDeck [1, 2, 3 :: nat] rs) |rs. random_ok rs}"
    unfolding shuffleDeck_all_permutations [OF d] by simp
  then have "\<exists>rs. random_ok rs \<and> fst (shuffleDeck [1, 2, 3 :: nat] rs) = [3, 2, 1]" by auto
  with d show ?thesis by (rule conjI)
qed

text \<open>
  C29: \<open>Math.floor(Math.random() * n)\<close> selects index \<open>j < n\<close> exactly for the values in
  \<open>[j / n, (j + 1) / n)\<close>. These intervals all have width \<open>1 / n\<close>, so a uniform source
  selects every index of every iteration with the same probability.
\<close>

theorem draw_index_interval:
  "j < n \<Longrightarrow> {r. 0 \<le> r \<and> r < 1 \<and> rand_index r n = j} = {real j / real n..<real (Suc j) / real n}"
  by (rule rand_index_interval)

theorem draw_index_interval_witness:
  "(1::nat) < 4 \<and> {r. 0 \<le> r \<and> r < 1 \<and> rand_index r 4 = 1} = {1 / 4..<2 / 4}"
  using draw_index_interval [of 1 4] by simp

text \<open>
  C31: the hands a deal can produce are exactly the first 2, 3, 4 or 5 cards of a
  permutation of the fresh deck, as the specification describes \<open>dealHand\<close>: every such
  prefix comes out under some sequence of \<open>Math.random\<close> values in \<open>[0, 1)\<close>, and nothing
  else does.
\<close>

theorem deal_cards_outcomes:
  "{fst (deal_cards rs) |rs. random_ok rs} =
   {take n ys |n ys. n \<in> {2, 3, 4, 5} \<and> mset ys = mset getFreshDeck}"
proof
  show "{fst (deal_cards rs) |rs. random_ok rs} \<subseteq> {take n ys |n ys. n \<in> {2, 3, 4, 5} \<and> mset ys = mset getFreshDeck}"
  proof
    fix h assume "h \<in> {fst (deal_cards rs) |rs. random_ok rs}"
    then obtain rs where rs: "random_ok rs" "h = fst (deal_cards rs)" by blast
    let ?sh = "shuffleDeck getFreshDeck rs"
    let ?n = "rand_index (shd (snd ?sh)) 4 + 2"
    have r: "0 \<le> shd (snd ?sh) \<and> shd (snd ?sh) < 1"
      using random_ok_shd [OF shuffleDeck_rng [of rs getFreshDeck, OF rs(1)]] .
    have "rand_index (shd (snd ?sh)) 4 < 4" using r by (intro rand_index_less) simp_all
    then have n: "?n \<in> {2, 3, 4, 5}" by auto
    have m: "mset (fst ?sh) = mset getFreshDeck" using rs(1) by (rule mset_shuffleDeck)
    have "h = take ?n (fst ?sh)" using rs(2) by (simp only: deal_cards_unfold fst_conv)
    with n m show "h \<in> {take n ys |n ys. n \<in> {2, 3, 4, 5} \<and> mset ys = mset getFreshDeck}" by blast
  qed
next
  have loop: "shuffle_loop k xs rs = (shuffle_idx k xs (draw_indices k rs), sdrop k rs)" for k xs rs
    by (rule shuffle_loop_idx)
  show "{take n ys |n ys. n \<in> {2, 3, 4, 5} \<and> mset ys = mset getFreshDeck} \<subseteq> {fst (deal_cards rs) |rs. random_ok rs}"
  proof
    fix h assume "h \<in> {take n ys |n ys. n \<in> {2, 3, 4, 5} \<and> mset ys = mset getFreshDeck}"
    then obtain n ys where h: "h = take n ys" "n \<in> {2, 3, 4, 5}" "mset ys = mset getFreshDeck" by blast
    let ?idx = "[0..<length getFreshDeck]" and ?k = "length getFreshDeck - 1"
    have deck: "map ((!) getFreshDeck) ?idx = getFreshDeck" by (rule map_nth)
    have "mset ys = mset (map ((!) getFreshDeck) ?idx)" using h(3) by (simp only: deck)
    then obtain ps where ps: "mset ps = mset ?idx" "ys = map ((!) getFreshDeck) ps"
      using mset_map_obtain by blast
    have len: "length ?idx = Suc ?k" by (simp only: length_upt length_getFreshDeck)
    obtain js where js: "valid_idx ?k js" "shuffle_idx ?k ?idx js = ps"
      using shuffle_idx_onto [OF distinct_upt len ps(1)] by blast
    define r :: real where "r = real (n - 2) / 4"
    let ?rs = "draws_for ?k js @- r ## sconst 0"
    have n4: "n - 2 < 4" using h(2) by auto
    have "0 \<le> r \<and> r < 1" using n4 by (simp add: r_def divide_less_eq)
    then have "random_ok (r ## sconst 0)" by (simp add: rng_simps)
    then have ok: "random_ok ?rs" using js(1) by (intro draws_for_ok)
    have real: "draw_indices ?k ?rs = js" "sdrop ?k ?rs = r ## sconst 0"
      using draws_for_realise [OF js(1)] by simp_all
    have "fst (shuffleDeck getFreshDeck ?rs) = shuffle_idx ?k (map ((!) getFreshDeck) ?idx) js"
      by (simp only: shuffleDeck_def loop real deck fst_conv)
    also have "\<dots> = map ((!) getFreshDeck) (shuffle_idx ?k ?idx js)"
      using js(1) by (rule shuffle_idx_map) (simp only: len lessI)
    finally have sh1: "fst (shuffleDeck getFreshDeck ?rs) = ys" using js(2) ps(2) by simp
    have sh2: "snd (shuffleDeck getFreshDeck ?rs) = r ## sconst 0"
      by (simp only: shuffleDeck_def loop real snd_conv)
    have "rand_index r 4 + 2 = n"
      using rand_index_exact [of "n - 2" 4] n4 h(2) unfolding r_def by auto
    then have "fst (deal_cards ?rs) = h" using h(1) sh1 sh2 by (simp only: deal_cards_unfold fst_conv stream.sel(1))
    with ok show "h \<in> {fst (deal_cards rs) |rs. random_ok rs}" by blast
  qed
qed

theorem deal_cards_outcomes_witness:
  "\<exists>rs. random_ok rs \<and> fst (deal_cards rs) = take 5 getFreshDeck"
proof -
  have "take 5 getFreshDeck \<in> {fst (deal_cards rs) |rs. random_ok rs}"
    unfolding deal_cards_outcomes mem_Collect_eq
    by (intro exI [of _ 5] exI [of _ getFreshDeck] conjI refl) simp
  then obtain rs where "random_ok rs" "take 5 getFreshDeck = fst (deal_cards rs)" by blast
  then show ?thesis by metis
qed

end
