(* ===== verification/Selection.thy ===== *)
theory Selection
  imports Generate
begin

text \<open>
  Which tasks the timer callback of \<open>generateTask\<close> (lines 176--220 of
  \<open>src/src/App.tsx\<close>) can produce. The specification asks that \<open>selectTask\<close> exercise
  every catalogue entry (spec.md, section 8). This theory shows that the callback reaches
  every template other than Royal Pair and Black Jack, with every value of its parameter.
  With the rendering lemmas of \<open>Generate\<close>, the tasks the callback returns are exactly the
  rendered templates other than those two.
\<close>

section \<open>Lemmas on selection\<close>

text \<open>The draw \<open>k / 10\<close> selects template \<open>k\<close>, and \<open>i / n\<close> the \<open>i\<close>-th of \<open>n\<close> values.\<close>

lemma getRandomParamValue_index:
  "i < length xs \<Longrightarrow> getRandomParamValue (JArr xs) ((real i / real (length xs)) ## rs) = (xs ! i, rs)"
  by (simp add: getRandomParamValue_def math_random_def js_index_def rand_index_exact)

lemma generate_reaches_plain:
  assumes "k \<in> {0, 1, 2, 3, 4, 5, 6, 7, 8, 9}" "params (TASK_TEMPLATES ! k) = None"
  shows "generateTask_timeout ((real k / 10) ## rs) =
           (Inr \<lparr>task_text = template (TASK_TEMPLATES ! k), checkFn = check (TASK_TEMPLATES ! k),
                 taskParams = []\<rparr>, rs)"
proof -
  have k: "k < 10" using assms(1) by auto
  have "rand_index (shd ((real k / 10) ## rs)) 10 = k"
    using rand_index_exact [OF k] by simp
  then show ?thesis
    using generate_no_param [OF _ k assms(2)] display_cases_plain [OF assms] by simp
qed

lemma generate_reaches_param:
  assumes "k \<in> {1, 4, 5, 6, 9}" "params (TASK_TEMPLATES ! k) = Some [(key, JArr xs)]" "i < length xs"
  shows "generateTask_timeout ((real k / 10) ## (real i / real (length xs)) ## rs) =
           (Inr \<lparr>task_text = replace_all (placeholder key) (js_to_string (xs ! i)) (template (TASK_TEMPLATES ! k)),
                 checkFn = check (TASK_TEMPLATES ! k), taskParams = [(key, xs ! i)]\<rparr>, rs)"
proof -
  have k: "k < 10" using assms(1) by auto
  have idx: "rand_index (shd ((real k / 10) ## (real i / real (length xs)) ## rs)) 10 = k"
    using rand_index_exact [OF k] by simp
  have g: "getRandomParamValue (JArr xs) (stl ((real k / 10) ## (real i / real (length xs)) ## rs)) = (xs ! i, rs)"
    using assms(3) by (simp add: getRandomParamValue_index)
  have "xs ! i \<in> set xs" using assms(3) by simp
  then show ?thesis
    using generate_one_param_eq [OF idx k assms(2) g] display_cases_noop [OF assms(1) assms(2) [symmetric]]
    by simp
qed

text \<open>Every rendered template other than 3 and 7 is the outcome of some run.\<close>

lemma generate_reaches:
  assumes "k \<in> {0, 1, 2, 4, 5, 6, 8, 9}" "rendered_from (TASK_TEMPLATES ! k) tt tps"
  shows "\<exists>rs. random_ok rs \<and>
           fst (generateTask_timeout rs) = Inr \<lparr>task_text = tt, checkFn = check (TASK_TEMPLATES ! k), taskParams = tps\<rparr>"
proof -
  have k10: "k \<in> {0, 1, 2, 3, 4, 5, 6, 7, 8, 9}" and k1: "real k / 10 < 1" using assms(1) by auto
  consider "params (TASK_TEMPLATES ! k) = None" "tt = template (TASK_TEMPLATES ! k)" "tps = []"
    | key xs x where "params (TASK_TEMPLATES ! k) = Some [(key, JArr xs)]" "x \<in> set xs"
        "tt = replace_all (placeholder key) (js_to_string x) (template (TASK_TEMPLATES ! k))" "tps = [(key, x)]"
    using assms(2) unfolding rendered_from_def by (elim disjE exE conjE) blast+
  then show ?thesis
  proof cases
    case 1
    then show ?thesis
      using generate_reaches_plain [OF k10 1(1), of "sconst 0"] k1
      by (intro exI [of _ "(real k / 10) ## sconst 0"]) (simp add: rng_simps)
  next
    case (2 key xs x)
    obtain i where i: "i < length xs" "xs ! i = x" using 2(2) by (auto simp: in_set_conv_nth)
    have "k \<in> {1, 4, 5, 6, 9}" using params_Some_index [OF k10 2(1) [symmetric]] assms(1) by auto
    note run = generate_reaches_param [OF this 2(1) i(1), of "sconst 0"]
    have "real i / real (length xs) < 1" using i(1) by (simp add: divide_less_eq)
    then show ?thesis
      using run k1 i(2) 2(3,4)
      by (intro exI [of _ "(real k / 10) ## (real i / real (length xs)) ## sconst 0"]) (simp add: rng_simps)
  qed
qed

section \<open>Properties of selection\<close>

text \<open>
  C26: the tasks the generator can return are exactly the rendered templates other than
  Royal Pair and Black Jack: each such template with each value of its parameter is the
  outcome of some sequence of \<open>Math.random\<close> values in \<open>[0, 1)\<close>, and nothing else is.
\<close>

theorem generate_exactly_rendered:
  "(\<exists>rs. random_ok rs \<and> fst (generateTask_timeout rs) = Inr t) \<longleftrightarrow>
   (\<exists>k\<in>{0, 1, 2, 4, 5, 6, 8, 9}. checkFn t = check (TASK_TEMPLATES ! k) \<and>
      rendered_from (TASK_TEMPLATES ! k) (task_text t) (taskParams t))"
proof
  assume "\<exists>rs. random_ok rs \<and> fst (generateTask_timeout rs) = Inr t"
  then show "\<exists>k\<in>{0, 1, 2, 4, 5, 6, 8, 9}. checkFn t = check (TASK_TEMPLATES ! k) \<and>
      rendered_from (TASK_TEMPLATES ! k) (task_text t) (taskParams t)"
    using generate_Inr_catalogue by blast
next
  assume "\<exists>k\<in>{0, 1, 2, 4, 5, 6, 8, 9}. checkFn t = check (TASK_TEMPLATES ! k) \<and>
      rendered_from (TASK_TEMPLATES ! k) (task_text t) (taskParams t)"
  then obtain k where k: "k \<in> {0, 1, 2, 4, 5, 6, 8, 9}" "checkFn t = check (TASK_TEMPLATES ! k)"
      "rendered_from (TASK_TEMPLATES ! k) (task_text t) (taskParams t)" by blast
  then obtain rs where "random_ok rs" "fst (generateTask_timeout rs) =
      Inr \<lparr>task_text = task_text t, checkFn = check (TASK_TEMPLATES ! k), taskParams = taskParams t\<rparr>"
    using generate_reaches by blast
  moreover have "t = \<lparr>task_text = task_text t, checkFn = check (TASK_TEMPLATES ! k), taskParams = taskParams t\<rparr>"
    using k(2) by (cases t) simp
  ultimately show "\<exists>rs. random_ok rs \<and> fst (generateTask_timeout rs) = Inr t" by metis
qed

theorem generate_exactly_rendered_witness:
  "\<exists>rs. random_ok rs \<and> fst (generateTask_timeout rs) =
     Inr \<lparr>task_text = ''Find a pair of Js'', checkFn = check_rank_pair, taskParams = [(''rank'', JStr ''J'')]\<rparr>"
proof -
  have "rendered_from (TASK_TEMPLATES ! 6) ''Find a pair of Js'' [(''rank'', JStr ''J'')]"
    by (simp add: rendered_from_def TASK_TEMPLATES_def pair_ranks_def RANKS_def model_simps)
  moreover have "check (TASK_TEMPLATES ! 6) = check_rank_pair" by (simp add: TASK_TEMPLATES_def)
  ultimately show ?thesis
    using generate_exactly_rendered [of "\<lparr>task_text = ''Find a pair of Js'', checkFn = check_rank_pair,
                                         taskParams = [(''rank'', JStr ''J'')]\<rparr>"]
    by fastforce
qed

end
