(* ===== verification/Events.thy ===== *)
theory Events
  imports App
begin

text \<open>
  The event loop of \<open>src/src/App.tsx\<close> as an executable function. An event is a click on
  one of the two buttons (lines 255 and 272--283) or the run of one of the two timer
  callbacks (lines 176 and 231). \<open>app_event\<close> is the successor state, or \<open>None\<close> when the
  button is disabled (\<open>disabled={isShuffling}\<close>) or no such timer is pending; \<open>run\<close> feeds
  a list of events through it, in order. The lemmas relate \<open>run\<close> to the inductive
  \<open>app_step\<close> and characterise the order in which events can happen.
\<close>

section \<open>Events\<close>

datatype event = ClickNewMission | ClickDeal | FireGenerate | FireDeal

fun app_event :: "event \<Rightarrow> AppState \<Rightarrow> AppState option" where
  "app_event ClickNewMission s = (if isShuffling s then None else Some (generateTask s))"
| "app_event ClickDeal s = (if isShuffling s then None else Some (dealHand s))"
| "app_event FireGenerate s =
     (if GenerateTaskTimer \<in> set (timers s)
      then Some (generateTask_fire (s\<lparr>timers := remove1 GenerateTaskTimer (timers s)\<rparr>)) else None)"
| "app_event FireDeal s =
     (if DealHandTimer \<in> set (timers s)
      then Some (dealHand_fire (s\<lparr>timers := remove1 DealHandTimer (timers s)\<rparr>)) else None)"

fun run :: "event list \<Rightarrow> AppState \<Rightarrow> AppState option" where
  "run [] s = Some s"
| "run (e # es) s = (case app_event e s of None \<Rightarrow> None | Some t \<Rightarrow> run es t)"

text \<open>
  The orders the interface allows: each click is followed by the run of its own timer,
  and a list may end right after a click whose timer has not run yet.
\<close>

fun well_paired :: "event list \<Rightarrow> bool" where
  "well_paired [] = True"
| "well_paired [ClickNewMission] = True"
| "well_paired [ClickDeal] = True"
| "well_paired (ClickNewMission # FireGenerate # es) = well_paired es"
| "well_paired (ClickDeal # FireDeal # es) = well_paired es"
| "well_paired _ = False"

section \<open>Lemmas on the event loop\<close>

lemma app_step_iff_event: "app_step s t \<longleftrightarrow> (\<exists>e. app_event e s = Some t)"
proof
  assume "app_step s t"
  then show "\<exists>e. app_event e s = Some t"
  proof (cases rule: app_step.cases)
    case click_new_mission
    then show ?thesis by (intro exI [of _ ClickNewMission]) simp
  next
    case click_deal
    then show ?thesis by (intro exI [of _ ClickDeal]) simp
  next
    case fire_generate
    then show ?thesis by (intro exI [of _ FireGenerate]) simp
  next
    case fire_deal
    then show ?thesis by (intro exI [of _ FireDeal]) simp
  qed
next
  assume "\<exists>e. app_event e s = Some t"
  then obtain e where "app_event e s = Some t" by blast
  then show "app_step s t"
    by (cases e) (auto split: if_splits intro: app_step.intros)
qed

lemma run_append: "run (es1 @ es2) s = Option.bind (run es1 s) (run es2)"
  by (induction es1 arbitrary: s) (simp_all split: option.split)

lemma run_reachable: "reachable s \<Longrightarrow> run es s = Some t \<Longrightarrow> reachable t"
proof (induction es arbitrary: s)
  case Nil
  then show ?case by simp
next
  case (Cons e es)
  then obtain s1 where s1: "app_event e s = Some s1" "run es s1 = Some t"
    by (auto split: option.splits)
  then have "reachable s1" using Cons.prems(1) app_step_iff_event by (blast intro: reachable.step)
  then show ?case using Cons.IH s1(2) by blast
qed

lemma reachable_run: "reachable s \<Longrightarrow> \<exists>rs es. random_ok rs \<and> run es (init_state rs) = Some s"
proof (induction rule: reachable.induct)
  case (start rs)
  then show ?case by (intro exI [of _ rs] exI [of _ "[]"]) simp
next
  case (step s t)
  then obtain rs es e where "random_ok rs" "run es (init_state rs) = Some s" "app_event e s = Some t"
    using app_step_iff_event by blast
  then show ?case by (intro exI [of _ rs] exI [of _ "es @ [e]"]) (simp add: run_append)
qed

text \<open>From an idle state, the first event is a click, and after it only its own timer can run.\<close>

lemma idle_event:
  "timers s = [] \<Longrightarrow> app_event e s = Some s1 \<Longrightarrow>
   \<not> isShuffling s \<and> (e = ClickNewMission \<and> s1 = generateTask s \<or> e = ClickDeal \<and> s1 = dealHand s)"
  by (cases e) (auto split: if_splits)

lemma after_mission_event:
  "timers s = [] \<Longrightarrow> app_event e (generateTask s) = Some s2 \<Longrightarrow>
   e = FireGenerate \<and> s2 = generateTask_fire ((generateTask s)\<lparr>timers := []\<rparr>)"
  by (cases e) (auto simp: generateTask_def split: if_splits)

lemma after_deal_event:
  "timers s = [] \<Longrightarrow> app_event e (dealHand s) = Some s2 \<Longrightarrow>
   e = FireDeal \<and> s2 = dealHand_fire ((dealHand s)\<lparr>timers := []\<rparr>)"
  by (cases e) (auto simp: dealHand_def split: if_splits)

lemma run_Cons_Some:
  "run (e # es) s = Some t \<Longrightarrow> \<exists>s1. app_event e s = Some s1 \<and> run es s1 = Some t"
  by (auto split: option.splits)

text \<open>Every list of events the loop accepts from an idle state is well paired.\<close>

lemma run_well_paired_from:
  "app_inv s \<Longrightarrow> timers s = [] \<Longrightarrow> run es s = Some t \<Longrightarrow> well_paired es"
proof (induction "length es" arbitrary: es s rule: less_induct)
  case less
  show ?case
  proof (cases es)
    case Nil
    then show ?thesis by simp
  next
    case (Cons e es')
    obtain s1 where s1: "app_event e s = Some s1" "run es' s1 = Some t"
      using run_Cons_Some less.prems(3) Cons by blast
    have idle: "\<not> isShuffling s" and
      e: "e = ClickNewMission \<and> s1 = generateTask s \<or> e = ClickDeal \<and> s1 = dealHand s"
      using idle_event [OF less.prems(2) s1(1)] by blast+
    show ?thesis
    proof (cases es')
      case Nil
      then show ?thesis using Cons e by auto
    next
      case (Cons e2 es'')
      obtain s2 where s2: "app_event e2 s1 = Some s2" "run es'' s2 = Some t"
        using run_Cons_Some s1(2) Cons by blast
      have "app_step s1 s2" using s2(1) app_step_iff_event by blast
      moreover have "app_inv s1"
        using s1(1) less.prems(1) app_step_iff_event app_step_inv by blast
      ultimately have inv2: "app_inv s2" by (rule app_step_inv)
      have "(e = ClickNewMission \<and> e2 = FireGenerate \<or> e = ClickDeal \<and> e2 = FireDeal) \<and> timers s2 = []"
        using e
      proof (elim disjE conjE)
        assume "e = ClickNewMission" "s1 = generateTask s"
        with s2(1) show ?thesis using after_mission_event [OF less.prems(2), of e2 s2] by simp
      next
        assume "e = ClickDeal" "s1 = dealHand s"
        with s2(1) show ?thesis using after_deal_event [OF less.prems(2), of e2 s2] by simp
      qed
      moreover have "well_paired es''"
        using less.hyps [of es'' s2] inv2 s2(2) calculation \<open>es = e # es'\<close> Cons by simp
      ultimately show ?thesis using \<open>es = e # es'\<close> Cons by auto
    qed
  qed
qed

section \<open>Properties of the event loop\<close>

text \<open>
  C30: events happen only in the order click, its timer, click, its timer, \<dots>. Whatever
  \<open>Math.random\<close> returns, every list of events the application accepts from its initial
  state is well paired: no click happens while a timer is pending, and no timer runs
  without its click.
\<close>

theorem run_well_paired:
  "random_ok rs \<Longrightarrow> run es (init_state rs) = Some s \<Longrightarrow> well_paired es"
  using run_well_paired_from app_inv_init by (fastforce simp: init_state_def)

theorem run_well_paired_witness:
  "random_ok (sconst 0) \<and>
   run [ClickDeal, FireDeal] (init_state (sconst 0)) = Some (dealHand_fire ((dealHand (init_state (sconst 0)))\<lparr>timers := []\<rparr>)) \<and>
   well_paired [ClickDeal, FireDeal]"
proof -
  have ok: "random_ok (sconst 0)" by (simp add: rng_simps)
  have r: "run [ClickDeal, FireDeal] (init_state (sconst 0)) =
           Some (dealHand_fire ((dealHand (init_state (sconst 0)))\<lparr>timers := []\<rparr>))"
    by (simp add: init_state_def dealHand_def)
  show ?thesis using run_well_paired [OF ok r] ok r by simp
qed

end
