(* ===== verification/Spec2Isabelle.thy ===== *)
theory Spec2Isabelle
  imports Styles Typing FisherYates Selection Events
begin

text \<open>
  \<^bold>\<open>A verification development of the card scavenger hunt.\<close>
  The program is the React component \<open>App\<close> of \<open>src/src/App.tsx\<close>. It deals a random hand
  of 2 to 5 cards from a shuffled 54-card deck and shows a random "mission", a template
  text with a predicate over the hand. Its parts, and the theory that models each of them:

  \<^item> \<open>Prelude\<close>: what the components share. This is the model of \<open>Math.random\<close> as a
    stream of reals (\<open>rng\<close>, \<open>math_random\<close>), with the contract \<open>random_ok\<close> that every
    value lies in \<open>[0, 1)\<close>. It also holds \<open>rand_index r n\<close>, which is
    \<open>Math.floor(r * n)\<close>, and the array swap of line 156 (\<open>swap\<close>). Lemma collections
    \<open>model_simps\<close> and \<open>rng_simps\<close> carry the component proofs.
  \<^item> \<open>Cards\<close>: the constants \<open>SUITS\<close>, \<open>RANKS\<close> and \<open>RANK_VALUES\<close> (lines 6--11), the
    record \<open>CardType\<close> (13--18) and \<open>getFreshDeck\<close> (135--150).
  \<^item> \<open>JS\<close>: the JavaScript values the task code manipulates (\<open>jsval\<close>), a thrown
    \<open>TypeError\<close> as the left side of a sum, and the built-ins the code calls, at the
    argument shapes it passes them: property read, \<open>String\<close>, truthiness,
    \<open>Array.prototype.join\<close>/\<open>includes\<close>/\<open>filter\<close>/\<open>some\<close>,
    \<open>String.prototype.includes\<close>, and \<open>replace\<close> with a string (first occurrence) or
    a global regular expression (every occurrence).
  \<^item> \<open>Tasks\<close>: the catalogue \<open>TASK_TEMPLATES\<close> (lines 38--127), one definition per
    check callback (\<open>check_even_pair\<close> \<dots> \<open>check_odd\<close>). The loops of the sum and
    flush checks are recursive functions.
  \<^item> \<open>Shuffle\<close>: \<open>shuffleDeck\<close> (152--159) as the recursion \<open>shuffle_loop\<close> over the loop
    index, and the body of the deal timer (231--233) as \<open>deal_cards\<close>.
  \<^item> \<open>Generate\<close>: \<open>getRandomParamValue\<close> (161--168) and the body of the task timer
    (176--220) as \<open>generateTask_timeout\<close>. That body is composed of \<open>resolve_params\<close>
    (the \<open>for \<dots> in\<close> loop), \<open>join_case\<close>/\<open>scalar_case\<close> and \<open>display_cases\<close> (the
    seven special cases). It returns a \<open>CurrentTask\<close>, or the error the callback
    throws.
  \<^item> \<open>App\<close>: the component as a state machine. \<open>AppState\<close> holds the three \<open>useState\<close>
    hooks, the pending \<open>setTimeout\<close> callbacks and the random stream. The handlers
    \<open>generateTask\<close> and \<open>dealHand\<close> (171--175, 226--230) schedule a timer, and
    \<open>generateTask_fire\<close> and \<open>dealHand_fire\<close> run it. \<open>checkHandForTask\<close> is lines
    240--243. The inductive \<open>app_step\<close> is one event (a click on an enabled button, or
    the run of a pending timer) and \<open>reachable\<close> is its closure from the initial state.
  \<^item> \<open>View\<close>: what the component renders (lines 245--290) and the \<open>Card\<close> sub-component
    (293--307), as \<open>render\<close>. It maps a state to an \<open>AppView\<close>, or to the error of
    \<open>checkHandForTask\<close>, which every render evaluates.
  \<^item> \<open>Styles\<close>: the \<open>styles\<close> object (lines 310--443) as an association list per
    style, and the two style objects the JSX builds with a spread (\<open>card_style\<close>, lines
    296--300; \<open>deal_button_style\<close>, lines 273--279). JavaScript objects are association
    lists in insertion order, a property of a literal is \<open>AList.update\<close>, and
    \<open>obj_spread\<close> is \<open>{...base, k: v}\<close>.
  \<^item> \<open>Typing\<close>: the \<open>TaskParams\<close> interface (lines 20--27) as the predicate
    \<open>TaskParams_typed\<close> on parameter objects.
  \<^item> \<open>Events\<close>: the event loop as an executable function. \<open>app_event\<close> maps an event
    (a click on one of the two buttons, or the run of one of the two timers) to the
    successor state, or to \<open>None\<close> when the button is disabled or the timer is not
    pending. \<open>run\<close> feeds a list of events through it in order.
  \<^item> \<open>FisherYates\<close>: the loop of \<open>shuffleDeck\<close> as a function of the indices it draws.
    \<open>shuffle_idx\<close> applies the swaps, \<open>draw_indices\<close> computes the indices from the
    random stream, and \<open>valid_idx\<close> is the range each index can take.
  \<^item> \<open>Selection\<close>: which tasks the timer callback of \<open>generateTask\<close> can produce.
  \<^item> \<open>Rules\<close>: the specification's rule engine (spec.md, section 4.2) as an abstract
    specification. This is the tagged union \<open>RuleKind\<close> its design notes propose, with
    one predicate per catalogue row (\<open>rule_holds\<close>, over multisets of cards) and the
    parameter domains (\<open>spec_domain\<close>). The abstraction \<open>rule_of\<close> maps a template
    index and resolved parameters to a rule.

  \<^bold>\<open>What is proved.\<close>
  \<^item> \<open>App\<close>: the invariant \<open>app_inv\<close> holds in every reachable state, by rule induction.
    The completion check never throws on a reachable state. Dealing always completes.
  \<^item> The lock: a reachable state with \<open>isShuffling\<close> set and no step at all exists. After "New Mission" the application locks
    exactly when the draw selects the Royal Pair or Black Jack template. The callback
    then throws at \<open>join\<close> on a string, before \<open>setIsShuffling(false)\<close>, and both
    buttons stay disabled; \<open>View\<close> shows what the locked screen displays.
  \<^item> \<open>Generate\<close>: the generator throws exactly on those two templates. Every other task
    it returns is its template rendered with a value of its parameter.
  \<^item> \<open>Typing\<close> names the cause: resolution stores a single string where the interface
    declares \<open>string[]\<close>, exactly for those two templates. Every task a reachable state
    holds is well-typed.
  \<^item> Refinement (\<open>Rules\<close> and below): each check callback computes the predicate of its
    rule. Every generated task denotes a rule of the catalogue, with its parameter in the
    specification's domain or equal to the rank J, which the code admits and the
    specification excludes. In every reachable state, the application's completion check
    is the specification's \<open>evaluate\<close>, and "Mission Accomplished!" is shown only for a
    hand that satisfies the rule. A concrete game reaches that message.
  \<^item> \<open>Shuffle\<close>: the shuffle is a permutation. Its loop runs exactly \<open>length - 1\<close>
    iterations, and a deal reads exactly 54 random values. A deal is 2 to 5 cards of
    one fresh deck, and it may hold both (equal) jokers.
  \<^item> \<open>Events\<close>: every event list the application accepts from its initial state
    alternates a click with the run of that click's own timer (via the lemmas
    \<open>run_reachable\<close> and \<open>reachable_run\<close>, which relate \<open>run\<close> to \<open>reachable\<close>).
  \<^item> \<open>FisherYates\<close>: the shuffle is Fisher--Yates. \<open>shuffle_idx\<close> is a bijection from
    the index lists with \<open>j \<le> i\<close> at iteration \<open>i\<close> onto the permutations of a deck of
    distinct cards, so there are exactly \<open>n!\<close> of each. Index \<open>j\<close> of \<open>n\<close> is drawn
    exactly for the values of \<open>Math.random\<close> in \<open>[j/n, (j+1)/n)\<close>, an interval of
    length \<open>1/n\<close>. The outcomes of \<open>shuffleDeck\<close> over all valid streams are exactly the
    permutations of the deck (every index list is drawn by some stream,
    \<open>draws_for_realise\<close>), and the outcomes of a deal are exactly the first 2 to 5
    cards of a permutation of the fresh deck. Together, these give the uniformity the
    specification asks for under a uniform \<open>Math.random\<close>, stated combinatorially
    since no probability is modelled.
  \<^item> \<open>Selection\<close>: the tasks the generator can return are exactly the rendered
    templates other than Royal Pair and Black Jack, with every value of the parameter.
  \<^item> \<open>Styles\<close>: a spread is overridden by later properties (\<open>map_of_obj_spread\<close>).
    Every style the JSX reads is defined, and no style object has a duplicate key
    (\<open>styles_defined\<close>, a computation on the literal). In
    every reachable state, a card's style is \<open>styles.card\<close> with its colour (red, black
    or purple) and animation appended on the white background, and the deal button
    carries the colours of the completion state. \<open>smallButtonHover\<close> is never read.
  \<^item> \<open>Cards\<close>: the fresh deck has the shape the specification promises.
  \<^item> \<open>Tasks\<close>: the checks agree with the rules of the specification's catalogue, or
    differ from them where the code does.

  \<^bold>\<open>Modelling choices.\<close>
  \<^item> \<open>Math.random\<close> is an arbitrary stream that satisfies \<open>random_ok\<close>. Every
    property holds for every such stream, so no probability is claimed. The code's
    loops are bounded by the deck length and the parameter lists, so no fuel is
    needed: every function is total by structural recursion, or by a measure
    (\<open>replace_all\<close>).
  \<^item> Timers are modelled by their order only. The delays of 300 and 400 ms are not
    modelled: a callback runs at some later step, and the buttons are disabled
    while it is pending.
  \<^item> Strings are byte lists. The suit symbols are their UTF-8 bytes, which agree with
    JavaScript's UTF-16 strings on the equality and substring tests the code applies.
    The \<open>$\<close> patterns of \<open>String.prototype.replace\<close> are not modelled, since no
    replacement string the code builds contains \<open>$\<close>.
  \<^item> The comparison \<open>>=\<close> of the flush and odd checks (\<open>num_ge\<close>) is modelled for the
    numbers and \<open>undefined\<close> that reach it. JavaScript would also coerce a string or an
    array operand to a number; no template passes one, so the reachable behaviour is the
    same.
  \<^item> A card's animation delay \<open>index * 0.1\<close> is kept as the index in tenths of a
    second; the floating-point product and its printing are not modelled.

  \<^bold>\<open>Not modelled.\<close> How the browser applies the CSS values is not modelled: a
  style is the object React receives. The value of a card's \<open>animation\<close> is kept as the
  card's index (\<open>SlideIn\<close>), since the template literal prints the double
  \<open>index * 0.1\<close>, and floating-point arithmetic is not modelled. The keyframes of
  \<open>App.css\<close> are not in the repository. The static parts of the JSX (the title, labels,
  layout elements) carry no state. The view keeps every part of the JSX that depends on
  the state. React's scheduling of re-renders is not modelled: a render is \<open>render\<close>
  applied to the current state.
\<close>

section \<open>The application refines the specification's evaluation\<close>

text \<open>
  C6: in every reachable state, the completion check the application evaluates on each
  render is the specification's \<open>evaluate\<close>. Before a task exists it returns false.
  Afterwards it returns false on an empty hand, and otherwise the predicate of the
  catalogue rule that the task's template and parameters denote, whose parameter lies in
  the specification's domain or is the rank J.
\<close>

theorem app_refines_evaluate:
  assumes "reachable s"
  shows "(currentTask s = initialTask \<and> checkHandForTask s = Inr False) \<or>
         (\<exists>k R. checkFn (currentTask s) = check (TASK_TEMPLATES ! k) \<and>
                rule_of k (taskParams (currentTask s)) = Some R \<and> (spec_domain R \<or> R = RankPair ''J'') \<and>
                checkHandForTask s = Inr (hand s \<noteq> [] \<and> rule_holds R (hand s)))"
proof -
  have "task_ok (currentTask s)" using reachable_app_inv [OF assms] by (simp add: app_inv_def)
  then consider "currentTask s = initialTask"
    | k where "k \<in> {0, 1, 2, 4, 5, 6, 8, 9}" "checkFn (currentTask s) = check (TASK_TEMPLATES ! k)"
        "rendered_from (TASK_TEMPLATES ! k) (task_text (currentTask s)) (taskParams (currentTask s))"
    unfolding task_ok_def by blast
  then show ?thesis
  proof cases
    case 1
    then show ?thesis by (simp add: checkHandForTask_def initialTask_def)
  next
    case (2 k)
    then obtain R where "rule_of k (taskParams (currentTask s)) = Some R" "spec_domain R \<or> R = RankPair ''J''"
        "\<forall>h. check (TASK_TEMPLATES ! k) h (taskParams (currentTask s)) = Inr (rule_holds R h)"
      using template_refines by blast
    with 2 show ?thesis by (auto simp: checkHandForTask_def)
  qed
qed

theorem app_refines_evaluate_witness:
  "reachable (init_state (sconst 0)) \<and> checkHandForTask (init_state (sconst 0)) = Inr False"
proof -
  have r: "reachable (init_state (sconst 0))" by (rule reachable.start) (simp add: rng_simps)
  have "rule_of k [] = Some R \<Longrightarrow> checkHandForTask (init_state (sconst 0)) = Inr False" for k R
    by (simp add: checkHandForTask_def init_state_def)
  then show ?thesis using app_refines_evaluate [OF r] r by (auto simp: init_state_def)
qed

end
